(* ===== verification/Go_Prelude.thy ===== *)
theory Go_Prelude
  imports Main "HOL-Library.Word"
begin

text \<open>
  The prelude of the development: what the Go sources use of the language and of its standard
  library, and the lemmas every component shares.
  \<^item> Machine integers. A Go \<open>int32\<close> or \<open>int64\<close> is an \<open>int\<close>; every arithmetic
    operation of the source that can leave the range goes through \<open>wrap32\<close> or \<open>wrap64\<close>,
    which \<open>wrap32_sint\<close> and \<open>wrap64_sint\<close> tie to the two's complement reading of a word.
  \<^item> Errors and effects. A fallible call is a function of the state into \<open>error + 'a\<close> and the
    next state; \<open>bindE\<close> is the source's \<open>if err != nil { return ..., err }\<close>.
  \<^item> The history of the requests to the cluster, and the weakest preconditions \<open>wp\<close> through
    which the ordering theorems of the controllers are proved for every server.
\<close>

named_theorems go_int \<open>facts about the wrapping integer operations\<close>
named_theorems go_eff \<open>unfolding rules of the effectful combinators\<close>

section \<open>Machine integers\<close>

definition wrap32 :: "int \<Rightarrow> int" where
  "wrap32 x = (x + 2147483648) mod 4294967296 - 2147483648"

definition wrap64 :: "int \<Rightarrow> int" where
  "wrap64 x = (x + 9223372036854775808) mod 18446744073709551616 - 9223372036854775808"

definition in_i32 :: "int \<Rightarrow> bool" where
  "in_i32 x \<longleftrightarrow> - 2147483648 \<le> x \<and> x \<le> 2147483647"

definition in_i64 :: "int \<Rightarrow> bool" where
  "in_i64 x \<longleftrightarrow> - 9223372036854775808 \<le> x \<and> x \<le> 9223372036854775807"

abbreviation MaxInt32 :: int where
  "MaxInt32 \<equiv> 2147483647"

lemma wrap32_range [simp, go_int]: "in_i32 (wrap32 x)"
  by (simp add: wrap32_def in_i32_def)

lemma wrap32_id [simp, go_int]: "in_i32 x \<Longrightarrow> wrap32 x = x"
  by (simp add: wrap32_def in_i32_def)

lemma wrap32_0 [simp, go_int]: "wrap32 0 = 0" "wrap32 1 = 1"
  by (simp_all add: wrap32_def)

lemma wrap64_range [simp, go_int]: "in_i64 (wrap64 x)"
  by (simp add: wrap64_def in_i64_def)

lemma wrap64_id [simp, go_int]: "in_i64 x \<Longrightarrow> wrap64 x = x"
  by (simp add: wrap64_def in_i64_def)

lemma wrap32_add_left [simp, go_int]: "wrap32 (wrap32 a + b) = wrap32 (a + b)"
proof -
  have "wrap32 a + b + 2147483648 = ((a + 2147483648) mod 4294967296) + b"
    by (simp add: wrap32_def)
  moreover have "(((a + 2147483648) mod 4294967296) + b) mod 4294967296
      = (a + b + 2147483648) mod 4294967296"
    by (simp add: mod_simps ac_simps)
  ultimately show ?thesis
    by (simp add: wrap32_def)
qed

lemma wrap32_add_right [simp, go_int]: "wrap32 (a + wrap32 b) = wrap32 (a + b)"
  using wrap32_add_left [of b a] by (simp add: add.commute)

text \<open>The wrap is the two's complement reading of the low 32 (64) bits.\<close>

lemma wrap32_sint: "wrap32 x = sint (word_of_int x :: 32 word)"
  by (simp add: wrap32_def sint_sbintrunc' signed_take_bit_eq_take_bit_shift take_bit_eq_mod)

lemma wrap64_sint: "wrap64 x = sint (word_of_int x :: 64 word)"
  by (simp add: wrap64_def sint_sbintrunc' signed_take_bit_eq_take_bit_shift take_bit_eq_mod)

section \<open>Instants and durations\<close>

text \<open>
  A \<open>time.Time\<close> is its number of nanoseconds since the epoch and a \<open>time.Duration\<close> a number
  of nanoseconds. \<open>Time.Sub\<close> saturates at the bounds of the 64-bit duration; the sums of the
  sources (an instant plus a duration of the API) are taken without a bound, as \<open>Time.Add\<close> does
  for every instant of the next centuries.
\<close>

type_synonym time = int
type_synonym duration = int

abbreviation Second :: duration where
  "Second \<equiv> 1000000000"

abbreviation Hour :: duration where
  "Hour \<equiv> 3600000000000"

definition time_Sub :: "time \<Rightarrow> time \<Rightarrow> duration" where
  "time_Sub t u = max (- 9223372036854775808) (min 9223372036854775807 (t - u))"

section \<open>Errors\<close>

text \<open>
  \<open>ApiError reason causes text\<close> is an error of the API server's client; \<open>Errorf\<close> and
  \<open>Wrapf\<close> are \<open>fmt.Errorf\<close> without and with a \<open>%w\<close> verb (always the last of its format
  here), the format kept as written and the other arguments rendered; \<open>NilDereference\<close> and
  \<open>IndexOutOfRange\<close> are the run-time panics of a nil pointer or interface and of a slice index.
\<close>

datatype error =
    ApiError string "string list" string
  | Errorf string "string list"
  | Wrapf string "string list" error
  | NilDereference string
  | IndexOutOfRange string

fun error_reason :: "error \<Rightarrow> string" where
  "error_reason (ApiError r cs t) = r"
| "error_reason (Wrapf f as e) = error_reason e"
| "error_reason _ = []"

fun error_causes :: "error \<Rightarrow> string list" where
  "error_causes (ApiError r cs t) = cs"
| "error_causes (Wrapf f as e) = error_causes e"
| "error_causes _ = []"

abbreviation IsNotFound :: "error \<Rightarrow> bool" where
  "IsNotFound e \<equiv> error_reason e = ''NotFound''"

abbreviation IsAlreadyExists :: "error \<Rightarrow> bool" where
  "IsAlreadyExists e \<equiv> error_reason e = ''AlreadyExists''"

abbreviation IsInvalid :: "error \<Rightarrow> bool" where
  "IsInvalid e \<equiv> error_reason e = ''Invalid''"

text \<open>
  \<open>fmt.Sprintf\<close> for the verbs of the sources: \<open>%s\<close>, \<open>%v\<close>, \<open>%d\<close> and \<open>%w\<close> put their
  (rendered) argument, \<open>%q\<close> quotes it, \<open>%%\<close> is a percent sign.
\<close>

definition go_quote :: "string \<Rightarrow> string" where
  "go_quote s = CHR 0x22 # concat (map (\<lambda>c. if c = CHR 0x22 \<or> c = CHR 0x5C then [CHR 0x5C, c] else [c]) s)
     @ [CHR 0x22]"

fun sprintf :: "string \<Rightarrow> string list \<Rightarrow> string" where
  "sprintf [] as = []"
| "sprintf [c] as = [c]"
| "sprintf (c # d # cs) as =
     (if c \<noteq> CHR ''%'' then c # sprintf (d # cs) as
      else if d = CHR ''%'' then CHR ''%'' # sprintf cs as
      else case as of
          [] \<Rightarrow> CHR ''%'' # CHR ''!'' # d # ''(MISSING)'' @ sprintf cs []
        | a # as' \<Rightarrow> (if d = CHR ''q'' then go_quote a else a) @ sprintf cs as')"

fun error_text :: "error \<Rightarrow> string" where
  "error_text (ApiError r cs t) = t"
| "error_text (Errorf f as) = sprintf f as"
| "error_text (Wrapf f as e) = sprintf f (as @ [error_text e])"
| "error_text (NilDereference t) = ''runtime error: invalid memory address or nil pointer dereference''"
| "error_text (IndexOutOfRange t) = ''runtime error: index out of range''"

section \<open>Effects\<close>

type_synonym ('s, 'a) eff = "'s \<Rightarrow> (error + 'a) \<times> 's"

definition returnE :: "'a \<Rightarrow> ('s, 'a) eff" where
  "returnE x = (\<lambda>s. (Inr x, s))"

definition failE :: "error \<Rightarrow> ('s, 'a) eff" where
  "failE e = (\<lambda>s. (Inl e, s))"

definition liftE :: "error + 'a \<Rightarrow> ('s, 'a) eff" where
  "liftE r = (\<lambda>s. (r, s))"

definition bindE :: "('s, 'a) eff \<Rightarrow> ('a \<Rightarrow> ('s, 'b) eff) \<Rightarrow> ('s, 'b) eff" where
  "bindE m f = (\<lambda>s. case m s of (Inl e, s') \<Rightarrow> (Inl e, s') | (Inr x, s') \<Rightarrow> f x s')"

text \<open>
  The result inspected as a value, where the source looks at \<open>err\<close> before it returns, and the
  wrapping of an error by \<open>fmt.Errorf\<close>; a panic passes through both.
\<close>

fun is_panic :: "error \<Rightarrow> bool" where
  "is_panic (NilDereference t) = True"
| "is_panic (IndexOutOfRange t) = True"
| "is_panic _ = False"

definition tryE :: "('s, 'a) eff \<Rightarrow> ('s, error + 'a) eff" where
  "tryE m = (\<lambda>s. case m s of
     (Inl e, s') \<Rightarrow> (if is_panic e then Inl e else Inr (Inl e), s')
   | (Inr x, s') \<Rightarrow> (Inr (Inr x), s'))"

definition wrap_error :: "string \<Rightarrow> string list \<Rightarrow> error \<Rightarrow> error" where
  "wrap_error f as e = (if is_panic e then e else Wrapf f as e)"

definition wrapE :: "string \<Rightarrow> string list \<Rightarrow> ('s, 'a) eff \<Rightarrow> ('s, 'a) eff" where
  "wrapE f as m = (\<lambda>s. case m s of (Inl e, s') \<Rightarrow> (Inl (wrap_error f as e), s') | (Inr x, s') \<Rightarrow> (Inr x, s'))"

text \<open>A loop over a slice that returns at the first error.\<close>

fun forE :: "'a list \<Rightarrow> ('a \<Rightarrow> ('s, unit) eff) \<Rightarrow> ('s, unit) eff" where
  "forE [] f = returnE ()"
| "forE (x # xs) f = bindE (f x) (\<lambda>_. forE xs f)"

text \<open>
  A world is the state of everything outside the program (the API server, the mesh, the clock)
  with the history of the requests sent so far and whether each succeeded. The server is a
  parameter: \<open>callE\<close> runs one of its operations and records it.
\<close>

record ('w, 'r) world =
  srv :: 'w
  hist :: "('r \<times> bool) list"

definition callE :: "'r \<Rightarrow> ('w, 'a) eff \<Rightarrow> (('w, 'r) world, 'a) eff" where
  "callE r op = (\<lambda>w. case op (srv w) of
     (res, v) \<Rightarrow> (res, w\<lparr>srv := v, hist := hist w @ [(r, \<not> isl res)]\<rparr>))"

definition silentE :: "('w, 'a) eff \<Rightarrow> (('w, 'r) world, 'a) eff" where
  "silentE op = (\<lambda>w. case op (srv w) of (res, v) \<Rightarrow> (res, w\<lparr>srv := v\<rparr>))"

text \<open>
  \<open>wp m Q E s\<close>: running \<open>m\<close> from \<open>s\<close> returns a value and a state in \<open>Q\<close>, or an error and a
  state in \<open>E\<close>. The rules below push it through the combinators; at a request it asks for the
  postcondition after both outcomes, whatever the server does.
\<close>

definition wp :: "('s, 'a) eff \<Rightarrow> ('a \<Rightarrow> 's \<Rightarrow> bool) \<Rightarrow> (error \<Rightarrow> 's \<Rightarrow> bool) \<Rightarrow> 's \<Rightarrow> bool" where
  "wp m Q E s = (case m s of (Inr x, s') \<Rightarrow> Q x s' | (Inl e, s') \<Rightarrow> E e s')"

lemma wp_returnE [go_eff]: "wp (returnE x) Q E s = Q x s"
  by (simp add: wp_def returnE_def)

lemma wp_failE [go_eff]: "wp (failE e) Q E s = E e s"
  by (simp add: wp_def failE_def)

lemma wp_liftE [go_eff]: "wp (liftE r) Q E s = (case r of Inl e \<Rightarrow> E e s | Inr x \<Rightarrow> Q x s)"
  by (simp add: wp_def liftE_def split: sum.splits)

lemma wp_bindE [go_eff]: "wp (bindE m f) Q E s = wp m (\<lambda>x. wp (f x) Q E) E s"
  by (auto simp: wp_def bindE_def split: sum.splits prod.splits)

lemma wp_tryE [go_eff]:
  "wp (tryE m) Q E s = wp m (\<lambda>x. Q (Inr x)) (\<lambda>e s'. if is_panic e then E e s' else Q (Inl e) s') s"
  by (cases "m s"; cases "fst (m s)") (auto simp: wp_def tryE_def)

lemma wp_wrapE [go_eff]: "wp (wrapE f as m) Q E s = wp m Q (\<lambda>e. E (wrap_error f as e)) s"
  by (auto simp: wp_def wrapE_def split: sum.splits prod.splits)

lemma wp_forE_Nil [go_eff]: "wp (forE [] f) Q E s = Q () s"
  by (simp add: go_eff)

lemma wp_forE_Cons [go_eff]: "wp (forE (x # xs) f) Q E s = wp (f x) (\<lambda>_. wp (forE xs f) Q E) E s"
  by (simp add: go_eff)

lemma wp_callE_I:
  assumes "\<And>x s'. hist s' = hist s @ [(r, True)] \<Longrightarrow> Q x s'"
    and "\<And>e s'. hist s' = hist s @ [(r, False)] \<Longrightarrow> E e s'"
  shows "wp (callE r op) Q E s"
  using assms by (auto simp: wp_def callE_def split: sum.splits prod.splits)

lemma wp_silentE_I:
  assumes "\<And>x s'. hist s' = hist s \<Longrightarrow> Q x s'" and "\<And>e s'. hist s' = hist s \<Longrightarrow> E e s'"
  shows "wp (silentE op) Q E s"
  using assms by (auto simp: wp_def silentE_def split: sum.splits prod.splits)

lemma wp_mono:
  assumes "wp m Q E s" and "\<And>x s'. Q x s' \<Longrightarrow> Q' x s'" and "\<And>e s'. E e s' \<Longrightarrow> E' e s'"
  shows "wp m Q' E' s"
  using assms by (auto simp: wp_def split: sum.splits prod.splits)

lemma wp_resultD:
  assumes "wp m Q E s" and "m s = (r, s')"
  shows "case r of Inr x \<Rightarrow> Q x s' | Inl e \<Rightarrow> E e s'"
  using assms by (auto simp: wp_def split: sum.splits)

end
