(* ===== verification/Go_Library.thy ===== *)
theory Go_Library
  imports Go_Prelude "HOL-Library.AList" "HOL-Library.Multiset"
    "HOL-Library.List_Lexorder" "HOL-Library.Char_ord"
begin

text \<open>
  The parts of Go's standard library the sources call, as executable definitions:
  \<^item> \<open>map[string]string\<close> as an association list read through \<open>smap_get\<close> (the zero value
    on a missing key) and written through \<open>smap_set\<close> and \<open>smap_del\<close>; the locale
    \<open>string_map\<close> states the laws its clients rely on and is interpreted on these;
  \<^item> \<open>strconv\<close> (\<open>FormatInt\<close>, \<open>ParseInt\<close>, \<open>Atoi\<close>) with its round trip;
  \<^item> \<open>strings.Split\<close> and \<open>strings.Join\<close> on a one-byte separator, with their round trip;
  \<^item> \<open>sort.Sort\<close> on a comparator: the insertion sort the library runs on short slices. The
    locale \<open>strict_weak_order\<close> is the contract of a comparator; its lemmas show that the result
    is a sorted permutation, and the only one where the comparator is total on the elements, so
    the algorithm the library picks on long slices gives the same slice.
\<close>

section \<open>String maps\<close>

type_synonym smap = "(string \<times> string) list"

definition smap_get :: "smap \<Rightarrow> string \<Rightarrow> string" where
  "smap_get m k = (case map_of m k of None \<Rightarrow> [] | Some v \<Rightarrow> v)"

definition smap_has :: "smap \<Rightarrow> string \<Rightarrow> bool" where
  "smap_has m k = (map_of m k \<noteq> None)"

definition smap_set :: "string \<Rightarrow> string \<Rightarrow> smap \<Rightarrow> smap" where
  "smap_set k v m = AList.update k v m"

definition smap_del :: "string \<Rightarrow> smap \<Rightarrow> smap" where
  "smap_del k m = AList.delete k m"

definition smap_eq :: "smap \<Rightarrow> smap \<Rightarrow> bool" where
  "smap_eq a b = list_all (\<lambda>k. map_of a k = map_of b k) (map fst a @ map fst b)"

text \<open>The entries a \<open>range\<close> over a map visits.\<close>

definition smap_entries :: "smap \<Rightarrow> smap" where
  "smap_entries m = AList.clearjunk m"

text \<open>A map that may be nil: reads see the zero value, the first write makes it.\<close>

abbreviation the_smap :: "smap option \<Rightarrow> smap" where
  "the_smap m \<equiv> (case m of None \<Rightarrow> [] | Some x \<Rightarrow> x)"

lemma smap_eq_iff: "smap_eq a b \<longleftrightarrow> map_of a = map_of b"
proof
  assume eq: "smap_eq a b"
  show "map_of a = map_of b"
  proof
    fix k
    show "map_of a k = map_of b k"
    proof (cases "k \<in> fst ` set a \<union> fst ` set b")
      case True
      with eq show ?thesis by (auto simp: smap_eq_def list_all_iff)
    next
      case False
      then have "map_of a k = None" "map_of b k = None" by (auto simp: map_of_eq_None_iff)
      then show ?thesis by simp
    qed
  qed
qed (simp add: smap_eq_def list_all_iff)

lemma smap_entries_laws [simp]:
  "map_of (smap_entries m) = map_of m" "distinct (map fst (smap_entries m))"
  by (simp_all add: smap_entries_def map_of_clearjunk)

locale string_map =
  fixes get :: "'m \<Rightarrow> string \<Rightarrow> string"
    and has :: "'m \<Rightarrow> string \<Rightarrow> bool"
    and upd :: "string \<Rightarrow> string \<Rightarrow> 'm \<Rightarrow> 'm"
    and del :: "string \<Rightarrow> 'm \<Rightarrow> 'm"
  assumes get_upd: "get (upd k v m) j = (if j = k then v else get m j)"
    and has_upd: "has (upd k v m) j = (j = k \<or> has m j)"
    and get_del: "get (del k m) j = (if j = k then [] else get m j)"
    and has_del: "has (del k m) j = (j \<noteq> k \<and> has m j)"
    and get_missing: "\<not> has m k \<Longrightarrow> get m k = []"
begin

lemma get_upd_same: "get (upd k v m) k = v"
  by (simp add: get_upd)

lemma get_upd_other: "j \<noteq> k \<Longrightarrow> get (upd k v m) j = get m j"
  by (simp add: get_upd)

lemma upd_idem: "get (upd k v (upd k v m)) j = get (upd k v m) j"
  by (simp add: get_upd)

lemma upd_commute: "j \<noteq> k \<Longrightarrow> get (upd k v (upd j u m)) i = get (upd j u (upd k v m)) i"
  by (simp add: get_upd)

lemma del_upd: "get (del k (upd k v m)) j = get (del k m) j"
  by (simp add: get_upd get_del)

end

interpretation smap: string_map smap_get smap_has smap_set smap_del
  by unfold_locales
    (auto simp: smap_get_def smap_has_def smap_set_def smap_del_def update_conv' delete_conv'
      split: option.splits)

lemmas smap_laws [simp] = smap.get_upd smap.has_upd smap.get_del smap.has_del

section \<open>strconv\<close>

fun show_nat :: "nat \<Rightarrow> string" where
  "show_nat n = (if n < 10 then [char_of (48 + n)] else show_nat (n div 10) @ [char_of (48 + n mod 10)])"

declare show_nat.simps [simp del]

definition FormatInt :: "int \<Rightarrow> string" where
  "FormatInt i = (if i < 0 then CHR ''-'' # show_nat (nat (- i)) else show_nat (nat i))"

definition is_digit :: "char \<Rightarrow> bool" where
  "is_digit c = (48 \<le> (of_char c :: nat) \<and> (of_char c :: nat) \<le> 57)"

definition digits_val :: "string \<Rightarrow> nat" where
  "digits_val s = foldl (\<lambda>v c. 10 * v + ((of_char c :: nat) - 48)) 0 s"

definition parse_nat :: "string \<Rightarrow> nat option" where
  "parse_nat s = (if s \<noteq> [] \<and> list_all is_digit s then Some (digits_val s) else None)"

text \<open>\<open>ParseInt(s, 10, 64)\<close>, and \<open>Atoi\<close> on a 64-bit platform: a sign, digits, the 64-bit range.\<close>

definition ParseInt64 :: "string \<Rightarrow> int option" where
  "ParseInt64 s = (case s of [] \<Rightarrow> None
     | c # cs \<Rightarrow>
        (case (if c = CHR ''-'' \<or> c = CHR ''+'' then parse_nat cs else parse_nat s) of
           None \<Rightarrow> None
         | Some n \<Rightarrow> (let i = (if c = CHR ''-'' then - int n else int n)
                     in if in_i64 i then Some i else None)))"

lemma of_char_digit: "d < 10 \<Longrightarrow> (of_char (char_of (48 + d) :: char) :: nat) = 48 + d"
  by (simp add: of_char_of)

lemma is_digit_digit [simp]: "d < 10 \<Longrightarrow> is_digit (char_of (48 + d :: nat))"
  by (simp add: is_digit_def of_char_digit)

lemma show_nat_digits: "list_all is_digit (show_nat n) \<and> show_nat n \<noteq> [] \<and> digits_val (show_nat n) = n"
proof (induction n rule: show_nat.induct)
  case (1 n)
  show ?case
  proof (cases "n < 10")
    case True
    then show ?thesis
      by (simp add: show_nat.simps [of n] digits_val_def of_char_digit)
  next
    case False
    with "1.IH" have "list_all is_digit (show_nat (n div 10))"
      and "digits_val (show_nat (n div 10)) = n div 10" by auto
    with False show ?thesis
      by (simp add: show_nat.simps [of n] digits_val_def of_char_digit)
  qed
qed

lemma show_nat_nonempty [simp]: "show_nat n \<noteq> []"
  using show_nat_digits [of n] by blast

lemma parse_show_nat: "parse_nat (show_nat n) = Some n"
  using show_nat_digits [of n] by (simp add: parse_nat_def)

lemma hd_show_nat: "show_nat n = c # cs \<Longrightarrow> is_digit c"
  using show_nat_digits [of n] by auto

lemma sign_not_digit: "\<not> is_digit CHR ''-''" "\<not> is_digit CHR ''+''"
  by (simp_all add: is_digit_def)

lemma parse_format: "in_i64 i \<Longrightarrow> ParseInt64 (FormatInt i) = Some i"
proof (cases "i < 0")
  case True
  moreover assume "in_i64 i"
  ultimately show ?thesis
    by (simp add: ParseInt64_def FormatInt_def parse_show_nat)
next
  case False
  moreover assume "in_i64 i"
  moreover obtain c cs where c: "show_nat (nat i) = c # cs"
    using show_nat_digits [of "nat i"] by (cases "show_nat (nat i)") auto
  moreover from hd_show_nat [OF c] have "c \<noteq> CHR ''-''" "c \<noteq> CHR ''+''"
    using sign_not_digit by auto
  ultimately show ?thesis
    using parse_show_nat [of "nat i"] by (simp add: ParseInt64_def FormatInt_def)
qed

lemma FormatInt_nonempty [simp]: "FormatInt i \<noteq> []"
  using show_nat_nonempty by (simp add: FormatInt_def)

lemma FormatInt_inject:
  assumes "in_i64 i" and "in_i64 j" and "FormatInt i = FormatInt j"
  shows "i = j"
proof -
  have "Some i = ParseInt64 (FormatInt i)" by (rule parse_format [OF assms(1), symmetric])
  also have "\<dots> = ParseInt64 (FormatInt j)" by (simp only: assms(3))
  also have "\<dots> = Some j" by (rule parse_format [OF assms(2)])
  finally show ?thesis by (rule option.inject [THEN iffD1])
qed

section \<open>strings\<close>

text \<open>\<open>strings.Split(s, sep)\<close> and \<open>strings.Join(parts, sep)\<close> for a separator of one byte.\<close>

fun Split :: "char \<Rightarrow> string \<Rightarrow> string list" where
  "Split sep [] = [[]]"
| "Split sep (c # cs) =
     (if c = sep then [] # Split sep cs
      else case Split sep cs of [] \<Rightarrow> [[c]] | p # ps \<Rightarrow> (c # p) # ps)"

fun Join :: "char \<Rightarrow> string list \<Rightarrow> string" where
  "Join sep [] = []"
| "Join sep [p] = p"
| "Join sep (p # q # ps) = p @ sep # Join sep (q # ps)"

lemma Split_nonempty [simp]: "Split sep s \<noteq> []"
  by (induction s) (auto split: list.splits)

lemma Join_Cons: "ps \<noteq> [] \<Longrightarrow> Join sep (p # ps) = p @ sep # Join sep ps"
  by (cases ps) auto

lemma Join_head: "Join sep ((c # p) # ps) = c # Join sep (p # ps)"
  by (cases ps) auto

lemma Join_Split: "Join sep (Split sep s) = s"
proof (induction s)
  case (Cons c cs)
  then show ?case
    by (cases "Split sep cs") (auto simp: Join_Cons Join_head)
qed simp

lemma Split_plain: "sep \<notin> set p \<Longrightarrow> Split sep p = [p]"
  by (induction p) auto

lemma Split_append: "sep \<notin> set p \<Longrightarrow> Split sep (p @ sep # s) = p # Split sep s"
  by (induction p) auto

lemma Split_Join:
  "ps \<noteq> [] \<Longrightarrow> \<forall>p \<in> set ps. sep \<notin> set p \<Longrightarrow> Split sep (Join sep ps) = ps"
proof (induction ps)
  case (Cons p ps)
  then show ?case
    by (cases ps) (auto simp: Split_plain Split_append)
qed simp

lemma length_Join: "ps \<noteq> [] \<Longrightarrow> length (Join sep ps) = sum_list (map length ps) + length ps - 1"
proof (induction ps)
  case (Cons p ps)
  then show ?case by (cases ps) (auto simp: Join_Cons)
qed simp

section \<open>sort.Sort\<close>

text \<open>
  \<open>sift lt x acc\<close> moves a new element left past every element it is less than; \<open>acc\<close> is the
  sorted prefix, last element first.
\<close>

fun sift :: "('a \<Rightarrow> 'a \<Rightarrow> bool) \<Rightarrow> 'a \<Rightarrow> 'a list \<Rightarrow> 'a list" where
  "sift lt x [] = [x]"
| "sift lt x (y # ys) = (if lt x y then y # sift lt x ys else x # y # ys)"

definition Sort :: "('a \<Rightarrow> 'a \<Rightarrow> bool) \<Rightarrow> 'a list \<Rightarrow> 'a list" where
  "Sort lt xs = rev (fold (sift lt) xs [])"

lemma mset_sift [simp]: "mset (sift lt x ys) = add_mset x (mset ys)"
  by (induction ys) auto

lemma mset_fold_sift: "mset (fold (sift lt) xs acc) = mset xs + mset acc"
  by (induction xs arbitrary: acc) auto

lemma mset_Sort [simp]: "mset (Sort lt xs) = mset xs"
  by (simp add: Sort_def mset_fold_sift)

lemma set_Sort [simp]: "set (Sort lt xs) = set xs"
  by (metis mset_Sort set_mset_mset)

lemma length_Sort [simp]: "length (Sort lt xs) = length xs"
  by (metis mset_Sort size_mset)

locale strict_weak_order =
  fixes lt :: "'a \<Rightarrow> 'a \<Rightarrow> bool"
  assumes less_asym: "lt x y \<Longrightarrow> \<not> lt y x"
    and not_less_trans: "\<not> lt y x \<Longrightarrow> \<not> lt z y \<Longrightarrow> \<not> lt z x"
begin

lemma less_trans: "lt x y \<Longrightarrow> lt y z \<Longrightarrow> lt x z"
  using less_asym not_less_trans by blast

lemma sorted_sift:
  "sorted_wrt (\<lambda>a b. \<not> lt a b) ys \<Longrightarrow> sorted_wrt (\<lambda>a b. \<not> lt a b) (sift lt x ys)"
proof (induction ys)
  case (Cons y ys)
  have "set (sift lt x ys) = insert x (set ys)"
    by (metis mset_sift set_mset_add_mset_insert set_mset_mset)
  with Cons show ?case
    by (auto dest: less_asym not_less_trans)
qed simp

lemma sorted_Sort: "sorted_wrt (\<lambda>a b. \<not> lt b a) (Sort lt xs)"
proof -
  have "sorted_wrt (\<lambda>a b. \<not> lt a b) (fold (sift lt) xs acc)"
    if "sorted_wrt (\<lambda>a b. \<not> lt a b) acc" for acc
    using that by (induction xs arbitrary: acc) (auto simp: sorted_sift)
  then show ?thesis
    by (simp add: Sort_def sorted_wrt_rev)
qed

text \<open>Where distinct elements always compare, there is only one sorted arrangement.\<close>

lemma sorted_unique:
  assumes "mset xs = mset ys"
    and "\<And>x y. x \<in> set xs \<Longrightarrow> y \<in> set xs \<Longrightarrow> x \<noteq> y \<Longrightarrow> lt x y \<or> lt y x"
    and "sorted_wrt (\<lambda>a b. \<not> lt b a) xs" and "sorted_wrt (\<lambda>a b. \<not> lt b a) ys"
  shows "xs = ys"
  using assms
proof (induction xs arbitrary: ys)
  case (Cons x xs)
  from Cons.prems(1) obtain y ys' where ys: "ys = y # ys'"
    by (cases ys) auto
  have sets: "set (x # xs) = set ys"
    using Cons.prems(1) by (metis set_mset_mset)
  have "x = y"
  proof (rule ccontr)
    assume "x \<noteq> y"
    with sets ys have "x \<in> set ys'" "y \<in> set xs" "y \<in> set (x # xs)" by auto
    with Cons.prems(3,4) ys have "\<not> lt x y" "\<not> lt y x" by auto
    with Cons.prems(2) \<open>x \<noteq> y\<close> \<open>y \<in> set (x # xs)\<close> show False by force
  qed
  with Cons ys show ?case by auto
qed simp

lemma Sort_unique:
  assumes "mset ys = mset xs" and "sorted_wrt (\<lambda>a b. \<not> lt b a) ys"
    and "\<And>x y. x \<in> set xs \<Longrightarrow> y \<in> set xs \<Longrightarrow> x \<noteq> y \<Longrightarrow> lt x y \<or> lt y x"
  shows "Sort lt xs = ys"
proof (rule sorted_unique [OF _ _ sorted_Sort assms(2)])
  show "mset (Sort lt xs) = mset ys" using assms(1) by simp
qed (use assms(3) in simp)

end

end
