(* ===== verification/Float64.thy ===== *)
theory Float64
  imports Go_Prelude "HOL-Library.Log_Nat"
begin

text \<open>
  Go's \<open>float64\<close>: IEEE-754 binary64 values as exact rationals with the two infinities and NaN,
  and the operations the sources use, each the exact result rounded to nearest, ties to even
  (\<open>fl64\<close>). The sign of zero is not kept: no source divides by a negative zero.
  \<open>ceil_percent\<close> is what the replica split rests on: for 32-bit inputs the float computation
  \<open>math.Ceil(float64(d) * float64(w) / 100)\<close> is the exact integer ceiling.
\<close>

section \<open>Rounding\<close>

datatype float64 = Fin rat | PosInf | NegInf | NaN

definition round_even :: "rat \<Rightarrow> int" where
  "round_even x = (let f = \<lfloor>x\<rfloor>; d = x - of_int f in
     if d < 1 / 2 then f else if d > 1 / 2 then f + 1 else if even f then f else f + 1)"

text \<open>The exponent of a positive rational: \<open>pow2 (ilog2 x) \<le> x < pow2 (ilog2 x + 1)\<close>.\<close>

definition pow2 :: "int \<Rightarrow> rat" where
  "pow2 e = (if 0 \<le> e then 2 ^ nat e else 1 / 2 ^ nat (- e))"

definition ilog2 :: "rat \<Rightarrow> int" where
  "ilog2 x = (if 1 \<le> x then int (floorlog 2 (nat \<lfloor>x\<rfloor>)) - 1
              else - int (floorlog 2 (nat (\<lceil>1 / x\<rceil> - 1))))"

definition ulp64 :: "rat \<Rightarrow> rat" where
  "ulp64 x = pow2 (max (ilog2 \<bar>x\<bar>) (- 1022) - 52)"

definition fl64 :: "rat \<Rightarrow> float64" where
  "fl64 x = (if x = 0 then Fin 0
     else let r = of_int (round_even (x / ulp64 x)) * ulp64 x in
       if 2 ^ 1024 \<le> r then PosInf else if r \<le> - (2 ^ 1024) then NegInf else Fin r)"

definition f64_of_int :: "int \<Rightarrow> float64" where
  "f64_of_int n = fl64 (of_int n)"

fun f64_mul :: "float64 \<Rightarrow> float64 \<Rightarrow> float64" where
  "f64_mul (Fin x) (Fin y) = fl64 (x * y)"
| "f64_mul NaN _ = NaN"
| "f64_mul _ NaN = NaN"
| "f64_mul PosInf (Fin y) = (if y = 0 then NaN else if 0 < y then PosInf else NegInf)"
| "f64_mul NegInf (Fin y) = (if y = 0 then NaN else if 0 < y then NegInf else PosInf)"
| "f64_mul (Fin x) PosInf = (if x = 0 then NaN else if 0 < x then PosInf else NegInf)"
| "f64_mul (Fin x) NegInf = (if x = 0 then NaN else if 0 < x then NegInf else PosInf)"
| "f64_mul PosInf PosInf = PosInf"
| "f64_mul PosInf NegInf = NegInf"
| "f64_mul NegInf PosInf = NegInf"
| "f64_mul NegInf NegInf = PosInf"

fun f64_div :: "float64 \<Rightarrow> float64 \<Rightarrow> float64" where
  "f64_div (Fin x) (Fin y) =
     (if y = 0 then if x = 0 then NaN else if 0 < x then PosInf else NegInf else fl64 (x / y))"
| "f64_div NaN _ = NaN"
| "f64_div _ NaN = NaN"
| "f64_div (Fin x) _ = Fin 0"
| "f64_div PosInf (Fin y) = (if 0 \<le> y then PosInf else NegInf)"
| "f64_div NegInf (Fin y) = (if 0 \<le> y then NegInf else PosInf)"
| "f64_div _ _ = NaN"

fun f64_ceil :: "float64 \<Rightarrow> float64" where
  "f64_ceil (Fin x) = Fin (of_int \<lceil>x\<rceil>)"
| "f64_ceil x = x"

text \<open>
  \<open>int32(x)\<close>: the truncation where it fits; what an amd64 conversion gives elsewhere (the
  language leaves it to the implementation) is not used by any theorem and is taken as zero.
\<close>

fun f64_to_int32 :: "float64 \<Rightarrow> int" where
  "f64_to_int32 (Fin x) = (let t = (if 0 \<le> x then \<lfloor>x\<rfloor> else \<lceil>x\<rceil>) in if in_i32 t then t else 0)"
| "f64_to_int32 _ = 0"

section \<open>The error of one rounding\<close>

lemma round_even_error: "\<bar>of_int (round_even x) - x\<bar> \<le> 1 / 2"
proof -
  have "of_int \<lfloor>x\<rfloor> \<le> x" "x < of_int \<lfloor>x\<rfloor> + 1" by linarith+
  then show ?thesis
    by (auto simp: round_even_def Let_def)
qed

lemma round_even_int [simp]: "round_even (of_int n) = n"
  by (simp add: round_even_def)

lemma pow2_pos [simp]: "0 < pow2 e"
  by (simp add: pow2_def)

lemma pow2_mono: "d \<le> e \<Longrightarrow> pow2 d \<le> pow2 e"
proof -
  assume le: "d \<le> e"
  consider "0 \<le> d" | "d < 0" "0 \<le> e" | "e < 0" using le by linarith
  then show ?thesis
  proof cases
    case 1
    with le show ?thesis by (simp add: pow2_def power_increasing)
  next
    case 2
    have "1 / 2 ^ nat (- d) \<le> (1 :: rat)" by simp
    also have "\<dots> \<le> 2 ^ nat e" by simp
    finally show ?thesis using 2 by (simp add: pow2_def)
  next
    case 3
    with le have "(2 :: rat) ^ nat (- e) \<le> 2 ^ nat (- d)" by (intro power_increasing) auto
    with 3 le show ?thesis by (simp add: pow2_def frac_le)
  qed
qed

text \<open>Between one and \<open>2 ^ k\<close> the unit in the last place is at most \<open>pow2 (k - 53)\<close>.\<close>

lemma ilog2_le:
  assumes "1 \<le> x" and "x < 2 ^ k"
  shows "ilog2 x \<le> int k - 1"
proof -
  have "\<lfloor>x\<rfloor> < 2 ^ k" using assms(2) by (simp add: floor_less_iff)
  moreover have "1 \<le> \<lfloor>x\<rfloor>" using assms(1) by simp
  ultimately have "nat \<lfloor>x\<rfloor> < 2 ^ k" by (simp add: nat_less_iff)
  then have "floorlog 2 (nat \<lfloor>x\<rfloor>) \<le> k" by (simp add: floorlog_leI)
  with assms(1) show ?thesis by (simp add: ilog2_def)
qed

lemma ilog2_neg: "0 < x \<Longrightarrow> x < 1 \<Longrightarrow> ilog2 x \<le> 0"
  by (simp add: ilog2_def)

lemma ulp64_le:
  assumes "0 < x" and "x < 2 ^ k" and "1 \<le> k" and "k \<le> 1000"
  shows "ulp64 x \<le> pow2 (int k - 53)"
proof -
  have "ilog2 x \<le> int k - 1"
  proof (cases "1 \<le> x")
    case True
    then show ?thesis using ilog2_le assms(2) by blast
  next
    case False
    then show ?thesis using ilog2_neg [of x] assms by simp
  qed
  then have "max (ilog2 x) (- 1022) - 52 \<le> int k - 53" using assms(3) by simp
  with assms(1) show ?thesis
    unfolding ulp64_def by (intro pow2_mono) simp
qed

lemma ulp64_pos [simp]: "0 < ulp64 x"
  by (simp add: ulp64_def)

text \<open>One rounding moves a value below \<open>2 ^ k\<close> by at most half of \<open>pow2 (k - 53)\<close>.\<close>

lemma fl64_error:
  assumes "0 < x" and "x < 2 ^ k" and "1 \<le> k" and "k \<le> 1000"
  obtains y where "fl64 x = Fin y" and "\<bar>y - x\<bar> \<le> pow2 (int k - 53) / 2"
proof -
  define u where "u = ulp64 x"
  define r where "r = of_int (round_even (x / u)) * u"
  have u: "0 < u" "u \<le> pow2 (int k - 53)"
    using ulp64_le [OF assms] by (simp_all add: u_def)
  have "r - x = (of_int (round_even (x / u)) - x / u) * u"
    using u by (simp add: r_def algebra_simps)
  then have "\<bar>r - x\<bar> = \<bar>of_int (round_even (x / u)) - x / u\<bar> * u"
    using u by (simp add: abs_mult)
  also have "\<dots> \<le> 1 / 2 * u"
    using u round_even_error [of "x / u"] by (intro mult_right_mono) auto
  finally have err: "\<bar>r - x\<bar> \<le> pow2 (int k - 53) / 2" using u by simp
  have "pow2 (int k - 53) \<le> pow2 (int k)" by (rule pow2_mono) simp
  then have "pow2 (int k - 53) \<le> 2 ^ k" by (simp add: pow2_def)
  with err assms(1,2) have "r < 2 ^ k + 2 ^ k" "- (2 ^ k) < r" by linarith+
  moreover have "(2 :: rat) ^ k + 2 ^ k \<le> 2 ^ 1024"
  proof -
    have "(2 :: rat) ^ k + 2 ^ k = 2 ^ Suc k" by simp
    also have "\<dots> \<le> 2 ^ 1024" using assms(4) by (intro power_increasing) auto
    finally show ?thesis .
  qed
  ultimately have "r < 2 ^ 1024" "- (2 ^ 1024) < r" by (auto intro: less_le_trans)
  then have "fl64 x = Fin r"
    using assms(1) by (simp add: fl64_def Let_def r_def u_def not_le)
  with err that show thesis by blast
qed

section \<open>Exact cases\<close>

lemma fl64_int:
  assumes "\<bar>n\<bar> < 2 ^ 53"
  shows "fl64 (of_int n) = Fin (of_int n)"
proof (cases "n = 0")
  case False
  define e where "e = max (ilog2 \<bar>of_int n\<bar>) (- 1022)"
  have "\<bar>of_int n\<bar> < (2 :: rat) ^ 53"
    using assms by (metis of_int_abs of_int_less_iff of_int_numeral of_int_power)
  moreover have "(1 :: rat) \<le> \<bar>of_int n\<bar>"
    using False by (metis abs_ge_zero linorder_not_less of_int_abs of_int_le_1_iff of_int_le_iff of_int_1 zero_less_abs_iff int_one_le_iff_zero_less)
  ultimately have "e \<le> 52" using ilog2_le [of "\<bar>of_int n\<bar>" 53] by (simp add: e_def)
  moreover have ulp: "ulp64 (of_int n) = pow2 (e - 52)" by (simp add: ulp64_def e_def)
  ultimately have inv: "1 / ulp64 (of_int n) = of_int (2 ^ nat (52 - e))"
    by (cases "e = 52") (auto simp: pow2_def)
  have "of_int n / ulp64 (of_int n) = of_int (n * 2 ^ nat (52 - e))"
    using arg_cong [OF inv, of "\<lambda>z. of_int n * z"] by simp
  then have "of_int (round_even (of_int n / ulp64 (of_int n))) * ulp64 (of_int n)
      = of_int n / ulp64 (of_int n) * ulp64 (of_int n)"
    by (metis round_even_int)
  also have "\<dots> = of_int n" using ulp64_pos [of "of_int n"] by (simp add: less_imp_neq [THEN not_sym])
  finally have r: "of_int (round_even (of_int n / ulp64 (of_int n))) * ulp64 (of_int n) = of_int n" .
  have "(2 :: rat) ^ 53 \<le> 2 ^ 1024" by (rule power_increasing) auto
  with \<open>\<bar>of_int n\<bar> < (2 :: rat) ^ 53\<close> have "\<not> 2 ^ 1024 \<le> (of_int n :: rat)" "\<not> of_int n \<le> - ((2 :: rat) ^ 1024)"
    by linarith+
  with False r show ?thesis by (simp only: fl64_def Let_def of_int_eq_0_iff if_False)
qed (simp add: fl64_def)

text \<open>
  The quotient of an integer below \<open>2 ^ 38\<close> by 100, rounded and then rounded up, is the exact
  ceiling: a quotient that is no integer is at least a hundredth away from every integer, far
  more than the rounding moves it.
\<close>

lemma ceil_hundredth:
  assumes "0 < p" and "p < 2 ^ 38"
  shows "f64_ceil (fl64 (of_int p / 100)) = Fin (of_int (- ((- p) div 100)))"
proof -
  define q r where "q = p div 100" and "r = p mod 100"
  have p: "p = 100 * q + r" "0 \<le> r" "r < 100" by (simp_all add: q_def r_def)
  have ceil: "- ((- p) div 100) = (if r = 0 then q else q + 1)"
    using p by (simp add: zdiv_zminus1_eq_if q_def r_def)
  show ?thesis
  proof (cases "r = 0")
    case True
    then have x: "(of_int p :: rat) / 100 = of_int q" using p by simp
    have "\<bar>q\<bar> < 2 ^ 53" using assms p True by simp
    then show ?thesis using fl64_int [of q] True ceil by (simp add: x)
  next
    case False
    have "(of_int p :: rat) < 2 ^ 38" using assms(2) by (metis of_int_less_iff of_int_numeral of_int_power)
    then have "(of_int p :: rat) / 100 < 2 ^ 38" using assms(1) by simp
    moreover have "0 < (of_int p :: rat) / 100" using assms(1) by simp
    ultimately obtain y where y: "fl64 (of_int p / 100) = Fin y"
      and err: "\<bar>y - of_int p / 100\<bar> \<le> pow2 (int 38 - 53) / 2"
      using fl64_error [of "of_int p / 100" 38] by auto
    have "pow2 (int 38 - 53) / 2 < 1 / 100" by (simp add: pow2_def)
    with err have close: "\<bar>y - of_int p / 100\<bar> < 1 / 100" by linarith
    have "(of_int p :: rat) / 100 = of_int q + of_int r / 100" using p by (simp add: field_simps)
    moreover have "(1 :: rat) \<le> of_int r" "(of_int r :: rat) \<le> 99" using False p by simp_all
    ultimately have "of_int q < y" "y \<le> of_int q + 1" using close by linarith+
    then have "\<lceil>y\<rceil> = q + 1" by (intro ceiling_unique) auto
    then show ?thesis using y ceil False by simp
  qed
qed

lemma ceil_percent:
  assumes "0 < d" and "in_i32 d" and "0 < w" and "w < 100"
  shows "f64_to_int32 (f64_ceil (f64_div (f64_mul (f64_of_int d) (f64_of_int w)) (f64_of_int 100)))
     = - ((- (d * w)) div 100)"
proof -
  have d: "d \<le> 2147483647" using assms(2) by (simp add: in_i32_def)
  then have "d * w \<le> 2147483647 * 99" using assms by (intro mult_mono) auto
  then have small: "0 < d * w" "d * w < 2 ^ 38" using assms by auto
  have ints: "f64_of_int d = Fin (of_int d)" "f64_of_int w = Fin (of_int w)"
      "f64_of_int 100 = Fin (of_int 100)" "fl64 (of_int d * of_int w) = Fin (of_int (d * w))"
    using fl64_int [of d] fl64_int [of w] fl64_int [of 100] fl64_int [of "d * w"] assms d small
    by (auto simp: f64_of_int_def)
  have "- ((- (d * w)) div 100) \<le> d"
  proof -
    have "d * w \<le> d * 99" using assms by (intro mult_left_mono) auto
    then show ?thesis using assms by linarith
  qed
  moreover have "0 < - ((- (d * w)) div 100)" using small by linarith
  ultimately have "in_i32 (- ((- (d * w)) div 100))" using d by (simp add: in_i32_def)
  moreover have "f64_div (Fin (of_int (d * w))) (Fin (of_int 100)) = fl64 (of_int (d * w) / 100)"
    by simp
  ultimately show ?thesis
    using ceil_hundredth [OF small] \<open>0 < - ((- (d * w)) div 100)\<close>
    by (simp only: ints f64_mul.simps) (simp add: Let_def)
qed

end
