(* ===== verification/K8s_Objects.thy ===== *)
theory K8s_Objects
  imports Go_Library Float64
begin

text \<open>
  The Kubernetes API objects the controllers read and write (\<open>k8s.io/api\<close> and
  \<open>k8s.io/apimachinery\<close>), as far as the sources touch them. A pointer field is an \<open>option\<close>; a
  field the sources only copy and compare as a whole (a pod spec, the other metadata of a pod
  template, the other fields of a Service) is carried as its serialized text. Reading through a nil
  \<open>*int32\<close> is the panic \<open>NilDereference\<close>, the result of \<open>deref\<close>.

  The functions of third-party packages that the sources call are the fields of the record
  \<open>lib\<close>, a parameter of every definition that uses one.
\<close>

section \<open>Results without effects\<close>

type_synonym 'a res = "error + 'a"

definition bindR :: "'a res \<Rightarrow> ('a \<Rightarrow> 'b res) \<Rightarrow> 'b res" where
  "bindR r f = (case r of Inl e \<Rightarrow> Inl e | Inr x \<Rightarrow> f x)"

definition deref :: "string \<Rightarrow> 'a option \<Rightarrow> 'a res" where
  "deref what p = (case p of None \<Rightarrow> Inl (NilDereference what) | Some x \<Rightarrow> Inr x)"

lemma bindR_simps [simp]: "bindR (Inl e) f = Inl e" "bindR (Inr x) f = f x"
  by (simp_all add: bindR_def)

lemma bindR_eq_Inr: "bindR r f = Inr y \<longleftrightarrow> (\<exists>x. r = Inr x \<and> f x = Inr y)"
  by (cases r) auto

lemma deref_simps [simp]: "deref what (Some x) = Inr x" "deref what None = Inl (NilDereference what)"
  by (simp_all add: deref_def)

lemma deref_eq_Inr [simp]: "deref what p = Inr x \<longleftrightarrow> p = Some x"
  by (cases p) auto

text \<open>A pass over a slice whose element function may fail, and a sum of \<open>int32\<close> values.\<close>

fun mapR :: "('a \<Rightarrow> 'b res) \<Rightarrow> 'a list \<Rightarrow> 'b list res" where
  "mapR f [] = Inr []"
| "mapR f (x # xs) = bindR (f x) (\<lambda>y. bindR (mapR f xs) (\<lambda>ys. Inr (y # ys)))"

definition sum32 :: "int list \<Rightarrow> int" where
  "sum32 xs = foldl (\<lambda>t n. wrap32 (t + n)) 0 xs"

lemma mapR_Inr: "(\<And>x. x \<in> set xs \<Longrightarrow> f x = Inr (g x)) \<Longrightarrow> mapR f xs = Inr (map g xs)"
  by (induction xs) auto

lemma sum32_wrap: "sum32 xs = wrap32 (sum_list xs)"
proof -
  have "wrap32 (foldl (\<lambda>t n. wrap32 (t + n)) t xs) = wrap32 (t + sum_list xs)" for t
  proof (induction xs arbitrary: t)
    case (Cons n xs)
    show ?case by (simp add: Cons.IH add.assoc)
  qed simp
  moreover have "wrap32 (sum32 xs) = sum32 xs"
    unfolding sum32_def by (cases xs rule: rev_cases) simp_all
  ultimately show ?thesis
    unfolding sum32_def by (metis add_0)
qed

lemma sum32_exact: "in_i32 (sum_list xs) \<Longrightarrow> sum32 xs = sum_list xs"
  by (simp add: sum32_wrap)

definition non_nil :: "'a option list \<Rightarrow> 'a list" where
  "non_nil xs = List.map_filter (\<lambda>x. x) xs"

lemma non_nil_simps [simp]:
  "non_nil [] = []" "non_nil (None # xs) = non_nil xs" "non_nil (Some x # xs) = x # non_nil xs"
  by (simp_all add: non_nil_def List.map_filter_simps)

lemma non_nil_append [simp]: "non_nil (xs @ ys) = non_nil xs @ non_nil ys"
  by (induction xs rule: list.induct) (auto simp: non_nil_def List.map_filter_def)

lemma non_nil_map_Some [simp]: "non_nil (map Some xs) = xs"
  by (induction xs) auto

lemma set_non_nil: "x \<in> set (non_nil xs) \<longleftrightarrow> Some x \<in> set xs"
proof (induction xs)
  case (Cons y xs)
  then show ?case by (cases y) auto
qed simp

section \<open>Metadata\<close>

record ownerReference =
  owner_APIVersion :: string
  owner_Kind :: string
  owner_Name :: string
  owner_UID :: string
  owner_Controller :: "bool option"
  owner_BlockOwnerDeletion :: "bool option"

record objectMeta =
  meta_Name :: string
  meta_Namespace :: string
  meta_UID :: string
  meta_ResourceVersion :: string
  meta_Generation :: int
  meta_CreationTimestamp :: time
  meta_DeletionTimestamp :: "time option"
  meta_Labels :: smap
  meta_Annotations :: "smap option"
  meta_OwnerReferences :: "ownerReference list"

record labelSelectorRequirement =
  lsr_Key :: string
  lsr_Operator :: string
  lsr_Values :: "string list"

record labelSelector =
  sel_MatchLabels :: smap
  sel_MatchExpressions :: "labelSelectorRequirement list"

datatype intOrString = FromInt int | FromString string

record condition =
  cond_Type :: string
  cond_Status :: string
  cond_ObservedGeneration :: int
  cond_LastTransitionTime :: time
  cond_Reason :: string
  cond_Message :: string

text \<open>\<open>metav1.GetControllerOf\<close>: the owner reference marked as the controller.\<close>

definition GetControllerOf :: "objectMeta \<Rightarrow> ownerReference option" where
  "GetControllerOf m = find (\<lambda>r. owner_Controller r = Some True) (meta_OwnerReferences m)"

section \<open>Workloads\<close>

record podTemplate =
  pt_Labels :: smap
  pt_Meta :: string
  pt_Spec :: string

record envVar =
  env_Name :: string
  env_Value :: string

record pod =
  pod_Meta :: objectMeta
  pod_Phase :: string

record replicaSetCondition =
  rsc_Type :: string
  rsc_Status :: string
  rsc_LastTransitionTime :: time
  rsc_Reason :: string
  rsc_Message :: string

record replicaSet =
  rs_Meta :: objectMeta
  rs_Replicas :: "int option"
  rs_MinReadySeconds :: int
  rs_Selector :: "labelSelector option"
  rs_Template :: podTemplate
  rs_StatusReplicas :: int
  rs_ReadyReplicas :: int
  rs_AvailableReplicas :: int
  rs_ObservedGeneration :: int
  rs_Conditions :: "replicaSetCondition list"

abbreviation rs_Name :: "replicaSet \<Rightarrow> string" where
  "rs_Name rs \<equiv> meta_Name (rs_Meta rs)"

abbreviation rs_UID :: "replicaSet \<Rightarrow> string" where
  "rs_UID rs \<equiv> meta_UID (rs_Meta rs)"

abbreviation rs_Labels :: "replicaSet \<Rightarrow> smap" where
  "rs_Labels rs \<equiv> meta_Labels (rs_Meta rs)"

abbreviation rs_Annotations :: "replicaSet \<Rightarrow> smap option" where
  "rs_Annotations rs \<equiv> meta_Annotations (rs_Meta rs)"

definition rs_set_Annotations :: "smap option \<Rightarrow> replicaSet \<Rightarrow> replicaSet" where
  "rs_set_Annotations a rs = rs\<lparr>rs_Meta := (rs_Meta rs)\<lparr>meta_Annotations := a\<rparr>\<rparr>"

record rollingUpdate =
  ru_MaxUnavailable :: "intOrString option"
  ru_MaxSurge :: "intOrString option"

record deploymentCondition =
  dcond_Type :: string
  dcond_Status :: string
  dcond_LastUpdateTime :: time
  dcond_LastTransitionTime :: time
  dcond_Reason :: string
  dcond_Message :: string

record deploymentStatus =
  ds_ObservedGeneration :: int
  ds_Replicas :: int
  ds_UpdatedReplicas :: int
  ds_ReadyReplicas :: int
  ds_AvailableReplicas :: int
  ds_UnavailableReplicas :: int
  ds_Conditions :: "deploymentCondition list"
  ds_CollisionCount :: "int option"

record deployment =
  dep_Meta :: objectMeta
  dep_Replicas :: "int option"
  dep_Selector :: "labelSelector option"
  dep_Template :: podTemplate
  dep_StrategyType :: string
  dep_RollingUpdate :: "rollingUpdate option"
  dep_MinReadySeconds :: int
  dep_RevisionHistoryLimit :: "int option"
  dep_Paused :: bool
  dep_ProgressDeadlineSeconds :: "int option"
  dep_Status :: deploymentStatus

abbreviation dep_Annotations :: "deployment \<Rightarrow> smap option" where
  "dep_Annotations d \<equiv> meta_Annotations (dep_Meta d)"

definition dep_set_Annotations :: "smap option \<Rightarrow> deployment \<Rightarrow> deployment" where
  "dep_set_Annotations a d = d\<lparr>dep_Meta := (dep_Meta d)\<lparr>meta_Annotations := a\<rparr>\<rparr>"

definition empty_deploymentStatus :: deploymentStatus where
  "empty_deploymentStatus = \<lparr>ds_ObservedGeneration = 0, ds_Replicas = 0, ds_UpdatedReplicas = 0,
     ds_ReadyReplicas = 0, ds_AvailableReplicas = 0, ds_UnavailableReplicas = 0, ds_Conditions = [],
     ds_CollisionCount = None\<rparr>"

record service =
  svc_Meta :: objectMeta
  svc_Selector :: "smap option"
  svc_Rest :: string

section \<open>Constants\<close>

abbreviation DefaultDeploymentUniqueLabelKey :: string where
  "DefaultDeploymentUniqueLabelKey \<equiv> ''pod-template-hash''"

abbreviation DeprecatedRollbackTo :: string where
  "DeprecatedRollbackTo \<equiv> ''deprecated.deployment.rollback.to''"

abbreviation LastAppliedConfigAnnotation :: string where
  "LastAppliedConfigAnnotation \<equiv> ''kubectl.kubernetes.io/last-applied-configuration''"

abbreviation RollingUpdateDeploymentStrategyType :: string where
  "RollingUpdateDeploymentStrategyType \<equiv> ''RollingUpdate''"

abbreviation RecreateDeploymentStrategyType :: string where
  "RecreateDeploymentStrategyType \<equiv> ''Recreate''"

section \<open>Third-party functions\<close>

text \<open>
  \<^item> \<open>lib_GetScaledValue\<close>: \<open>intstr.GetScaledValueFromIntOrPercent(v, tot, roundUp)\<close>;
  \<^item> \<open>lib_SemanticDeepEqual\<close>: \<open>apiequality.Semantic.DeepEqual\<close> on pod templates;
  \<^item> \<open>lib_DumpForHash\<close>, \<open>lib_SafeEncodeString\<close>: \<open>dump.ForHash\<close> and \<open>rand.SafeEncodeString\<close>;
  \<^item> \<open>lib_RoundToInt32\<close>: \<open>integer.RoundToInt32\<close>;
  \<^item> \<open>lib_LabelSelectorAsSelector\<close>: \<open>metav1.LabelSelectorAsSelector\<close>; a \<open>labels.Selector\<close> is what the
    sources ask of it, its text form and the two predicates;
  \<^item> \<open>lib_KeyFunc\<close>, \<open>lib_SplitMetaNamespaceKey\<close>: the key of an object in a work queue and back
    (\<open>cache.DeletionHandlingMetaNamespaceKeyFunc\<close>, \<open>cache.SplitMetaNamespaceKey\<close>);
  \<^item> \<open>lib_NewAggregate\<close>: \<open>utilerrors.NewAggregate\<close>, one error out of a list, nil for none;
  \<^item> \<open>lib_TimeString\<close>: the text of a \<open>metav1.Time\<close> in a message.
\<close>

record selector =
  sel_String :: string
  sel_Empty :: bool
  sel_Matches :: "smap \<Rightarrow> bool"

record lib =
  lib_GetScaledValue :: "intOrString option \<Rightarrow> int \<Rightarrow> bool \<Rightarrow> int res"
  lib_SemanticDeepEqual :: "podTemplate \<Rightarrow> podTemplate \<Rightarrow> bool"
  lib_DumpForHash :: "podTemplate \<Rightarrow> string"
  lib_SafeEncodeString :: "string \<Rightarrow> string"
  lib_RoundToInt32 :: "float64 \<Rightarrow> int"
  lib_LabelSelectorAsSelector :: "labelSelector option \<Rightarrow> selector res"
  lib_KeyFunc :: "objectMeta \<Rightarrow> string res"
  lib_SplitMetaNamespaceKey :: "string \<Rightarrow> (string \<times> string) res"
  lib_NewAggregate :: "error list \<Rightarrow> error option"
  lib_TimeString :: "time \<Rightarrow> string"

text \<open>
  The documented behaviour of \<open>GetScaledValueFromIntOrPercent\<close>: an integer is returned as it is;
  \<open>"p%"\<close> is the percentage of the tot, rounded up or down. \<open>scaled_value_ref\<close> is a concrete
  function with that behaviour (every other text is an error), the witness that it can hold.
\<close>

definition percent_of :: "int \<Rightarrow> int \<Rightarrow> bool \<Rightarrow> int" where
  "percent_of p tot roundUp =
     (if roundUp then - ((- (p * tot)) div 100) else p * tot div 100)"

definition scaled_value_spec :: "(intOrString option \<Rightarrow> int \<Rightarrow> bool \<Rightarrow> int res) \<Rightarrow> bool" where
  "scaled_value_spec f \<longleftrightarrow>
     (\<forall>n tot up. in_i32 n \<longrightarrow> f (Some (FromInt n)) tot up = Inr n) \<and>
     (\<forall>p tot up. 0 \<le> p \<longrightarrow> p \<le> 100 \<longrightarrow> in_i32 tot \<longrightarrow>
        f (Some (FromString (FormatInt p @ ''%''))) tot up = Inr (percent_of p tot up))"

definition scaled_value_ref :: "intOrString option \<Rightarrow> int \<Rightarrow> bool \<Rightarrow> int res" where
  "scaled_value_ref v tot up = (case v of
     None \<Rightarrow> Inl (Errorf ''nil value for IntOrString'' [])
   | Some (FromInt n) \<Rightarrow> Inr n
   | Some (FromString s) \<Rightarrow>
      (if s = [] \<or> last s \<noteq> CHR ''%'' then Inl (Errorf ''invalid value for IntOrString: %q'' [s])
       else case ParseInt64 (butlast s) of
          None \<Rightarrow> Inl (Errorf ''invalid value for IntOrString: %q'' [s])
        | Some p \<Rightarrow> Inr (percent_of p tot up)))"

lemma in_i32_i64: "in_i32 x \<Longrightarrow> in_i64 x"
  by (simp add: in_i32_def in_i64_def)

lemma scaled_value_ref_spec: "scaled_value_spec scaled_value_ref"
  by (simp add: scaled_value_spec_def scaled_value_ref_def butlast_append parse_format in_i64_def)

lemma scaled_value_specD:
  assumes "scaled_value_spec f"
  shows "in_i32 n \<Longrightarrow> f (Some (FromInt n)) tot up = Inr n"
    and "0 \<le> p \<Longrightarrow> p \<le> 100 \<Longrightarrow> in_i32 tot \<Longrightarrow>
      f (Some (FromString (FormatInt p @ ''%''))) tot up = Inr (percent_of p tot up)"
  using assms by (auto simp: scaled_value_spec_def)

text \<open>\<open>Semantic.DeepEqual\<close> takes templates with equal label maps and equal other fields as equal.\<close>

definition template_same :: "podTemplate \<Rightarrow> podTemplate \<Rightarrow> bool" where
  "template_same t u \<longleftrightarrow>
     smap_eq (pt_Labels t) (pt_Labels u) \<and> pt_Meta t = pt_Meta u \<and> pt_Spec t = pt_Spec u"

definition semantic_equal_spec :: "(podTemplate \<Rightarrow> podTemplate \<Rightarrow> bool) \<Rightarrow> bool" where
  "semantic_equal_spec f \<longleftrightarrow> (\<forall>t u. template_same t u \<longrightarrow> f t u)"

lemma template_same_spec: "semantic_equal_spec template_same"
  by (simp add: semantic_equal_spec_def)

text \<open>A reference instance on selectors of labels only; expressions are refused.\<close>

definition round_ref :: "float64 \<Rightarrow> int" where
  "round_ref x = (case x of Fin r \<Rightarrow> wrap32 (if r < 0 then \<lceil>r - 1 / 2\<rceil> else \<lfloor>r + 1 / 2\<rfloor>) | _ \<Rightarrow> 0)"

definition selector_ref :: "labelSelector option \<Rightarrow> selector res" where
  "selector_ref s = (case s of
     None \<Rightarrow> Inr \<lparr>sel_String = [], sel_Empty = False, sel_Matches = (\<lambda>_. False)\<rparr>
   | Some l \<Rightarrow>
      (if sel_MatchExpressions l \<noteq> [] then Inl (Errorf ''unsupported expression'' [])
       else Inr \<lparr>sel_String = concat (map (\<lambda>(k, v). k @ ''='' @ v @ '','') (sel_MatchLabels l)),
              sel_Empty = (sel_MatchLabels l = []),
              sel_Matches = (\<lambda>m. list_all (\<lambda>(k, v). map_of m k = Some v) (sel_MatchLabels l))\<rparr>))"

text \<open>
  The documented behaviour of the key functions (a namespaced object has the key \<open>namespace/name\<close>, which splits
  back) and of \<open>NewAggregate\<close> (an empty list gives nil), with reference instances.
\<close>

definition key_spec :: "lib \<Rightarrow> bool" where
  "key_spec L \<longleftrightarrow> (\<forall>m. meta_Namespace m \<noteq> [] \<longrightarrow> CHR ''/'' \<notin> set (meta_Namespace m) \<longrightarrow> CHR ''/'' \<notin> set (meta_Name m) \<longrightarrow>
     (\<exists>key. lib_KeyFunc L m = Inr key \<and> lib_SplitMetaNamespaceKey L key = Inr (meta_Namespace m, meta_Name m)))"

definition aggregate_spec :: "lib \<Rightarrow> bool" where
  "aggregate_spec L \<longleftrightarrow> (\<forall>es. lib_NewAggregate L es = None \<longleftrightarrow> es = [])"

definition key_ref :: "objectMeta \<Rightarrow> string res" where
  "key_ref m = Inr (if meta_Namespace m = [] then meta_Name m else meta_Namespace m @ ''/'' @ meta_Name m)"

definition split_key_ref :: "string \<Rightarrow> (string \<times> string) res" where
  "split_key_ref key = (case Split CHR ''/'' key of
     [name] \<Rightarrow> Inr ([], name)
   | [ns, name] \<Rightarrow> Inr (ns, name)
   | _ \<Rightarrow> Inl (Errorf ''unexpected key format: %q'' [key]))"

definition aggregate_ref :: "error list \<Rightarrow> error option" where
  "aggregate_ref es = (if es = [] then None
     else Some (Errorf ''%s'' [Join CHR '','' (map error_text es)]))"

definition ref_lib :: lib where
  "ref_lib = \<lparr>lib_GetScaledValue = scaled_value_ref, lib_SemanticDeepEqual = template_same,
     lib_DumpForHash = pt_Spec, lib_SafeEncodeString = (\<lambda>s. s),
     lib_RoundToInt32 = round_ref, lib_LabelSelectorAsSelector = selector_ref,
     lib_KeyFunc = key_ref, lib_SplitMetaNamespaceKey = split_key_ref, lib_NewAggregate = aggregate_ref,
     lib_TimeString = FormatInt\<rparr>"

lemma ref_lib_key: "key_spec ref_lib"
  by (auto simp: key_spec_def ref_lib_def key_ref_def split_key_ref_def Split_append Split_plain)

lemma ref_lib_aggregate: "aggregate_spec ref_lib"
  by (simp add: aggregate_spec_def ref_lib_def aggregate_ref_def)

end
