(* ===== verification/Rollout_Types.thy ===== *)
theory Rollout_Types
  imports K8s_Objects
begin

text \<open>
  The Rollout resource, \<open>pkg/apis/rollouts/v1alpha1/types_rollout.go\<close>: one \<open>record\<close> per struct, in
  an order that declares each struct before its users. A pointer field is an \<open>option\<close>, the string
  enums stay strings (the API server's validation is not part of the program, so a definition may
  meet any string), with their constants below as abbreviations.
\<close>

section \<open>Matches, references and arguments\<close>

record stringMatch =
  sm_Name :: string
  sm_MatchType :: string
  sm_Value :: string

record routeMatch =
  rm_Headers :: "stringMatch list"
  rm_Cookies :: "stringMatch list"
  rm_QueryParams :: "stringMatch list"

record serviceRef =
  sref_Name :: string

record workloadRef =
  wref_APIVersion :: string
  wref_Kind :: string
  wref_Name :: string
  wref_ScaleDown :: string

record fieldRef =
  fref_FieldPath :: string

record secretKeySelector =
  secret_Name :: string
  secret_Key :: string
  secret_Optional :: "bool option"

record argSource =
  asrc_FieldRef :: "fieldRef option"
  asrc_SecretKeyRef :: "secretKeySelector option"

record analysisArg =
  arg_Name :: string
  arg_Value :: string
  arg_ValueFrom :: "argSource option"

record dryRunMetric =
  dry_MetricName :: string

record templateRef =
  tref_Name :: string
  tref_Kind :: string

record analysisHook =
  hook_When :: string
  hook_AtStep :: string
  hook_TemplateRefs :: "templateRef list"
  hook_Args :: "analysisArg list"
  hook_DryRun :: "dryRunMetric list"
  hook_InconclusivePolicy :: string

section \<open>Steps\<close>

record setWeightStep =
  sw_Weight :: int
  sw_Matches :: "routeMatch list"

record setCanaryScaleStep =
  scs_Replicas :: "int option"
  scs_Percent :: "intOrString option"
  scs_MatchTrafficWeight :: bool

record pauseStep =
  pause_Duration :: "duration option"

record analysisStep =
  as_TemplateRefs :: "templateRef list"
  as_Args :: "analysisArg list"
  as_DryRun :: "dryRunMetric list"
  as_FailurePolicy :: string

record experimentVariant =
  var_Name :: string
  var_Replicas :: int
  var_Template :: "podTemplate option"
  var_Weight :: "int option"

record experimentStep =
  exps_Duration :: "duration option"
  exps_Variants :: "experimentVariant list"
  exps_Analysis :: "analysisHook list"

type_synonym promoteStep = unit

record step =
  step_Name :: string
  step_SetWeight :: "setWeightStep option"
  step_SetCanaryScale :: "setCanaryScaleStep option"
  step_Pause :: "pauseStep option"
  step_Analysis :: "analysisStep option"
  step_Experiment :: "experimentStep option"
  step_Promote :: "promoteStep option"

record progressionSpec =
  prog_Steps :: "step list"
  prog_MaxUnavailable :: "intOrString option"
  prog_MaxSurge :: "intOrString option"
  prog_ScaleDownDelaySeconds :: "int option"

section \<open>Traffic routing configuration\<close>

record managedRoute =
  mr_Name :: string
  mr_Matches :: "routeMatch list"

record istioVirtualServiceRef =
  vsref_Name :: string
  vsref_Routes :: "string list"
  vsref_TLSRoutes :: "string list"
  vsref_TCPRoutes :: "string list"

record istioDestinationRuleRef =
  drref_Name :: string
  drref_CanarySubset :: string
  drref_StableSubset :: string

record istioConfig =
  istio_VirtualServices :: "istioVirtualServiceRef list"
  istio_DestinationRules :: "istioDestinationRuleRef list"

record nginxConfig =
  nginx_Ingresses :: "string list"
  nginx_AnnotationPrefix :: string
  nginx_AdditionalAnnotations :: "smap option"

record albStickiness =
  stick_Enabled :: bool
  stick_DurationSeconds :: int
  stick_Type :: string

record albConfig =
  alb_Ingresses :: "string list"
  alb_ServicePort :: int
  alb_AnnotationPrefix :: string
  alb_Stickiness :: "albStickiness option"

record smiConfig =
  smi_TrafficSplits :: "string list"
  smi_RootService :: string

record traefikConfig =
  traefik_WeightedTraefikServices :: "string list"

record apisixRoute =
  ar_Name :: string
  ar_Rules :: "string list"

record apisixConfig =
  apisix_Routes :: "apisixRoute list"

record trafficRoutingSpec =
  tr_Provider :: string
  tr_VerifyWeight :: string
  tr_ManagedRoutes :: "managedRoute list"
  tr_Istio :: "istioConfig option"
  tr_Nginx :: "nginxConfig option"
  tr_ALB :: "albConfig option"
  tr_SMI :: "smiConfig option"
  tr_Traefik :: "traefikConfig option"
  tr_APISIX :: "apisixConfig option"

record rollbackWindow =
  rw_Revisions :: int

record ephemeralMetadata =
  em_Role :: string
  em_Labels :: "smap option"
  em_Annotations :: "smap option"

section \<open>Spec, status and the resource\<close>

record rolloutSpec =
  spec_Replicas :: "int option"
  spec_Selector :: "labelSelector option"
  spec_Template :: "podTemplate option"
  spec_WorkloadRef :: "workloadRef option"
  spec_StableServices :: "serviceRef list"
  spec_CanaryServices :: "serviceRef list"
  spec_Progression :: progressionSpec
  spec_TrafficRouting :: "trafficRoutingSpec option"
  spec_AutoPromotion :: string
  spec_DynamicStableScale :: string
  spec_HPAStrategy :: string
  spec_Analysis :: "analysisHook list"
  spec_EphemeralMetadata :: "ephemeralMetadata list"
  spec_RestartAt :: "time option"
  spec_RollbackWindow :: "rollbackWindow option"
  spec_ProgressDeadlineSeconds :: "int option"
  spec_RevisionHistoryLimit :: "int option"
  spec_MinReadySeconds :: int
  spec_Paused :: bool
  spec_Abort :: bool

record pauseCondition =
  pc_Reason :: string
  pc_StartTime :: time
  pc_Until :: "time option"
  pc_Message :: string

record analysisRunSummary =
  ars_Name :: string
  ars_AtStep :: string
  ars_Phase :: string
  ars_Message :: string

record rolloutStatus =
  st_ObservedGeneration :: int
  st_Replicas :: int
  st_UpdatedReplicas :: int
  st_ReadyReplicas :: int
  st_AvailableReplicas :: int
  st_Selector :: string
  st_CurrentStep :: string
  st_CurrentStepHash :: string
  st_CurrentPodHash :: string
  st_StableRevision :: string
  st_CurrentRevision :: string
  st_StepStartedAt :: "time option"
  st_Phase :: string
  st_Message :: string
  st_PauseConditions :: "pauseCondition list"
  st_Conditions :: "condition list"
  st_AnalysisRunSummaries :: "analysisRunSummary list"
  st_RestartedAt :: "time option"
  st_CollisionCount :: "int option"
  st_CurrentWeight :: int
  st_DesiredReplicas :: int

record rollout =
  ro_Meta :: objectMeta
  ro_Spec :: rolloutSpec
  ro_Status :: rolloutStatus

abbreviation ro_Name :: "rollout \<Rightarrow> string" where
  "ro_Name ro \<equiv> meta_Name (ro_Meta ro)"

abbreviation ro_Namespace :: "rollout \<Rightarrow> string" where
  "ro_Namespace ro \<equiv> meta_Namespace (ro_Meta ro)"

abbreviation ro_UID :: "rollout \<Rightarrow> string" where
  "ro_UID ro \<equiv> meta_UID (ro_Meta ro)"

abbreviation ro_Generation :: "rollout \<Rightarrow> int" where
  "ro_Generation ro \<equiv> meta_Generation (ro_Meta ro)"

abbreviation ro_Steps :: "rollout \<Rightarrow> step list" where
  "ro_Steps ro \<equiv> prog_Steps (spec_Progression (ro_Spec ro))"

text \<open>Assignments to fields of \<open>ro.Status\<close> and \<open>ro.Spec\<close>.\<close>

definition with_Status :: "(rolloutStatus \<Rightarrow> rolloutStatus) \<Rightarrow> rollout \<Rightarrow> rollout" where
  "with_Status f ro = ro\<lparr>ro_Status := f (ro_Status ro)\<rparr>"

definition with_Spec :: "(rolloutSpec \<Rightarrow> rolloutSpec) \<Rightarrow> rollout \<Rightarrow> rollout" where
  "with_Spec f ro = ro\<lparr>ro_Spec := f (ro_Spec ro)\<rparr>"

lemma with_Status_sel [simp]:
  "ro_Status (with_Status f ro) = f (ro_Status ro)"
  "ro_Spec (with_Status f ro) = ro_Spec ro"
  "ro_Meta (with_Status f ro) = ro_Meta ro"
  by (simp_all add: with_Status_def)

lemma with_Spec_sel [simp]:
  "ro_Spec (with_Spec f ro) = f (ro_Spec ro)"
  "ro_Status (with_Spec f ro) = ro_Status ro"
  "ro_Meta (with_Spec f ro) = ro_Meta ro"
  by (simp_all add: with_Spec_def)

section \<open>Enumerations\<close>

abbreviation AutoPromotionEnabled :: string where "AutoPromotionEnabled \<equiv> ''Enabled''"
abbreviation AutoPromotionManual :: string where "AutoPromotionManual \<equiv> ''Manual''"
abbreviation AutoPromotionDisabled :: string where "AutoPromotionDisabled \<equiv> ''Disabled''"
abbreviation DynamicStableScaleOff :: string where "DynamicStableScaleOff \<equiv> ''Off''"
abbreviation HPAStrategyPreserve :: string where "HPAStrategyPreserve \<equiv> ''Preserve''"
abbreviation HPAStrategyStableOnly :: string where "HPAStrategyStableOnly \<equiv> ''StableOnly''"
abbreviation HPAStrategyDisabled :: string where "HPAStrategyDisabled \<equiv> ''Disabled''"

abbreviation PhasePending :: string where "PhasePending \<equiv> ''Pending''"
abbreviation PhaseProgressing :: string where "PhaseProgressing \<equiv> ''Progressing''"
abbreviation PhasePaused :: string where "PhasePaused \<equiv> ''Paused''"
abbreviation PhasePromoting :: string where "PhasePromoting \<equiv> ''Promoting''"
abbreviation PhaseHealthy :: string where "PhaseHealthy \<equiv> ''Healthy''"
abbreviation PhaseDegraded :: string where "PhaseDegraded \<equiv> ''Degraded''"
abbreviation PhaseAborted :: string where "PhaseAborted \<equiv> ''Aborted''"

abbreviation PauseReasonPausedStep :: string where "PauseReasonPausedStep \<equiv> ''PausedStep''"
abbreviation PauseReasonAnalysisInconclusive :: string where
  "PauseReasonAnalysisInconclusive \<equiv> ''AnalysisInconclusive''"
abbreviation PauseReasonAnalysisFailed :: string where "PauseReasonAnalysisFailed \<equiv> ''AnalysisFailed''"
abbreviation PauseReasonAwaitingPromotion :: string where
  "PauseReasonAwaitingPromotion \<equiv> ''AwaitingPromotion''"

text \<open>\<open>SchemeGroupVersion.String()\<close> of \<open>register.go\<close>.\<close>

abbreviation SchemeGroupVersion :: string where
  "SchemeGroupVersion \<equiv> ''rollouts.io/v1alpha1''"

section \<open>Concrete objects for evaluation\<close>

definition meta0 :: "string \<Rightarrow> string \<Rightarrow> objectMeta" where
  "meta0 name uid = \<lparr>meta_Name = name, meta_Namespace = ''prod'', meta_UID = uid,
     meta_ResourceVersion = ''1'', meta_Generation = 1, meta_CreationTimestamp = 0,
     meta_DeletionTimestamp = None, meta_Labels = [], meta_Annotations = None,
     meta_OwnerReferences = []\<rparr>"

definition step0 :: "string \<Rightarrow> step" where
  "step0 name = \<lparr>step_Name = name, step_SetWeight = None, step_SetCanaryScale = None,
     step_Pause = None, step_Analysis = None, step_Experiment = None, step_Promote = None\<rparr>"

definition status0 :: rolloutStatus where
  "status0 = \<lparr>st_ObservedGeneration = 0, st_Replicas = 0, st_UpdatedReplicas = 0, st_ReadyReplicas = 0,
     st_AvailableReplicas = 0, st_Selector = [], st_CurrentStep = [], st_CurrentStepHash = [],
     st_CurrentPodHash = [], st_StableRevision = [], st_CurrentRevision = [], st_StepStartedAt = None,
     st_Phase = [], st_Message = [], st_PauseConditions = [], st_Conditions = [],
     st_AnalysisRunSummaries = [], st_RestartedAt = None, st_CollisionCount = None,
     st_CurrentWeight = 0, st_DesiredReplicas = 0\<rparr>"

definition spec0 :: "step list \<Rightarrow> rolloutSpec" where
  "spec0 steps = \<lparr>spec_Replicas = Some 10, spec_Selector = Some \<lparr>sel_MatchLabels = [(''app'', ''web'')],
       sel_MatchExpressions = []\<rparr>,
     spec_Template = Some \<lparr>pt_Labels = [(''app'', ''web'')], pt_Meta = [], pt_Spec = ''image:v2''\<rparr>,
     spec_WorkloadRef = None, spec_StableServices = [], spec_CanaryServices = [],
     spec_Progression = \<lparr>prog_Steps = steps, prog_MaxUnavailable = None, prog_MaxSurge = None,
       prog_ScaleDownDelaySeconds = None\<rparr>,
     spec_TrafficRouting = None, spec_AutoPromotion = [], spec_DynamicStableScale = [],
     spec_HPAStrategy = [], spec_Analysis = [], spec_EphemeralMetadata = [], spec_RestartAt = None,
     spec_RollbackWindow = None, spec_ProgressDeadlineSeconds = None, spec_RevisionHistoryLimit = None,
     spec_MinReadySeconds = 0, spec_Paused = False, spec_Abort = False\<rparr>"

definition rollout0 :: "step list \<Rightarrow> rollout" where
  "rollout0 steps = \<lparr>ro_Meta = meta0 ''web'' ''uid-1'', ro_Spec = spec0 steps, ro_Status = status0\<rparr>"

definition rs0 :: "string \<Rightarrow> int \<Rightarrow> replicaSet" where
  "rs0 hash n = \<lparr>rs_Meta = (meta0 (''web-'' @ hash) (''uid-'' @ hash))
       \<lparr>meta_Labels := [(''app'', ''web''), (''pod-template-hash'', hash)]\<rparr>,
     rs_Replicas = Some n, rs_MinReadySeconds = 0, rs_Selector = None,
     rs_Template = \<lparr>pt_Labels = [(''app'', ''web''), (''pod-template-hash'', hash)], pt_Meta = [],
       pt_Spec = ''image:'' @ hash\<rparr>,
     rs_StatusReplicas = n, rs_ReadyReplicas = n, rs_AvailableReplicas = n, rs_ObservedGeneration = 1,
     rs_Conditions = []\<rparr>"

lemmas rollout0_defs = meta0_def step0_def status0_def spec0_def rollout0_def rs0_def

end
