(* ===== verification/Analysis_Types.thy ===== *)
theory Analysis_Types
  imports Rollout_Types
begin

text \<open>
  The analysis and experiment resources, \<open>types_analysis.go\<close> and \<open>types_experiment.go\<close>. The two
  template kinds have the same shape, so one record serves both; which one a reference names is
  decided by its kind, and the two are read through different requests.
\<close>

section \<open>Metric providers\<close>

record prometheusRange =
  prange_Start :: duration
  prange_End :: duration
  prange_Step :: duration

record prometheusProvider =
  prom_Address :: string
  prom_Query :: string
  prom_Timeout :: "duration option"
  prom_Headers :: "envVar list"
  prom_Range :: "prometheusRange option"

record datadogProvider =
  dd_APIVersion :: string
  dd_Interval :: "duration option"
  dd_Query :: string
  dd_Queries :: "smap option"
  dd_Formula :: string

record newRelicProvider =
  nr_Profile :: string
  nr_Query :: string

record wavefrontProvider =
  wf_Address :: string
  wf_Query :: string

record cloudWatchMetricDimension =
  cwd_Name :: string
  cwd_Value :: string

record cloudWatchMetric =
  cwm_Namespace :: string
  cwm_MetricName :: string
  cwm_Dimensions :: "cloudWatchMetricDimension list"

record cloudWatchMetricStat =
  cws_Metric :: cloudWatchMetric
  cws_Period :: int
  cws_Stat :: string
  cws_Unit :: string

record cloudWatchMetricQuery =
  cwq_ID :: string
  cwq_Expression :: string
  cwq_Label :: string
  cwq_MetricStat :: "cloudWatchMetricStat option"
  cwq_Period :: "int option"
  cwq_ReturnData :: "bool option"

record cloudWatchProvider =
  cw_Interval :: "duration option"
  cw_MetricDataQueries :: "cloudWatchMetricQuery list"

record kayentaThreshold =
  kt_Pass :: int
  kt_Marginal :: int

record kayentaScopeDetail =
  ksd_Scope :: string
  ksd_Region :: string
  ksd_Step :: int
  ksd_Start :: string
  ksd_End :: string

record kayentaScope =
  ks_Name :: string
  ks_ControlScope :: kayentaScopeDetail
  ks_ExperimentScope :: kayentaScopeDetail

record kayentaProvider =
  kay_Address :: string
  kay_Application :: string
  kay_CanaryConfigName :: string
  kay_MetricsAccountName :: string
  kay_ConfigurationAccountName :: string
  kay_StorageAccountName :: string
  kay_Threshold :: kayentaThreshold
  kay_Scopes :: "kayentaScope list"

record webProvider =
  web_URL :: string
  web_Method :: string
  web_Headers :: "envVar list"
  web_Body :: string
  web_JSONPath :: string
  web_Timeout :: "duration option"
  web_InsecureSkipTLSVerify :: bool

record jobSpec =
  js_BackoffLimit :: "int option"
  js_Template :: podTemplate

record jobProvider =
  job_Metadata :: "objectMeta option"
  job_Spec :: jobSpec

record metricProvider =
  mp_Type :: string
  mp_Prometheus :: "prometheusProvider option"
  mp_Datadog :: "datadogProvider option"
  mp_NewRelic :: "newRelicProvider option"
  mp_Wavefront :: "wavefrontProvider option"
  mp_CloudWatch :: "cloudWatchProvider option"
  mp_Kayenta :: "kayentaProvider option"
  mp_Web :: "webProvider option"
  mp_Job :: "jobProvider option"

section \<open>Templates and runs\<close>

record metric =
  met_Name :: string
  met_Interval :: "duration option"
  met_InitialDelay :: "duration option"
  met_Count :: "intOrString option"
  met_ConsecutiveErrorLimit :: "intOrString option"
  met_SuccessCondition :: string
  met_FailureCondition :: string
  met_FailureLimit :: "intOrString option"
  met_Provider :: metricProvider

record analysisTemplateSpec =
  ats_Metrics :: "metric list"
  ats_Args :: "analysisArg list"
  ats_DryRun :: "dryRunMetric list"
  ats_InconclusivePolicy :: string

record analysisTemplate =
  at_Meta :: objectMeta
  at_Spec :: analysisTemplateSpec

record measurement =
  meas_StartedAt :: time
  meas_FinishedAt :: time
  meas_Phase :: string
  meas_Value :: string
  meas_Message :: string

record metricResult =
  mres_Name :: string
  mres_Phase :: string
  mres_Measurements :: "measurement list"
  mres_Count :: int
  mres_Successful :: int
  mres_Failed :: int
  mres_Inconclusive :: int
  mres_Error :: int
  mres_Message :: string

record analysisRunSpec =
  arspec_Metrics :: "metric list"
  arspec_Args :: "analysisArg list"
  arspec_DryRun :: "dryRunMetric list"
  arspec_Terminate :: bool

record analysisRunStatus =
  arst_Phase :: string
  arst_Message :: string
  arst_StartedAt :: "time option"
  arst_CompletedAt :: "time option"
  arst_MetricResults :: "metricResult list"

record analysisRun =
  run_Meta :: objectMeta
  run_Spec :: analysisRunSpec
  run_Status :: analysisRunStatus

abbreviation run_Name :: "analysisRun \<Rightarrow> string" where
  "run_Name r \<equiv> meta_Name (run_Meta r)"

abbreviation run_Phase :: "analysisRun \<Rightarrow> string" where
  "run_Phase r \<equiv> arst_Phase (run_Status r)"

section \<open>Experiments\<close>

record experimentSpec =
  xspec_Duration :: "duration option"
  xspec_Variants :: "experimentVariant list"
  xspec_Analysis :: "analysisHook list"
  xspec_TerminationPolicy :: string

record experimentVariantStatus =
  xvs_Name :: string
  xvs_ReplicaSetName :: string
  xvs_ReadyReplicas :: int
  xvs_AvailableReplicas :: int
  xvs_Phase :: string
  xvs_Message :: string

record experimentStatus =
  xst_Phase :: string
  xst_Message :: string
  xst_VariantStatuses :: "experimentVariantStatus list"
  xst_Conditions :: "condition list"
  xst_StartedAt :: "time option"
  xst_CompletedAt :: "time option"

record experimentCR =
  exp_Meta :: objectMeta
  exp_Spec :: experimentSpec
  exp_Status :: experimentStatus

section \<open>Concrete objects for evaluation\<close>

definition provider0 :: metricProvider where
  "provider0 = \<lparr>mp_Type = ''prometheus'', mp_Prometheus = None, mp_Datadog = None, mp_NewRelic = None,
     mp_Wavefront = None, mp_CloudWatch = None, mp_Kayenta = None, mp_Web = None, mp_Job = None\<rparr>"

definition metric0 :: "string \<Rightarrow> metric" where
  "metric0 name = \<lparr>met_Name = name, met_Interval = None, met_InitialDelay = None, met_Count = None,
     met_ConsecutiveErrorLimit = None, met_SuccessCondition = [], met_FailureCondition = [],
     met_FailureLimit = None, met_Provider = provider0\<rparr>"

definition run0 :: "string \<Rightarrow> metric list \<Rightarrow> analysisRun" where
  "run0 name ms = \<lparr>run_Meta = meta0 name ''uid-run'',
     run_Spec = \<lparr>arspec_Metrics = ms, arspec_Args = [], arspec_DryRun = [], arspec_Terminate = False\<rparr>,
     run_Status = \<lparr>arst_Phase = [], arst_Message = [], arst_StartedAt = None, arst_CompletedAt = None,
       arst_MetricResults = []\<rparr>\<rparr>"

lemmas run0_defs = provider0_def metric0_def run0_def

end
