(* ===== verification/Cluster.thy ===== *)
theory Cluster
  imports Analysis_Types
begin

text \<open>
  The cluster the controllers talk to. The API server, the metrics backends and the clock are a
  parameter: a record \<open>env\<close> of operations over an arbitrary server state, each of which may fail
  with any error. Every call goes through one of the functions below, which appends the request
  and whether it succeeded to the history of the world, so a theorem about the order of requests
  holds for every server. A status update of the client decodes the server's answer into the
  object that was passed; the sources pass a copy and never read it again, so these calls return
  nothing. An event is recorded in the history only: an event recorder does not report failures.
\<close>

section \<open>Owner patches\<close>

text \<open>
  The bodies of the two patches of \<open>controller_ref_manager.go\<close>, which give a ReplicaSet a controller or
  take it away. The source sends their JSON text; \<open>json.Marshal\<close> cannot fail on these structs, and a patch is
  the value its text stands for.
\<close>

record objectMetaForPatch =
  omfp_OwnerReferences :: "ownerReference list"
  omfp_UID :: string
  omfp_Finalizers :: "string list"

record objectForAddOwnerRefPatch =
  add_Metadata :: objectMetaForPatch

record objectMetaForMergePatch =
  omfm_UID :: string
  omfm_OwnerReferences :: "smap list"
  omfm_DeleteFinalizers :: "string list"

record objectForDeleteOwnerRefStrategicMergePatch =
  del_Metadata :: objectMetaForMergePatch

datatype ownerPatch =
    AddOwnerRef objectForAddOwnerRefPatch
  | DeleteOwnerRef objectForDeleteOwnerRefStrategicMergePatch

section \<open>The operations of the cluster\<close>

record 'w env =
  api_GetRollout :: "string \<Rightarrow> string \<Rightarrow> ('w, rollout) eff"
  api_UpdateRollout :: "rollout \<Rightarrow> ('w, unit) eff"
  api_UpdateRolloutStatus :: "rollout \<Rightarrow> ('w, unit) eff"
  api_GetAnalysisRun :: "string \<Rightarrow> string \<Rightarrow> ('w, analysisRun) eff"
  api_CreateAnalysisRun :: "analysisRun \<Rightarrow> ('w, analysisRun) eff"
  api_UpdateAnalysisRunStatus :: "analysisRun \<Rightarrow> ('w, unit) eff"
  api_GetAnalysisTemplate :: "string \<Rightarrow> string \<Rightarrow> ('w, analysisTemplate) eff"
  api_GetClusterAnalysisTemplate :: "string \<Rightarrow> ('w, analysisTemplate) eff"
  api_GetExperiment :: "string \<Rightarrow> string \<Rightarrow> ('w, experimentCR) eff"
  api_UpdateExperimentStatus :: "experimentCR \<Rightarrow> ('w, unit) eff"
  api_ListReplicaSets :: "string \<Rightarrow> string \<Rightarrow> ('w, replicaSet list) eff"
  api_GetReplicaSet :: "string \<Rightarrow> string \<Rightarrow> ('w, replicaSet) eff"
  api_CreateReplicaSet :: "string \<Rightarrow> replicaSet \<Rightarrow> ('w, replicaSet) eff"
  api_UpdateReplicaSet :: "string \<Rightarrow> replicaSet \<Rightarrow> ('w, replicaSet) eff"
  api_DeleteReplicaSet :: "string \<Rightarrow> string \<Rightarrow> ('w, unit) eff"
  api_PatchReplicaSet :: "string \<Rightarrow> string \<Rightarrow> ownerPatch \<Rightarrow> ('w, unit) eff"
  api_GetDeployment :: "string \<Rightarrow> string \<Rightarrow> ('w, deployment) eff"
  api_UpdateDeployment :: "string \<Rightarrow> deployment \<Rightarrow> ('w, unit) eff"
  api_UpdateDeploymentStatus :: "string \<Rightarrow> deployment \<Rightarrow> ('w, unit) eff"
  api_GetService :: "string \<Rightarrow> string \<Rightarrow> ('w, service) eff"
  api_UpdateService :: "string \<Rightarrow> service \<Rightarrow> ('w, unit) eff"
  clock_Now :: "'w \<Rightarrow> time \<times> 'w"

text \<open>
  The plugin interface of \<open>pkg/trafficrouting/plugin.go\<close>: the operations a router offers. What an
  implementation does to the mesh is part of the server state.
\<close>

record 'w plugin =
  plug_Type :: string
  plug_SetWeight :: "rollout \<Rightarrow> int \<Rightarrow> ('w, unit) eff"
  plug_SetHeaderRoute :: "rollout \<Rightarrow> routeMatch list \<Rightarrow> ('w, unit) eff"
  plug_VerifyWeight :: "rollout \<Rightarrow> int \<Rightarrow> ('w, bool) eff"
  plug_UpdateHosts :: "rollout \<Rightarrow> string \<Rightarrow> string \<Rightarrow> ('w, unit) eff"
  plug_RemoveManagedRoutes :: "rollout \<Rightarrow> ('w, unit) eff"

datatype request =
    GetRollout string string
  | UpdateRollout rollout
  | UpdateRolloutStatus rollout
  | GetAnalysisRun string string
  | CreateAnalysisRun analysisRun
  | UpdateAnalysisRunStatus analysisRun
  | GetAnalysisTemplate string string
  | GetClusterAnalysisTemplate string
  | GetExperiment string string
  | UpdateExperimentStatus experimentCR
  | ListReplicaSets string string
  | GetReplicaSet string string
  | CreateReplicaSet string replicaSet
  | UpdateReplicaSet string replicaSet
  | DeleteReplicaSet string string
  | PatchReplicaSet string string ownerPatch
  | GetDeployment string string
  | UpdateDeployment string deployment
  | UpdateDeploymentStatus string deployment
  | GetService string string
  | UpdateService string service
  | RouterSetWeight int
  | RouterVerifyWeight int
  | MetricQuery "prometheusProvider option"
  | Event string string string
  | QueueAdd string
  | QueueAddRateLimited string
  | QueueAddAfter string duration
  | QueueForget string
  | QueueDone string

fun is_read :: "request \<Rightarrow> bool" where
  "is_read (GetRollout _ _) = True"
| "is_read (GetAnalysisRun _ _) = True"
| "is_read (GetAnalysisTemplate _ _) = True"
| "is_read (GetClusterAnalysisTemplate _) = True"
| "is_read (GetExperiment _ _) = True"
| "is_read (ListReplicaSets _ _) = True"
| "is_read (GetReplicaSet _ _) = True"
| "is_read (GetDeployment _ _) = True"
| "is_read (GetService _ _) = True"
| "is_read (RouterVerifyWeight _) = True"
| "is_read (MetricQuery _) = True"
| "is_read _ = False"

type_synonym ('w, 'a) io = "(('w, request) world, 'a) eff"

section \<open>The calls\<close>

definition getRollout :: "'w env \<Rightarrow> string \<Rightarrow> string \<Rightarrow> ('w, rollout) io" where
  "getRollout V ns name = callE (GetRollout ns name) (api_GetRollout V ns name)"

definition updateRollout :: "'w env \<Rightarrow> rollout \<Rightarrow> ('w, unit) io" where
  "updateRollout V ro = callE (UpdateRollout ro) (api_UpdateRollout V ro)"

definition updateRolloutStatus :: "'w env \<Rightarrow> rollout \<Rightarrow> ('w, unit) io" where
  "updateRolloutStatus V ro = callE (UpdateRolloutStatus ro) (api_UpdateRolloutStatus V ro)"

definition getAnalysisRun :: "'w env \<Rightarrow> string \<Rightarrow> string \<Rightarrow> ('w, analysisRun) io" where
  "getAnalysisRun V ns name = callE (GetAnalysisRun ns name) (api_GetAnalysisRun V ns name)"

definition createAnalysisRun :: "'w env \<Rightarrow> analysisRun \<Rightarrow> ('w, analysisRun) io" where
  "createAnalysisRun V r = callE (CreateAnalysisRun r) (api_CreateAnalysisRun V r)"

definition updateAnalysisRunStatus :: "'w env \<Rightarrow> analysisRun \<Rightarrow> ('w, unit) io" where
  "updateAnalysisRunStatus V r = callE (UpdateAnalysisRunStatus r) (api_UpdateAnalysisRunStatus V r)"

definition getAnalysisTemplate :: "'w env \<Rightarrow> string \<Rightarrow> string \<Rightarrow> ('w, analysisTemplate) io" where
  "getAnalysisTemplate V ns name =
     callE (GetAnalysisTemplate ns name) (api_GetAnalysisTemplate V ns name)"

definition getClusterAnalysisTemplate :: "'w env \<Rightarrow> string \<Rightarrow> ('w, analysisTemplate) io" where
  "getClusterAnalysisTemplate V name =
     callE (GetClusterAnalysisTemplate name) (api_GetClusterAnalysisTemplate V name)"

definition getExperiment :: "'w env \<Rightarrow> string \<Rightarrow> string \<Rightarrow> ('w, experimentCR) io" where
  "getExperiment V ns name = callE (GetExperiment ns name) (api_GetExperiment V ns name)"

definition updateExperimentStatus :: "'w env \<Rightarrow> experimentCR \<Rightarrow> ('w, unit) io" where
  "updateExperimentStatus V x = callE (UpdateExperimentStatus x) (api_UpdateExperimentStatus V x)"

definition apiListReplicaSets :: "'w env \<Rightarrow> string \<Rightarrow> string \<Rightarrow> ('w, replicaSet list) io" where
  "apiListReplicaSets V ns sel = callE (ListReplicaSets ns sel) (api_ListReplicaSets V ns sel)"

definition getReplicaSet :: "'w env \<Rightarrow> string \<Rightarrow> string \<Rightarrow> ('w, replicaSet) io" where
  "getReplicaSet V ns name = callE (GetReplicaSet ns name) (api_GetReplicaSet V ns name)"

definition createReplicaSet :: "'w env \<Rightarrow> string \<Rightarrow> replicaSet \<Rightarrow> ('w, replicaSet) io" where
  "createReplicaSet V ns rs = callE (CreateReplicaSet ns rs) (api_CreateReplicaSet V ns rs)"

definition updateReplicaSet :: "'w env \<Rightarrow> string \<Rightarrow> replicaSet \<Rightarrow> ('w, replicaSet) io" where
  "updateReplicaSet V ns rs = callE (UpdateReplicaSet ns rs) (api_UpdateReplicaSet V ns rs)"

definition deleteReplicaSet :: "'w env \<Rightarrow> string \<Rightarrow> string \<Rightarrow> ('w, unit) io" where
  "deleteReplicaSet V ns name = callE (DeleteReplicaSet ns name) (api_DeleteReplicaSet V ns name)"

definition patchReplicaSet :: "'w env \<Rightarrow> string \<Rightarrow> string \<Rightarrow> ownerPatch \<Rightarrow> ('w, unit) io" where
  "patchReplicaSet V ns name patch =
     callE (PatchReplicaSet ns name patch) (api_PatchReplicaSet V ns name patch)"

definition getDeployment :: "'w env \<Rightarrow> string \<Rightarrow> string \<Rightarrow> ('w, deployment) io" where
  "getDeployment V ns name = callE (GetDeployment ns name) (api_GetDeployment V ns name)"

definition updateDeployment :: "'w env \<Rightarrow> string \<Rightarrow> deployment \<Rightarrow> ('w, unit) io" where
  "updateDeployment V ns d = callE (UpdateDeployment ns d) (api_UpdateDeployment V ns d)"

definition updateDeploymentStatus :: "'w env \<Rightarrow> string \<Rightarrow> deployment \<Rightarrow> ('w, unit) io" where
  "updateDeploymentStatus V ns d =
     callE (UpdateDeploymentStatus ns d) (api_UpdateDeploymentStatus V ns d)"

definition getService :: "'w env \<Rightarrow> string \<Rightarrow> string \<Rightarrow> ('w, service) io" where
  "getService V ns name = callE (GetService ns name) (api_GetService V ns name)"

definition updateService :: "'w env \<Rightarrow> string \<Rightarrow> service \<Rightarrow> ('w, unit) io" where
  "updateService V ns s = callE (UpdateService ns s) (api_UpdateService V ns s)"

definition setWeight :: "'w plugin \<Rightarrow> rollout \<Rightarrow> int \<Rightarrow> ('w, unit) io" where
  "setWeight P ro w = callE (RouterSetWeight w) (plug_SetWeight P ro w)"

definition verifyWeight :: "'w plugin \<Rightarrow> rollout \<Rightarrow> int \<Rightarrow> ('w, bool) io" where
  "verifyWeight P ro w = callE (RouterVerifyWeight w) (plug_VerifyWeight P ro w)"

definition eventf :: "string \<Rightarrow> string \<Rightarrow> string \<Rightarrow> ('w, unit) io" where
  "eventf typ reason msg = callE (Event typ reason msg) (returnE ())"

definition timeNow :: "'w env \<Rightarrow> ('w, time) io" where
  "timeNow V = silentE (\<lambda>v. case clock_Now V v of (t, v') \<Rightarrow> (Inr t, v'))"

text \<open>The writes to the work queue of the Deployment controller; its methods report no errors.\<close>

definition queueWrite :: "request \<Rightarrow> ('w, unit) io" where
  "queueWrite r = callE r (returnE ())"

lemmas call_defs = getRollout_def updateRollout_def updateRolloutStatus_def getAnalysisRun_def
  createAnalysisRun_def updateAnalysisRunStatus_def getAnalysisTemplate_def
  getClusterAnalysisTemplate_def getExperiment_def updateExperimentStatus_def
  apiListReplicaSets_def getReplicaSet_def createReplicaSet_def updateReplicaSet_def
  deleteReplicaSet_def patchReplicaSet_def getDeployment_def queueWrite_def updateDeployment_def updateDeploymentStatus_def getService_def
  updateService_def setWeight_def verifyWeight_def eventf_def timeNow_def

section \<open>What every program does to the history\<close>

text \<open>
  \<open>emits P m\<close>: \<open>m\<close> only appends to the history, and every request it appends satisfies
  \<open>P\<close>. It passes through the combinators; the frame conditions of the components are instances.
\<close>

definition emits :: "(request \<Rightarrow> bool) \<Rightarrow> ('w, 'a) io \<Rightarrow> bool" where
  "emits P m \<longleftrightarrow> (\<forall>s. \<exists>h. hist (snd (m s)) = hist s @ h \<and> list_all (\<lambda>(r, ok). P r) h)"

named_theorems emits_intros \<open>closure of emits under the combinators\<close>

lemma emitsI:
  "(\<And>s. \<exists>h. hist (snd (m s)) = hist s @ h \<and> list_all (\<lambda>(r, ok). P r) h) \<Longrightarrow> emits P m"
  by (simp add: emits_def)

lemma emitsE:
  assumes "emits P m"
  obtains h where "hist (snd (m s)) = hist s @ h" and "list_all (\<lambda>(r, ok). P r) h"
  using assms by (auto simp: emits_def)

lemma emits_returnE [emits_intros]: "emits P (returnE x)"
  by (simp add: emits_def returnE_def)

lemma emits_failE [emits_intros]: "emits P (failE e)"
  by (simp add: emits_def failE_def)

lemma emits_liftE [emits_intros]: "emits P (liftE r)"
  by (simp add: emits_def liftE_def)

lemma emits_callE [emits_intros]: "P r \<Longrightarrow> emits P (callE r op)"
  by (auto simp: emits_def callE_def split: prod.splits)

lemma emits_silentE [emits_intros]: "emits P (silentE op)"
  by (auto simp: emits_def silentE_def split: prod.splits)

lemma emits_bindE [emits_intros]:
  assumes m: "emits P m" and f: "\<And>x. emits P (f x)"
  shows "emits P (bindE m f)"
proof (rule emitsI)
  fix s
  obtain r s' where ms: "m s = (r, s')" by fastforce
  obtain h where h: "hist s' = hist s @ h" "list_all (\<lambda>(r, ok). P r) h"
    using m ms by (metis emitsE snd_conv)
  show "\<exists>h. hist (snd (bindE m f s)) = hist s @ h \<and> list_all (\<lambda>(r, ok). P r) h"
  proof (cases r)
    case (Inl e)
    with ms h show ?thesis by (auto simp: bindE_def)
  next
    case (Inr x)
    obtain h' where "hist (snd (f x s')) = hist s' @ h'" "list_all (\<lambda>(r, ok). P r) h'"
      using f by (metis emitsE)
    with ms h Inr have "hist (snd (bindE m f s)) = hist s @ (h @ h')"
        "list_all (\<lambda>(r, ok). P r) (h @ h')"
      by (auto simp: bindE_def)
    then show ?thesis by blast
  qed
qed

lemma emits_bind_liftE:
  "(\<And>x. r = Inr x \<Longrightarrow> emits P (f x)) \<Longrightarrow> emits P (bindE (liftE r) f)"
  by (cases r) (auto simp: emits_def bindE_def liftE_def)

lemma snd_tryE: "snd (tryE m s) = snd (m s)"
  by (auto simp: tryE_def split: prod.splits sum.splits)

lemma snd_wrapE: "snd (wrapE f as m s) = snd (m s)"
  by (auto simp: wrapE_def split: prod.splits sum.splits)

lemma emits_tryE [emits_intros]: "emits P m \<Longrightarrow> emits P (tryE m)"
  by (simp add: emits_def snd_tryE)

lemma emits_wrapE [emits_intros]: "emits P m \<Longrightarrow> emits P (wrapE f as m)"
  by (simp add: emits_def snd_wrapE)

lemma emits_forE [emits_intros]: "(\<And>x. x \<in> set xs \<Longrightarrow> emits P (f x)) \<Longrightarrow> emits P (forE xs f)"
  by (induction xs) (auto intro!: emits_intros)

lemma emits_if [emits_intros]:
  "(b \<Longrightarrow> emits P m) \<Longrightarrow> (\<not> b \<Longrightarrow> emits P n) \<Longrightarrow> emits P (if b then m else n)"
  by simp

lemma emits_option [emits_intros]:
  "(p = None \<Longrightarrow> emits P m) \<Longrightarrow> (\<And>x. p = Some x \<Longrightarrow> emits P (f x)) \<Longrightarrow>
   emits P (case p of None \<Rightarrow> m | Some x \<Rightarrow> f x)"
  by (cases p) auto

lemma emits_sum [emits_intros]:
  "(\<And>e. r = Inl e \<Longrightarrow> emits P (g e)) \<Longrightarrow> (\<And>x. r = Inr x \<Longrightarrow> emits P (f x)) \<Longrightarrow>
   emits P (case r of Inl e \<Rightarrow> g e | Inr x \<Rightarrow> f x)"
  by (cases r) auto

lemma emits_prod [emits_intros]:
  "(\<And>a b. p = (a, b) \<Longrightarrow> emits P (f a b)) \<Longrightarrow> emits P (case p of (a, b) \<Rightarrow> f a b)"
  by (cases p) auto

lemma emits_mono: "emits P m \<Longrightarrow> (\<And>r. P r \<Longrightarrow> Q r) \<Longrightarrow> emits Q m"
  unfolding emits_def list_all_iff by fast

text \<open>The requests appended between two states.\<close>

definition new_requests :: "('w, request) world \<Rightarrow> ('w, request) world \<Rightarrow> (request \<times> bool) list" where
  "new_requests s s' = drop (length (hist s)) (hist s')"

lemma new_requests_append: "hist s' = hist s @ h \<Longrightarrow> new_requests s s' = h"
  by (simp add: new_requests_def)

lemma emits_new_requests:
  assumes "emits P m"
  shows "hist (snd (m s)) = hist s @ new_requests s (snd (m s))"
    and "(r, ok) \<in> set (new_requests s (snd (m s))) \<Longrightarrow> P r"
proof -
  obtain h where h: "hist (snd (m s)) = hist s @ h" "list_all (\<lambda>(r, ok). P r) h"
    using assms by (rule emitsE)
  then show "hist (snd (m s)) = hist s @ new_requests s (snd (m s))"
    by (simp add: new_requests_append)
  show "(r, ok) \<in> set (new_requests s (snd (m s))) \<Longrightarrow> P r"
    using h by (auto simp: new_requests_append list_all_iff)
qed

section \<open>Orders of requests\<close>

text \<open>
  \<open>after A B h\<close>: every entry of \<open>h\<close> that satisfies \<open>B\<close> comes after one that satisfies \<open>A\<close>. It is
  decided by one pass over the history; \<open>after_iff\<close> is the reading with splits of the history.
\<close>

fun after :: "('a \<Rightarrow> bool) \<Rightarrow> ('a \<Rightarrow> bool) \<Rightarrow> 'a list \<Rightarrow> bool" where
  "after A B [] = True"
| "after A B (x # h) = (\<not> B x \<and> (A x \<or> after A B h))"

lemma after_iff: "after A B h \<longleftrightarrow> (\<forall>h1 x h2. h = h1 @ x # h2 \<longrightarrow> B x \<longrightarrow> (\<exists>a \<in> set h1. A a))"
proof (induction h)
  case (Cons y h)
  show ?case
  proof
    assume a: "after A B (y # h)"
    show "\<forall>h1 x h2. y # h = h1 @ x # h2 \<longrightarrow> B x \<longrightarrow> (\<exists>a \<in> set h1. A a)"
    proof (intro allI impI)
      fix h1 x h2
      assume eq: "y # h = h1 @ x # h2" and "B x"
      with a obtain h1' where "h1 = y # h1'" by (cases h1) auto
      with eq a \<open>B x\<close> Cons.IH show "\<exists>a \<in> set h1. A a" by auto
    qed
  next
    assume r: "\<forall>h1 x h2. y # h = h1 @ x # h2 \<longrightarrow> B x \<longrightarrow> (\<exists>a \<in> set h1. A a)"
    then have "\<not> B y" by (metis append_Nil empty_iff empty_set)
    moreover have "A y \<or> after A B h"
    proof (rule disjCI)
      assume not: "\<not> after A B h"
      then obtain h1 x h2 where "h = h1 @ x # h2" "B x" "\<not> (\<exists>a \<in> set h1. A a)"
        using Cons.IH by blast
      with r [rule_format, of "y # h1" x h2] show "A y" by auto
    qed
    ultimately show "after A B (y # h)" by simp
  qed
qed simp

lemma after_append: "after A B (h @ g) \<longleftrightarrow> after A B h \<and> ((\<exists>a \<in> set h. A a) \<or> after A B g)"
  by (induction h) auto

lemma after_snoc: "after A B (h @ [x]) \<longleftrightarrow> after A B h \<and> (B x \<longrightarrow> (\<exists>a \<in> set h. A a))"
  by (auto simp: after_append)

text \<open>
  \<open>runs m s Q\<close>: whatever \<open>m\<close> does from \<open>s\<close>, its result and the requests it added satisfy \<open>Q\<close>.
\<close>

definition runs :: "('w, 'a) io \<Rightarrow> ('w, request) world \<Rightarrow> (error + 'a \<Rightarrow> (request \<times> bool) list \<Rightarrow> bool) \<Rightarrow> bool" where
  "runs m s Q \<longleftrightarrow> wp m (\<lambda>x s'. \<exists>h. hist s' = hist s @ h \<and> Q (Inr x) h)
     (\<lambda>e s'. \<exists>h. hist s' = hist s @ h \<and> Q (Inl e) h) s"

text \<open>
  The rules run a program forwards: \<open>runs_at m h0 s Q\<close> is \<open>runs\<close> with the requests \<open>h0\<close> already sent.
\<close>

definition runs_at :: "('w, 'a) io \<Rightarrow> (request \<times> bool) list \<Rightarrow> ('w, request) world \<Rightarrow>
    (error + 'a \<Rightarrow> (request \<times> bool) list \<Rightarrow> bool) \<Rightarrow> bool" where
  "runs_at m h0 s Q \<longleftrightarrow> runs m s (\<lambda>r h. Q r (h0 @ h))"

named_theorems runs_intros \<open>forward rules for runs_at\<close>

lemma runsI: "(\<And>s. runs_at m [] s Q) \<Longrightarrow> runs m s Q"
  by (simp add: runs_at_def)

lemma runs_at_returnE [runs_intros]: "Q (Inr x) h0 \<Longrightarrow> runs_at (returnE x) h0 s Q"
  by (simp add: runs_at_def runs_def go_eff)

lemma runs_at_failE [runs_intros]: "Q (Inl e) h0 \<Longrightarrow> runs_at (failE e) h0 s Q"
  by (simp add: runs_at_def runs_def go_eff)

lemma runs_at_liftE [runs_intros]: "Q r h0 \<Longrightarrow> runs_at (liftE r) h0 s Q"
  by (cases r) (simp_all add: runs_at_def runs_def go_eff)

lemma runs_at_silentE [runs_intros]: "(\<And>r. Q r h0) \<Longrightarrow> runs_at (silentE op) h0 s Q"
  by (auto simp: runs_at_def runs_def intro!: wp_silentE_I)

lemma runs_at_callE [runs_intros]:
  "(\<And>x. Q (Inr x) (h0 @ [(r, True)])) \<Longrightarrow> (\<And>e. Q (Inl e) (h0 @ [(r, False)])) \<Longrightarrow> runs_at (callE r op) h0 s Q"
  by (auto simp: runs_at_def runs_def intro!: wp_callE_I)

lemma runs_at_iff:
  "runs_at m h0 s Q \<longleftrightarrow> (\<exists>h. hist (snd (m s)) = hist s @ h \<and> Q (fst (m s)) (h0 @ h))"
  by (cases "m s") (auto simp: runs_at_def runs_def wp_def split: sum.splits)

lemma runs_atD:
  assumes "runs_at m [] s Q" and "m s = (r, s')"
  shows "hist s' = hist s @ new_requests s s' \<and> Q r (new_requests s s')"
  using assms by (auto simp: runs_at_iff new_requests_append)

lemma runs_at_bindE [runs_intros]:
  assumes "runs_at m h0 s (\<lambda>r h. case r of Inl e \<Rightarrow> Q (Inl e) h | Inr x \<Rightarrow> (\<forall>s'. runs_at (f x) h s' Q))"
  shows "runs_at (bindE m f) h0 s Q"
proof -
  obtain r s1 where ms: "m s = (r, s1)" by fastforce
  with assms obtain h where h: "hist s1 = hist s @ h"
    and q: "case r of Inl e \<Rightarrow> Q (Inl e) (h0 @ h) | Inr x \<Rightarrow> (\<forall>s'. runs_at (f x) (h0 @ h) s' Q)"
    by (auto simp: runs_at_iff [of m])
  show ?thesis
  proof (cases r)
    case (Inl e)
    with ms h q show ?thesis by (simp add: runs_at_iff bindE_def)
  next
    case (Inr x)
    with q have "runs_at (f x) (h0 @ h) s1 Q" by simp
    then obtain h' where "hist (snd (f x s1)) = hist s1 @ h'" "Q (fst (f x s1)) (h0 @ h @ h')"
      by (auto simp: runs_at_iff)
    with ms h Inr show ?thesis by (simp add: runs_at_iff bindE_def)
  qed
qed

lemma runs_at_tryE [runs_intros]:
  assumes "runs_at m h0 s (\<lambda>r h. case r of Inl e \<Rightarrow> (if is_panic e then Q (Inl e) h else Q (Inr (Inl e)) h)
      | Inr x \<Rightarrow> Q (Inr (Inr x)) h)"
  shows "runs_at (tryE m) h0 s Q"
  using assms unfolding runs_at_def runs_def wp_tryE
  by (rule wp_mono) (auto split: if_splits)

lemma runs_at_wrapE [runs_intros]:
  assumes "runs_at m h0 s (\<lambda>r h. case r of Inl e \<Rightarrow> Q (Inl (wrap_error f as e)) h | Inr x \<Rightarrow> Q (Inr x) h)"
  shows "runs_at (wrapE f as m) h0 s Q"
  using assms unfolding runs_at_def runs_def wp_wrapE
  by (rule wp_mono) auto

lemma runs_at_mono:
  assumes "runs_at m h0 s Q" and "\<And>r h. Q r h \<Longrightarrow> Q' r h"
  shows "runs_at m h0 s Q'"
  using assms(1) unfolding runs_at_def runs_def by (rule wp_mono) (use assms(2) in blast)+

lemma runs_at_forE:
  assumes "I h0"
    and "\<And>x h s. x \<in> set xs \<Longrightarrow> I h \<Longrightarrow>
      runs_at (f x) h s (\<lambda>r h'. case r of Inl e \<Rightarrow> Q (Inl e) h' | Inr _ \<Rightarrow> I h')"
    and "\<And>h. I h \<Longrightarrow> Q (Inr ()) h"
  shows "runs_at (forE xs f) h0 s Q"
  using assms(1,2)
proof (induction xs arbitrary: h0 s)
  case Nil
  then show ?case using assms(3) by (auto intro: runs_intros)
next
  case (Cons x xs)
  have "runs_at (f x) h0 s (\<lambda>r h'. case r of Inl e \<Rightarrow> Q (Inl e) h' | Inr _ \<Rightarrow> I h')"
    using Cons.prems by simp
  then show ?case
    unfolding forE.simps
    by (intro runs_at_bindE, elim runs_at_mono)
      (auto split: sum.splits intro!: Cons.IH Cons.prems(2))
qed

lemma runs_at_if [runs_intros]:
  "(b \<Longrightarrow> runs_at m h0 s Q) \<Longrightarrow> (\<not> b \<Longrightarrow> runs_at n h0 s Q) \<Longrightarrow> runs_at (if b then m else n) h0 s Q"
  by simp

lemma runs_at_option [runs_intros]:
  "(p = None \<Longrightarrow> runs_at m h0 s Q) \<Longrightarrow> (\<And>x. p = Some x \<Longrightarrow> runs_at (f x) h0 s Q) \<Longrightarrow>
   runs_at (case p of None \<Rightarrow> m | Some x \<Rightarrow> f x) h0 s Q"
  by (cases p) auto

lemma runs_at_prod [runs_intros]:
  "(\<And>a b. p = (a, b) \<Longrightarrow> runs_at (f a b) h0 s Q) \<Longrightarrow> runs_at (case p of (a, b) \<Rightarrow> f a b) h0 s Q"
  by (cases p) auto

lemma runs_at_sum [runs_intros]:
  "(\<And>e. r = Inl e \<Longrightarrow> runs_at (g e) h0 s Q) \<Longrightarrow> (\<And>x. r = Inr x \<Longrightarrow> runs_at (f x) h0 s Q) \<Longrightarrow>
   runs_at (case r of Inl e \<Rightarrow> g e | Inr x \<Rightarrow> f x) h0 s Q"
  by (cases r) auto

text \<open>A program all of whose requests satisfy \<open>P\<close> keeps what such requests keep.\<close>

lemma runs_at_emits:
  assumes "emits P m" and "\<And>r h. list_all (\<lambda>(q, ok). P q) h \<Longrightarrow> Q r (h0 @ h)"
  shows "runs_at m h0 s Q"
proof -
  obtain r s' where ms: "m s = (r, s')" by fastforce
  obtain h where "hist s' = hist s @ h" "list_all (\<lambda>(q, ok). P q) h"
    using assms(1) ms by (metis emitsE snd_conv)
  with ms assms(2) show ?thesis
    by (auto simp: runs_at_def runs_def wp_def split: sum.splits)
qed

lemma runs_at_grows: "runs_at m h s Q \<Longrightarrow> runs_at m h s (\<lambda>r h'. Q r h' \<and> (\<exists>g. h' = h @ g))"
  by (auto simp: runs_at_iff)

text \<open>A loop that returns has done what each round does, for what further requests keep.\<close>

lemma runs_at_forE_each:
  assumes step: "\<And>x h s. x \<in> set xs \<Longrightarrow> runs_at (f x) h s (\<lambda>r h'. r = Inr () \<longrightarrow> P x h')"
    and keep: "\<And>x h g. P x h \<Longrightarrow> P x (h @ g)"
  shows "runs_at (forE xs f) h s (\<lambda>r h'. r = Inr () \<longrightarrow> (\<forall>x \<in> set xs. P x h'))"
  using step
proof (induction xs arbitrary: h s)
  case (Cons x xs)
  have rest: "runs_at (forE xs f) h' s' (\<lambda>r h''. r = Inr () \<longrightarrow> (\<forall>y \<in> set (x # xs). P y h''))"
    if "P x h'" for h' s'
  proof -
    have "runs_at (forE xs f) h' s' (\<lambda>r h''. r = Inr () \<longrightarrow> (\<forall>y \<in> set xs. P y h''))"
      by (rule Cons.IH) (simp add: Cons.prems)
    from runs_at_grows [OF this] show ?thesis
      by (rule runs_at_mono) (use keep that in auto)
  qed
  show ?case
    unfolding forE.simps
    by (rule runs_at_bindE, rule runs_at_mono [OF Cons.prems [of x]]) (auto intro!: rest [simplified] split: sum.split)
qed (auto intro: runs_intros)

text \<open>The rule for a request whose answer matters: the operation of the server that gave it is at hand.\<close>

lemma runs_at_callE_op:
  assumes "\<And>x v v'. op v = (Inr x, v') \<Longrightarrow> Q (Inr x) (h0 @ [(r, True)])"
    and "\<And>e. Q (Inl e) (h0 @ [(r, False)])"
  shows "runs_at (callE r op) h0 s Q"
  using assms by (cases "op (srv s)"; cases "fst (op (srv s))") (auto simp: runs_at_iff callE_def)

lemma bind_lift: "bindE (liftE (Inr x)) f = f x" "bindE (liftE (Inl e)) f = failE e"
  by (simp_all add: bindE_def liftE_def failE_def)

text \<open>The requests a program adds, seen on their own.\<close>

lemma runs_at_suffix:
  assumes "runs_at m [] s P" and "\<And>r g. P r g \<Longrightarrow> Q r (h0 @ g)"
  shows "runs_at m h0 s Q"
  using assms by (auto simp: runs_at_iff)

lemma runs_at_and_emits:
  assumes "emits P m" and "runs_at m h0 s Q"
  shows "runs_at m h0 s (\<lambda>r h. Q r h \<and> (\<exists>g. h = h0 @ g \<and> list_all (\<lambda>(q, ok). P q) g))"
  using assms(2) emitsE [OF assms(1), of s] by (fastforce simp: runs_at_iff)

lemma runs_at_bind_keep:
  assumes "runs_at m h0 s (\<lambda>r h. \<not> isl r \<longrightarrow> P h)" and "\<And>x. emits (\<lambda>_. True) (f x)" and "\<And>h g. P h \<Longrightarrow> P (h @ g)"
  shows "runs_at (bindE m f) h0 s (\<lambda>r h. \<not> isl r \<longrightarrow> P h)"
  by (rule runs_at_bindE, rule runs_at_mono [OF assms(1)])
    (auto split: sum.split intro!: runs_at_emits [OF assms(2)] assms(3))

lemma bind_return: "bindE (returnE x) f = f x"
  by (simp add: bindE_def returnE_def)

section \<open>What a program returns\<close>

text \<open>\<open>returns P m\<close>: a value that \<open>m\<close> returns satisfies \<open>P\<close>, whatever the server does.\<close>

definition returns :: "('a \<Rightarrow> bool) \<Rightarrow> ('s, 'a) eff \<Rightarrow> bool" where
  "returns P m \<longleftrightarrow> (\<forall>s x s'. m s = (Inr x, s') \<longrightarrow> P x)"

named_theorems returns_intros \<open>closure of returns under the combinators\<close>

lemma returns_returnE [returns_intros]: "P x \<Longrightarrow> returns P (returnE x)"
  by (simp add: returns_def returnE_def)

lemma returns_failE [returns_intros]: "returns P (failE e)"
  by (simp add: returns_def failE_def)

lemma returns_bindE:
  "returns R m \<Longrightarrow> (\<And>x. R x \<Longrightarrow> returns P (f x)) \<Longrightarrow> returns P (bindE m f)"
  unfolding returns_def bindE_def by (fastforce split: sum.splits prod.splits)

lemma returns_bind_any [returns_intros]: "(\<And>x. returns P (f x)) \<Longrightarrow> returns P (bindE m f)"
  by (rule returns_bindE [where R = "\<lambda>_. True"]) (auto simp: returns_def)

lemma returns_if [returns_intros]:
  "(b \<Longrightarrow> returns P m) \<Longrightarrow> (\<not> b \<Longrightarrow> returns P n) \<Longrightarrow> returns P (if b then m else n)"
  by simp

lemma returns_option [returns_intros]:
  "(p = None \<Longrightarrow> returns P m) \<Longrightarrow> (\<And>x. p = Some x \<Longrightarrow> returns P (f x)) \<Longrightarrow>
   returns P (case p of None \<Rightarrow> m | Some x \<Rightarrow> f x)"
  by (cases p) auto

lemma returns_sum [returns_intros]:
  "(\<And>e. r = Inl e \<Longrightarrow> returns P (g e)) \<Longrightarrow> (\<And>x. r = Inr x \<Longrightarrow> returns P (f x)) \<Longrightarrow>
   returns P (case r of Inl e \<Rightarrow> g e | Inr x \<Rightarrow> f x)"
  by (cases r) auto

lemma returns_prod [returns_intros]:
  "(\<And>a b. p = (a, b) \<Longrightarrow> returns P (f a b)) \<Longrightarrow> returns P (case p of (a, b) \<Rightarrow> f a b)"
  by (cases p) auto

lemma returns_liftE: "(\<And>x. r = Inr x \<Longrightarrow> P x) \<Longrightarrow> returns P (liftE r)"
  by (simp add: returns_def liftE_def)

lemma runs_at_emits_returns:
  assumes "emits P m" and "returns R m"
  shows "runs_at m h0 s (\<lambda>r h. (\<forall>x. r = Inr x \<longrightarrow> R x) \<and> (\<exists>g. h = h0 @ g \<and> list_all (\<lambda>(q, ok). P q) g))"
  using emitsE [OF assms(1), of s] assms(2) unfolding runs_at_iff returns_def
  by (metis prod.collapse)

lemma returns_wrapE [returns_intros]: "returns P m \<Longrightarrow> returns P (wrapE f as m)"
  by (auto simp: returns_def wrapE_def split: prod.splits sum.splits)

lemma emits_bind_returns:
  assumes "emits P m" and "returns R m" and "\<And>x. R x \<Longrightarrow> emits P (f x)"
  shows "emits P (bindE m f)"
proof (rule emitsI)
  fix s
  obtain r s' where ms: "m s = (r, s')" by fastforce
  obtain h where h: "hist s' = hist s @ h" "list_all (\<lambda>(r, ok). P r) h"
    using assms(1) ms by (metis emitsE snd_conv)
  show "\<exists>h. hist (snd (bindE m f s)) = hist s @ h \<and> list_all (\<lambda>(r, ok). P r) h"
  proof (cases r)
    case (Inl e)
    with ms h show ?thesis by (auto simp: bindE_def)
  next
    case (Inr x)
    with ms assms(2) have "R x" by (auto simp: returns_def)
    then obtain h' where "hist (snd (f x s')) = hist s' @ h'" "list_all (\<lambda>(r, ok). P r) h'"
      using assms(3) by (metis emitsE)
    with ms h Inr have "hist (snd (bindE m f s)) = hist s @ (h @ h') \<and> list_all (\<lambda>(r, ok). P r) (h @ h')"
      by (auto simp: bindE_def)
    then show ?thesis by blast
  qed
qed

section \<open>A concrete cluster for evaluation\<close>

text \<open>
  A server with no state of its own: it accepts every write, answers every read of a named object
  with NotFound, and its clock stands at zero. The witnesses run the controllers on it or on a
  variant of it.
\<close>

definition not_found :: error where
  "not_found = ApiError ''NotFound'' [] ''not found''"

definition env0 :: "'w env" where
  "env0 = \<lparr>api_GetRollout = (\<lambda>_ _. failE not_found), api_UpdateRollout = (\<lambda>_. returnE ()),
     api_UpdateRolloutStatus = (\<lambda>_. returnE ()), api_GetAnalysisRun = (\<lambda>_ _. failE not_found),
     api_CreateAnalysisRun = returnE, api_UpdateAnalysisRunStatus = (\<lambda>_. returnE ()),
     api_GetAnalysisTemplate = (\<lambda>_ _. failE not_found),
     api_GetClusterAnalysisTemplate = (\<lambda>_. failE not_found),
     api_GetExperiment = (\<lambda>_ _. failE not_found), api_UpdateExperimentStatus = (\<lambda>_. returnE ()),
     api_ListReplicaSets = (\<lambda>_ _. returnE []), api_GetReplicaSet = (\<lambda>_ _. failE not_found),
     api_CreateReplicaSet = (\<lambda>_. returnE), api_UpdateReplicaSet = (\<lambda>_. returnE),
     api_DeleteReplicaSet = (\<lambda>_ _. returnE ()), api_PatchReplicaSet = (\<lambda>_ _ _. returnE ()),
     api_GetDeployment = (\<lambda>_ _. failE not_found), api_UpdateDeployment = (\<lambda>_ _. returnE ()),
     api_UpdateDeploymentStatus = (\<lambda>_ _. returnE ()), api_GetService = (\<lambda>_ _. failE not_found),
     api_UpdateService = (\<lambda>_ _. returnE ()), clock_Now = (\<lambda>v. (0, v))\<rparr>"

definition router0 :: "unit plugin" where
  "router0 = \<lparr>plug_Type = ''fake'', plug_SetWeight = (\<lambda>_ _. returnE ()),
     plug_SetHeaderRoute = (\<lambda>_ _. returnE ()), plug_VerifyWeight = (\<lambda>_ _. returnE True),
     plug_UpdateHosts = (\<lambda>_ _ _. returnE ()), plug_RemoveManagedRoutes = (\<lambda>_. returnE ())\<rparr>"

definition world0 :: "(unit, request) world" where
  "world0 = \<lparr>srv = (), hist = []\<rparr>"

lemmas eff_eval = returnE_def failE_def liftE_def bindE_def tryE_def wrapE_def wrap_error_def
  callE_def silentE_def call_defs env0_def router0_def world0_def not_found_def

end
