(* ===== verification/K8s_Controller.thy ===== *)
theory K8s_Controller
  imports Cluster
begin

text \<open>
  The two vendored packages under \<open>pkg/internal\<close>: the label helpers of \<open>k8slabels/labels.go\<close> and
  the ReplicaSet filters, orders and the pod template hash of \<open>k8scontroller/controller_utils.go\<close>.
  The three orders are interpretations of \<open>strict_weak_order\<close>, so the sorts of the controllers are
  sorted permutations; a slice of ReplicaSet pointers is a list of options where the source tests
  its elements for nil, and a plain list where it does not.
\<close>

section \<open>Labels\<close>

definition CloneAndAddLabel :: "smap \<Rightarrow> string \<Rightarrow> string \<Rightarrow> smap" where
  "CloneAndAddLabel labels labelKey labelValue =
     (if labelKey = [] then labels else smap_set labelKey labelValue labels)"

definition CloneAndRemoveLabel :: "smap \<Rightarrow> string \<Rightarrow> smap" where
  "CloneAndRemoveLabel labels labelKey =
     (if labelKey = [] then labels else smap_del labelKey labels)"

definition AddLabel :: "smap option \<Rightarrow> string \<Rightarrow> string \<Rightarrow> smap option" where
  "AddLabel labels labelKey labelValue =
     (if labelKey = [] then labels else Some (smap_set labelKey labelValue (the_smap labels)))"

definition CloneSelectorAndAddLabel ::
    "labelSelector option \<Rightarrow> string \<Rightarrow> string \<Rightarrow> labelSelector option res" where
  "CloneSelectorAndAddLabel selector labelKey labelValue =
     (if labelKey = [] then Inr selector
      else bindR (deref ''selector'' selector) (\<lambda>s.
        Inr (Some \<lparr>sel_MatchLabels = smap_set labelKey labelValue (sel_MatchLabels s),
                   sel_MatchExpressions = map (\<lambda>me. \<lparr>lsr_Key = lsr_Key me,
                     lsr_Operator = lsr_Operator me, lsr_Values = lsr_Values me\<rparr>)
                     (sel_MatchExpressions s)\<rparr>)))"

definition AddLabelToSelector ::
    "labelSelector option \<Rightarrow> string \<Rightarrow> string \<Rightarrow> labelSelector option res" where
  "AddLabelToSelector selector labelKey labelValue =
     (if labelKey = [] then Inr selector
      else bindR (deref ''selector'' selector) (\<lambda>s.
        Inr (Some (s\<lparr>sel_MatchLabels := smap_set labelKey labelValue (sel_MatchLabels s)\<rparr>))))"

definition SelectorHasLabel :: "labelSelector option \<Rightarrow> string \<Rightarrow> bool res" where
  "SelectorHasLabel selector labelKey =
     bindR (deref ''selector'' selector) (\<lambda>s. Inr (0 < length (smap_get (sel_MatchLabels s) labelKey)))"

lemma CloneAndAddLabel_get [simp]:
  "smap_get (CloneAndAddLabel m k v) j = (if k \<noteq> [] \<and> j = k then v else smap_get m j)"
  by (simp add: CloneAndAddLabel_def)

lemma CloneAndRemoveLabel_get [simp]:
  "smap_get (CloneAndRemoveLabel m k) j = (if k \<noteq> [] \<and> j = k then [] else smap_get m j)"
  by (simp add: CloneAndRemoveLabel_def)

lemma CloneSelectorAndAddLabel_has:
  assumes "k \<noteq> []" and "v \<noteq> []" and "CloneSelectorAndAddLabel sel k v = Inr sel'"
  shows "SelectorHasLabel sel' k = Inr True"
  using assms by (auto simp: CloneSelectorAndAddLabel_def SelectorHasLabel_def bindR_eq_Inr)

section \<open>Filters\<close>

definition FilterReplicaSets ::
    "replicaSet option list \<Rightarrow> (replicaSet option \<Rightarrow> bool) \<Rightarrow> replicaSet option list" where
  "FilterReplicaSets rses filterFn = filter filterFn rses"

definition active :: "replicaSet option \<Rightarrow> bool" where
  "active rs = (case rs of None \<Rightarrow> False
     | Some r \<Rightarrow> (case rs_Replicas r of None \<Rightarrow> False | Some n \<Rightarrow> 0 < n))"

definition FilterActiveReplicaSets :: "replicaSet option list \<Rightarrow> replicaSet list" where
  "FilterActiveReplicaSets replicaSets = non_nil (FilterReplicaSets replicaSets active)"

lemma FilterActive_iff:
  "r \<in> set (FilterActiveReplicaSets rss) \<longleftrightarrow> Some r \<in> set rss \<and> (\<exists>n > 0. rs_Replicas r = Some n)"
  by (auto simp: FilterActiveReplicaSets_def FilterReplicaSets_def active_def set_non_nil
      split: option.splits)

section \<open>Orders\<close>

text \<open>
  The size of a ReplicaSet in an order. The sources sort only slices of active ReplicaSets by size,
  whose replica count is set.
\<close>

definition rs_size :: "replicaSet \<Rightarrow> int" where
  "rs_size rs = (case rs_Replicas rs of None \<Rightarrow> 0 | Some n \<Rightarrow> n)"

definition ReplicaSetsByCreationTimestamp :: "replicaSet \<Rightarrow> replicaSet \<Rightarrow> bool" where
  "ReplicaSetsByCreationTimestamp a b =
     (if meta_CreationTimestamp (rs_Meta a) = meta_CreationTimestamp (rs_Meta b)
      then rs_Name a < rs_Name b
      else meta_CreationTimestamp (rs_Meta a) < meta_CreationTimestamp (rs_Meta b))"

definition ReplicaSetsBySizeOlder :: "replicaSet \<Rightarrow> replicaSet \<Rightarrow> bool" where
  "ReplicaSetsBySizeOlder a b =
     (if rs_size a = rs_size b then ReplicaSetsByCreationTimestamp a b else rs_size a > rs_size b)"

definition ReplicaSetsBySizeNewer :: "replicaSet \<Rightarrow> replicaSet \<Rightarrow> bool" where
  "ReplicaSetsBySizeNewer a b =
     (if rs_size a = rs_size b then ReplicaSetsByCreationTimestamp b a else rs_size a > rs_size b)"

interpretation by_creation: strict_weak_order ReplicaSetsByCreationTimestamp
  by unfold_locales (auto simp: ReplicaSetsByCreationTimestamp_def split: if_splits)

interpretation by_size_older: strict_weak_order ReplicaSetsBySizeOlder
  by unfold_locales
    (auto simp: ReplicaSetsBySizeOlder_def split: if_splits
      dest: by_creation.less_asym by_creation.not_less_trans)

interpretation by_size_newer: strict_weak_order ReplicaSetsBySizeNewer
  by unfold_locales
    (auto simp: ReplicaSetsBySizeNewer_def split: if_splits
      dest: by_creation.less_asym by_creation.not_less_trans)

lemma by_creation_total:
  "rs_Name a \<noteq> rs_Name b \<Longrightarrow> ReplicaSetsByCreationTimestamp a b \<or> ReplicaSetsByCreationTimestamp b a"
  by (auto simp: ReplicaSetsByCreationTimestamp_def)

section \<open>The pod template hash\<close>

text \<open>
  \<open>ComputeHash\<close>: 32-bit FNV-1a (offset basis 2166136261, prime 16777619) of the dumped template,
  followed by the collision count as eight little-endian bytes, printed in decimal and encoded.
\<close>

unbundle bit_operations_syntax

definition fnv32a :: "string \<Rightarrow> 32 word" where
  "fnv32a s = foldl (\<lambda>h c. (h XOR word_of_nat (of_char c)) * 16777619) 2166136261 s"

definition PutUint32 :: "int \<Rightarrow> string" where
  "PutUint32 v = (let n = nat (v mod 4294967296) in
     [char_of (n mod 256), char_of (n div 256 mod 256), char_of (n div 65536 mod 256),
      char_of (n div 16777216 mod 256)])"

definition ComputeHash :: "lib \<Rightarrow> podTemplate \<Rightarrow> int option \<Rightarrow> string" where
  "ComputeHash L template collisionCount =
     (let salt = (case collisionCount of None \<Rightarrow> []
        | Some c \<Rightarrow> PutUint32 c @ replicate 4 (char_of (0 :: nat)))
      in lib_SafeEncodeString L (FormatInt (uint (fnv32a (lib_DumpForHash L template @ salt)))))"

text \<open>The step of FNV-1a is injective in the state: its prime is odd, so a unit modulo \<open>2 ^ 32\<close>.\<close>

lemma fnv_prime_unit: "(16777619 :: 32 word) * 899433627 = 1"
  by simp

lemma fnv32a_append:
  "fnv32a (s @ t) = foldl (\<lambda>h c. (h XOR word_of_nat (of_char c)) * 16777619) (fnv32a s) t"
  by (simp add: fnv32a_def)

lemma fnv_step_inject:
  assumes "(h XOR c) * 16777619 = (g XOR c) * (16777619 :: 32 word)"
  shows "h = g"
proof -
  have "(h XOR c) * 16777619 * 899433627 = (g XOR c) * 16777619 * 899433627"
    using assms by simp
  then have "h XOR c = g XOR c" by (simp only: mult.assoc fnv_prime_unit mult_1_right)
  then have "(h XOR c) XOR c = (g XOR c) XOR c" by simp
  then show ?thesis by (simp add: xor.assoc)
qed

lemma fnv_foldl_inject:
  "foldl (\<lambda>h c. (h XOR word_of_nat (of_char c)) * 16777619) h s
   = foldl (\<lambda>h c. (h XOR word_of_nat (of_char c)) * (16777619 :: 32 word)) g s \<Longrightarrow> h = g"
  by (induction s arbitrary: h g) (auto dest: fnv_step_inject)

end
