(* ===== verification/Deployment_Util.thy ===== *)
theory Deployment_Util
  imports K8s_Controller
begin

text \<open>
  The helpers of the forked Deployment controller,
  \<open>pkg/controller/rollout/_forkedfrom_k8s/util/deployment_util.go\<close>, in the order of the file:
  conditions, revisions, the annotations of ReplicaSets, fenceposts and proportions, the choice of
  the new and the old ReplicaSets, counts, completion and the size of the new ReplicaSet. A read
  through a nil \<open>*int32\<close> is the panic of \<open>deref\<close>; a function that mutates its argument returns it.
\<close>

section \<open>Constants\<close>

abbreviation RevisionAnnotation :: string where
  "RevisionAnnotation \<equiv> ''deployment.kubernetes.io/revision''"

abbreviation RevisionHistoryAnnotation :: string where
  "RevisionHistoryAnnotation \<equiv> ''deployment.kubernetes.io/revision-history''"

abbreviation DesiredReplicasAnnotation :: string where
  "DesiredReplicasAnnotation \<equiv> ''deployment.kubernetes.io/desired-replicas''"

abbreviation MaxReplicasAnnotation :: string where
  "MaxReplicasAnnotation \<equiv> ''deployment.kubernetes.io/max-replicas''"

abbreviation DeploymentProgressingType :: string where "DeploymentProgressingType \<equiv> ''Progressing''"
abbreviation DeploymentAvailableType :: string where "DeploymentAvailableType \<equiv> ''Available''"
abbreviation DeploymentReplicaFailureType :: string where
  "DeploymentReplicaFailureType \<equiv> ''ReplicaFailure''"

section \<open>Conditions\<close>

definition NewDeploymentCondition :: "time \<Rightarrow> string \<Rightarrow> string \<Rightarrow> string \<Rightarrow> string \<Rightarrow> deploymentCondition" where
  "NewDeploymentCondition now condType status reason message =
     \<lparr>dcond_Type = condType, dcond_Status = status, dcond_LastUpdateTime = now,
      dcond_LastTransitionTime = now, dcond_Reason = reason, dcond_Message = message\<rparr>"

definition GetDeploymentCondition :: "deploymentStatus \<Rightarrow> string \<Rightarrow> deploymentCondition option" where
  "GetDeploymentCondition status condType = find (\<lambda>c. dcond_Type c = condType) (ds_Conditions status)"

definition filterOutCondition :: "deploymentCondition list \<Rightarrow> string \<Rightarrow> deploymentCondition list" where
  "filterOutCondition conditions condType = filter (\<lambda>c. dcond_Type c \<noteq> condType) conditions"

definition SetDeploymentCondition :: "deploymentStatus \<Rightarrow> deploymentCondition \<Rightarrow> deploymentStatus" where
  "SetDeploymentCondition status condition =
     (let currentCond = GetDeploymentCondition status (dcond_Type condition) in
      case currentCond of
        None \<Rightarrow> status\<lparr>ds_Conditions :=
                 filterOutCondition (ds_Conditions status) (dcond_Type condition) @ [condition]\<rparr>
      | Some c \<Rightarrow>
         (if dcond_Status c = dcond_Status condition \<and> dcond_Reason c = dcond_Reason condition then status
          else let condition' = (if dcond_Status c = dcond_Status condition
                 then condition\<lparr>dcond_LastTransitionTime := dcond_LastTransitionTime c\<rparr>
                 else condition)
               in status\<lparr>ds_Conditions :=
                    filterOutCondition (ds_Conditions status) (dcond_Type condition) @ [condition']\<rparr>))"

definition RemoveDeploymentCondition :: "deploymentStatus \<Rightarrow> string \<Rightarrow> deploymentStatus" where
  "RemoveDeploymentCondition status condType =
     status\<lparr>ds_Conditions := filterOutCondition (ds_Conditions status) condType\<rparr>"

definition ReplicaSetToDeploymentCondition :: "replicaSetCondition \<Rightarrow> deploymentCondition" where
  "ReplicaSetToDeploymentCondition cond =
     \<lparr>dcond_Type = rsc_Type cond, dcond_Status = rsc_Status cond,
      dcond_LastUpdateTime = rsc_LastTransitionTime cond,
      dcond_LastTransitionTime = rsc_LastTransitionTime cond, dcond_Reason = rsc_Reason cond,
      dcond_Message = rsc_Message cond\<rparr>"

section \<open>Revisions\<close>

definition SetDeploymentRevision :: "deployment \<Rightarrow> string \<Rightarrow> bool \<times> deployment" where
  "SetDeploymentRevision d revision =
     (let a = the_smap (dep_Annotations d) in
      if smap_get a RevisionAnnotation \<noteq> revision
      then (True, dep_set_Annotations (Some (smap_set RevisionAnnotation revision a)) d)
      else (False, dep_set_Annotations (Some a) d))"

definition Revision :: "replicaSet \<Rightarrow> int option" where
  "Revision rs = (let a = the_smap (rs_Annotations rs) in
     if smap_has a RevisionAnnotation then ParseInt64 (smap_get a RevisionAnnotation) else Some 0)"

definition MaxRevision :: "replicaSet list \<Rightarrow> int" where
  "MaxRevision allRSs = foldl (\<lambda>m rs. case Revision rs of None \<Rightarrow> m
      | Some v \<Rightarrow> (if v > m then v else m)) 0 allRSs"

definition LastRevision :: "replicaSet list \<Rightarrow> int" where
  "LastRevision allRSs = snd (foldl (\<lambda>(m, s) rs. case Revision rs of None \<Rightarrow> (m, s)
      | Some v \<Rightarrow> (if v \<ge> m then (v, m) else if v > s then (m, v) else (m, s))) (0, 0) allRSs)"

section \<open>Annotations of ReplicaSets\<close>

definition skipCopyAnnotation :: "string \<Rightarrow> bool" where
  "skipCopyAnnotation key = (key \<in> {LastAppliedConfigAnnotation, RevisionAnnotation,
     RevisionHistoryAnnotation, DesiredReplicasAnnotation, MaxReplicasAnnotation, DeprecatedRollbackTo})"

definition copyDeploymentAnnotationsToReplicaSet :: "deployment \<Rightarrow> replicaSet \<Rightarrow> bool \<times> replicaSet" where
  "copyDeploymentAnnotationsToReplicaSet d rs =
     (let (changed, a) = foldl (\<lambda>(changed, a) (k, v).
            if skipCopyAnnotation k \<or> (smap_has a k \<and> smap_get a k = v) then (changed, a)
            else (True, smap_set k v a))
          (False, the_smap (rs_Annotations rs)) (smap_entries (the_smap (dep_Annotations d)))
      in (changed, rs_set_Annotations (Some a) rs))"

definition getSkippedAnnotations :: "smap \<Rightarrow> smap" where
  "getSkippedAnnotations annotations = filter (\<lambda>(k, v). skipCopyAnnotation k) (smap_entries annotations)"

definition SetDeploymentAnnotationsTo :: "deployment \<Rightarrow> replicaSet \<Rightarrow> deployment" where
  "SetDeploymentAnnotationsTo d rollbackToRS =
     dep_set_Annotations (Some (foldl (\<lambda>a (k, v). if skipCopyAnnotation k then a else smap_set k v a)
       (getSkippedAnnotations (the_smap (dep_Annotations d)))
       (smap_entries (the_smap (rs_Annotations rollbackToRS))))) d"

text \<open>\<open>int32(Atoi(...))\<close> of an annotation; the conversion keeps the low 32 bits.\<close>

definition getIntFromAnnotation :: "replicaSet \<Rightarrow> string \<Rightarrow> int option" where
  "getIntFromAnnotation rs key = (let a = the_smap (rs_Annotations rs) in
     if \<not> smap_has a key then None
     else case ParseInt64 (smap_get a key) of None \<Rightarrow> None | Some v \<Rightarrow> Some (wrap32 v))"

definition GetDesiredReplicasAnnotation :: "replicaSet \<Rightarrow> int option" where
  "GetDesiredReplicasAnnotation rs = getIntFromAnnotation rs DesiredReplicasAnnotation"

definition getMaxReplicasAnnotation :: "replicaSet \<Rightarrow> int option" where
  "getMaxReplicasAnnotation rs = getIntFromAnnotation rs MaxReplicasAnnotation"

definition SetReplicasAnnotations :: "replicaSet \<Rightarrow> int \<Rightarrow> int \<Rightarrow> bool \<times> replicaSet" where
  "SetReplicasAnnotations rs desiredReplicas maxReplicas =
     (let a = the_smap (rs_Annotations rs);
          desiredString = FormatInt desiredReplicas;
          (u1, a1) = (if smap_get a DesiredReplicasAnnotation \<noteq> desiredString
                      then (True, smap_set DesiredReplicasAnnotation desiredString a) else (False, a));
          maxString = FormatInt maxReplicas;
          (u2, a2) = (if smap_get a1 MaxReplicasAnnotation \<noteq> maxString
                      then (True, smap_set MaxReplicasAnnotation maxString a1) else (u1, a1))
      in (u2, rs_set_Annotations (Some a2) rs))"

definition ReplicasAnnotationsNeedUpdate :: "replicaSet \<Rightarrow> int \<Rightarrow> int \<Rightarrow> bool" where
  "ReplicasAnnotationsNeedUpdate rs desiredReplicas maxReplicas =
     (case rs_Annotations rs of None \<Rightarrow> True
      | Some a \<Rightarrow> smap_get a DesiredReplicasAnnotation \<noteq> FormatInt desiredReplicas
          \<or> smap_get a MaxReplicasAnnotation \<noteq> FormatInt maxReplicas)"

section \<open>Fenceposts\<close>

definition IsRollingUpdate :: "deployment \<Rightarrow> bool" where
  "IsRollingUpdate d = (dep_StrategyType d = RollingUpdateDeploymentStrategyType)"

text \<open>\<open>intstr.ValueOrDefault\<close>.\<close>

definition ValueOrDefault :: "intOrString option \<Rightarrow> intOrString \<Rightarrow> intOrString" where
  "ValueOrDefault p v = (case p of None \<Rightarrow> v | Some x \<Rightarrow> x)"

definition ResolveFenceposts ::
    "lib \<Rightarrow> intOrString option \<Rightarrow> intOrString option \<Rightarrow> int \<Rightarrow> (int \<times> int) res" where
  "ResolveFenceposts L maxSurge maxUnavailable desired =
     bindR (lib_GetScaledValue L (Some (ValueOrDefault maxSurge (FromInt 0))) desired True) (\<lambda>surge.
     bindR (lib_GetScaledValue L (Some (ValueOrDefault maxUnavailable (FromInt 0))) desired False)
       (\<lambda>unavailable.
     let unavailable' = (if surge = 0 \<and> unavailable = 0 then 1 else unavailable)
     in Inr (wrap32 surge, wrap32 unavailable')))"

text \<open>The call sites below drop the error of \<open>ResolveFenceposts\<close> and go on with its zero values.\<close>

definition fenceposts :: "lib \<Rightarrow> deployment \<Rightarrow> int \<Rightarrow> (int \<times> int) res" where
  "fenceposts L d replicas =
     bindR (deref ''RollingUpdate'' (dep_RollingUpdate d)) (\<lambda>ru.
     Inr (case ResolveFenceposts L (ru_MaxSurge ru) (ru_MaxUnavailable ru) replicas of
       Inl e \<Rightarrow> (0, 0) | Inr p \<Rightarrow> p))"

definition MaxUnavailable :: "lib \<Rightarrow> deployment \<Rightarrow> int res" where
  "MaxUnavailable L d =
     (if \<not> IsRollingUpdate d then Inr 0
      else bindR (deref ''Replicas'' (dep_Replicas d)) (\<lambda>replicas.
        if replicas = 0 then Inr 0
        else bindR (fenceposts L d replicas) (\<lambda>(surge, maxUnavailable).
          Inr (if maxUnavailable > replicas then replicas else maxUnavailable))))"

definition MinAvailable :: "lib \<Rightarrow> deployment \<Rightarrow> int res" where
  "MinAvailable L d =
     (if \<not> IsRollingUpdate d then Inr 0
      else bindR (deref ''Replicas'' (dep_Replicas d)) (\<lambda>replicas.
        bindR (MaxUnavailable L d) (\<lambda>mu. Inr (wrap32 (replicas - mu)))))"

definition MaxSurge :: "lib \<Rightarrow> deployment \<Rightarrow> int res" where
  "MaxSurge L d =
     (if \<not> IsRollingUpdate d then Inr 0
      else bindR (deref ''Replicas'' (dep_Replicas d)) (\<lambda>replicas.
        bindR (fenceposts L d replicas) (\<lambda>(maxSurge, unavailable). Inr maxSurge)))"

text \<open>\<open>*(d.Spec.Replicas) + MaxSurge(*d)\<close>, which the sources compute at every scaling call.\<close>

definition maxReplicas :: "lib \<Rightarrow> deployment \<Rightarrow> int res" where
  "maxReplicas L d = bindR (deref ''Replicas'' (dep_Replicas d)) (\<lambda>replicas.
     bindR (MaxSurge L d) (\<lambda>s. Inr (wrap32 (replicas + s))))"

text \<open>
  The revision history of a ReplicaSet that is rolled back to: old entries are dropped from the
  front until the new one fits.
\<close>

fun trimRevisions :: "int \<Rightarrow> int \<Rightarrow> string list \<Rightarrow> int \<times> string list" where
  "trimRevisions limit totalLen [] = (totalLen, [])"
| "trimRevisions limit totalLen (r # rs) =
     (if totalLen > limit then trimRevisions limit (totalLen - int (length r) - 1) rs
      else (totalLen, r # rs))"

definition appendRevision :: "int \<Rightarrow> string \<Rightarrow> smap \<Rightarrow> smap" where
  "appendRevision limit oldRevision a =
     (let history = smap_get a RevisionHistoryAnnotation;
          oldRevisions = Split CHR '','' history
      in if hd oldRevisions = [] then smap_set RevisionHistoryAnnotation oldRevision a
         else let (totalLen, kept) =
                trimRevisions limit (int (length history) + int (length oldRevision) + 1) oldRevisions
              in if totalLen \<le> limit
                 then smap_set RevisionHistoryAnnotation (Join CHR '','' (kept @ [oldRevision])) a
                 else a)"

definition SetNewReplicaSetAnnotations ::
    "lib \<Rightarrow> deployment \<Rightarrow> replicaSet \<Rightarrow> string \<Rightarrow> bool \<Rightarrow> int \<Rightarrow> (bool \<times> replicaSet) res" where
  "SetNewReplicaSetAnnotations L d newRS newRevision exists limit =
     (let (changed, rs) = copyDeploymentAnnotationsToReplicaSet d newRS;
          a = the_smap (rs_Annotations rs);
          oldRevision = smap_get a RevisionAnnotation;
          has = smap_has a RevisionAnnotation
      in case (case ParseInt64 oldRevision of Some v \<Rightarrow> Some v
               | None \<Rightarrow> (if oldRevision = [] then Some 0 else None)) of
           None \<Rightarrow> Inr (False, rs)
         | Some oldRevisionInt \<Rightarrow>
           (case ParseInt64 newRevision of
              None \<Rightarrow> Inr (False, rs)
            | Some newRevisionInt \<Rightarrow>
               let newer = oldRevisionInt < newRevisionInt;
                   a1 = (if newer then smap_set RevisionAnnotation newRevision a else a);
                   a2 = (if has \<and> newer then appendRevision limit oldRevision a1 else a1);
                   rs2 = rs_set_Annotations (Some a2) rs
               in if exists then Inr (changed \<or> newer, rs2)
                  else bindR (deref ''Replicas'' (dep_Replicas d)) (\<lambda>replicas.
                       bindR (maxReplicas L d) (\<lambda>mx.
                       let (u, rs3) = SetReplicasAnnotations rs2 replicas mx
                       in Inr (changed \<or> newer \<or> u, rs3)))))"

section \<open>Proportional scaling\<close>

definition FindActiveOrLatest ::
    "replicaSet option \<Rightarrow> replicaSet list \<Rightarrow> replicaSet option \<times> replicaSet list" where
  "FindActiveOrLatest newRS oldRSs =
     (if newRS = None \<and> oldRSs = [] then (None, oldRSs)
      else let sorted = Sort (\<lambda>a b. ReplicaSetsByCreationTimestamp b a) oldRSs;
               allRSs = FilterActiveReplicaSets (map Some sorted @ [newRS])
           in (case allRSs of
                 [] \<Rightarrow> (case newRS of Some r \<Rightarrow> Some r | None \<Rightarrow> Some (hd sorted))
               | [r] \<Rightarrow> Some r
               | _ \<Rightarrow> None, sorted))"

definition getReplicaSetFraction :: "lib \<Rightarrow> replicaSet \<Rightarrow> deployment \<Rightarrow> int res" where
  "getReplicaSetFraction L rs d =
     bindR (deref ''Replicas'' (dep_Replicas d)) (\<lambda>replicas.
     bindR (deref ''rs.Spec.Replicas'' (rs_Replicas rs)) (\<lambda>size.
     if replicas = 0 then Inr (wrap32 (- size))
     else bindR (maxReplicas L d) (\<lambda>deploymentReplicas.
       let annotatedReplicas = (case getMaxReplicasAnnotation rs of
             Some n \<Rightarrow> n | None \<Rightarrow> ds_Replicas (dep_Status d));
           newRSsize = f64_div (f64_of_int (wrap32 (size * deploymentReplicas)))
             (f64_of_int annotatedReplicas)
       in Inr (wrap32 (lib_RoundToInt32 L newRSsize - size)))))"

definition GetProportion :: "lib \<Rightarrow> replicaSet \<Rightarrow> deployment \<Rightarrow> int \<Rightarrow> int \<Rightarrow> int res" where
  "GetProportion L rs d deploymentReplicasToAdd deploymentReplicasAdded =
     bindR (deref ''rs.Spec.Replicas'' (rs_Replicas rs)) (\<lambda>size.
     if size = 0 \<or> deploymentReplicasToAdd = 0 \<or> deploymentReplicasToAdd = deploymentReplicasAdded
     then Inr 0
     else bindR (getReplicaSetFraction L rs d) (\<lambda>rsFraction.
       let allowed = wrap32 (deploymentReplicasToAdd - deploymentReplicasAdded)
       in Inr (if deploymentReplicasToAdd > 0 then min rsFraction allowed else max rsFraction allowed)))"

section \<open>Listing and matching\<close>

definition IsControlledBy :: "objectMeta \<Rightarrow> objectMeta \<Rightarrow> bool" where
  "IsControlledBy obj owner = (case GetControllerOf obj of
     None \<Rightarrow> False | Some r \<Rightarrow> owner_UID r = meta_UID owner)"

definition deploymentListReplicaSets ::
    "lib \<Rightarrow> deployment \<Rightarrow> (string \<Rightarrow> string \<Rightarrow> ('w, replicaSet list) io) \<Rightarrow> ('w, replicaSet list) io" where
  "deploymentListReplicaSets L d getRSList =
     bindE (liftE (lib_LabelSelectorAsSelector L (dep_Selector d))) (\<lambda>selector.
     bindE (getRSList (meta_Namespace (dep_Meta d)) (sel_String selector)) (\<lambda>all.
     returnE (filter (\<lambda>rs. IsControlledBy (rs_Meta rs) (dep_Meta d)) all)))"

definition ListPods ::
    "lib \<Rightarrow> deployment \<Rightarrow> replicaSet list \<Rightarrow> (string \<Rightarrow> string \<Rightarrow> ('w, pod list) io) \<Rightarrow> ('w, pod list) io" where
  "ListPods L d rsList getPodList =
     bindE (liftE (lib_LabelSelectorAsSelector L (dep_Selector d))) (\<lambda>selector.
     bindE (getPodList (meta_Namespace (dep_Meta d)) (sel_String selector)) (\<lambda>all.
     returnE (filter (\<lambda>p. case GetControllerOf (pod_Meta p) of None \<Rightarrow> False
       | Some r \<Rightarrow> owner_UID r \<in> set (map rs_UID rsList)) all)))"

definition GetDeploymentsForReplicaSet ::
    "lib \<Rightarrow> deployment list res \<Rightarrow> replicaSet \<Rightarrow> deployment list res" where
  "GetDeploymentsForReplicaSet L dList rs =
     (if rs_Labels rs = []
      then Inl (Errorf ''no deployments found for ReplicaSet %v because it has no labels'' [rs_Name rs])
      else bindR dList (\<lambda>ds.
        let deployments = filter (\<lambda>d. case lib_LabelSelectorAsSelector L (dep_Selector d) of
              Inl e \<Rightarrow> False
            | Inr s \<Rightarrow> \<not> sel_Empty s \<and> sel_Matches s (rs_Labels rs)) ds
        in if deployments = []
           then Inl (Errorf ''could not find deployments set for ReplicaSet %s in namespace %s with labels: %v''
                  [rs_Name rs, meta_Namespace (rs_Meta rs), concat (map (\<lambda>(k, v). k @ '':'' @ v @ '' '') (rs_Labels rs))])
           else Inr deployments))"

definition EqualIgnoreHash :: "lib \<Rightarrow> podTemplate \<Rightarrow> podTemplate \<Rightarrow> bool" where
  "EqualIgnoreHash L template1 template2 =
     lib_SemanticDeepEqual L
       (template1\<lparr>pt_Labels := smap_del DefaultDeploymentUniqueLabelKey (pt_Labels template1)\<rparr>)
       (template2\<lparr>pt_Labels := smap_del DefaultDeploymentUniqueLabelKey (pt_Labels template2)\<rparr>)"

text \<open>Both sort the caller's slice in place; \<open>FindOldReplicaSets\<close> ranges over the sorted slice.\<close>

definition FindNewReplicaSet :: "lib \<Rightarrow> deployment \<Rightarrow> replicaSet list \<Rightarrow> replicaSet option" where
  "FindNewReplicaSet L d rsList =
     find (\<lambda>rs. EqualIgnoreHash L (rs_Template rs) (dep_Template d))
       (Sort ReplicaSetsByCreationTimestamp rsList)"

definition FindOldReplicaSets ::
    "lib \<Rightarrow> deployment \<Rightarrow> replicaSet list \<Rightarrow> (replicaSet list \<times> replicaSet list) res" where
  "FindOldReplicaSets L d rsList =
     (let sorted = Sort ReplicaSetsByCreationTimestamp rsList;
          newRS = FindNewReplicaSet L d rsList;
          allRSs = filter (\<lambda>rs. \<not> (case newRS of None \<Rightarrow> False | Some r \<Rightarrow> rs_UID rs = rs_UID r)) sorted
      in bindR (mapR (\<lambda>rs. deref ''rs.Spec.Replicas'' (rs_Replicas rs)) allRSs) (\<lambda>sizes.
         Inr (filter (\<lambda>rs. rs_Replicas rs \<noteq> Some 0) allRSs, allRSs)))"

definition SetFromReplicaSetTemplate :: "deployment \<Rightarrow> podTemplate \<Rightarrow> deployment" where
  "SetFromReplicaSetTemplate d template =
     d\<lparr>dep_Template := \<lparr>pt_Labels = CloneAndRemoveLabel (pt_Labels template) DefaultDeploymentUniqueLabelKey,
       pt_Meta = pt_Meta template, pt_Spec = pt_Spec template\<rparr>\<rparr>"

section \<open>Counts and completion\<close>

definition GetReplicaCountForReplicaSets :: "replicaSet option list \<Rightarrow> int res" where
  "GetReplicaCountForReplicaSets replicaSets =
     bindR (mapR (\<lambda>rs. deref ''rs.Spec.Replicas'' (rs_Replicas rs)) (non_nil replicaSets))
       (\<lambda>ns. Inr (sum32 ns))"

definition GetActualReplicaCountForReplicaSets :: "replicaSet option list \<Rightarrow> int" where
  "GetActualReplicaCountForReplicaSets replicaSets = sum32 (map rs_StatusReplicas (non_nil replicaSets))"

definition GetReadyReplicaCountForReplicaSets :: "replicaSet option list \<Rightarrow> int" where
  "GetReadyReplicaCountForReplicaSets replicaSets = sum32 (map rs_ReadyReplicas (non_nil replicaSets))"

definition GetAvailableReplicaCountForReplicaSets :: "replicaSet option list \<Rightarrow> int" where
  "GetAvailableReplicaCountForReplicaSets replicaSets =
     sum32 (map rs_AvailableReplicas (non_nil replicaSets))"

definition HasProgressDeadline :: "deployment \<Rightarrow> bool" where
  "HasProgressDeadline d = (case dep_ProgressDeadlineSeconds d of None \<Rightarrow> False | Some n \<Rightarrow> n \<noteq> MaxInt32)"

definition HasRevisionHistoryLimit :: "deployment \<Rightarrow> bool" where
  "HasRevisionHistoryLimit d = (case dep_RevisionHistoryLimit d of None \<Rightarrow> False | Some n \<Rightarrow> n \<noteq> MaxInt32)"

definition DeploymentComplete :: "deployment \<Rightarrow> deploymentStatus \<Rightarrow> bool res" where
  "DeploymentComplete d newStatus =
     bindR (deref ''Replicas'' (dep_Replicas d)) (\<lambda>replicas.
     Inr (ds_UpdatedReplicas newStatus = replicas \<and> ds_Replicas newStatus = replicas \<and>
          ds_AvailableReplicas newStatus = replicas \<and>
          ds_ObservedGeneration newStatus \<ge> meta_Generation (dep_Meta d)))"

definition DeploymentProgressing :: "deployment \<Rightarrow> deploymentStatus \<Rightarrow> bool" where
  "DeploymentProgressing d newStatus =
     (let oldStatus = dep_Status d;
          oldStatusOldReplicas = wrap32 (ds_Replicas oldStatus - ds_UpdatedReplicas oldStatus);
          newStatusOldReplicas = wrap32 (ds_Replicas newStatus - ds_UpdatedReplicas newStatus)
      in ds_UpdatedReplicas newStatus > ds_UpdatedReplicas oldStatus
         \<or> newStatusOldReplicas < oldStatusOldReplicas
         \<or> ds_ReadyReplicas newStatus > ds_ReadyReplicas oldStatus
         \<or> ds_AvailableReplicas newStatus > ds_AvailableReplicas oldStatus)"

definition DeploymentTimedOut :: "time \<Rightarrow> deployment \<Rightarrow> deploymentStatus \<Rightarrow> bool" where
  "DeploymentTimedOut now d newStatus =
     (case dep_ProgressDeadlineSeconds d of
        None \<Rightarrow> False
      | Some deadline \<Rightarrow>
         (if deadline = MaxInt32 then False
          else case GetDeploymentCondition newStatus DeploymentProgressingType of
              None \<Rightarrow> False
            | Some c \<Rightarrow>
               (if dcond_Reason c = ''NewReplicaSetAvailable'' then False
                else if dcond_Reason c = ''ProgressDeadlineExceeded'' then True
                else dcond_LastUpdateTime c + deadline * Second < now)))"

definition NewRSNewReplicas ::
    "lib \<Rightarrow> deployment \<Rightarrow> replicaSet option list \<Rightarrow> replicaSet \<Rightarrow> int res" where
  "NewRSNewReplicas L d allRSs newRS =
     (if dep_StrategyType d = RollingUpdateDeploymentStrategyType then
        bindR (deref ''RollingUpdate'' (dep_RollingUpdate d)) (\<lambda>ru.
        bindR (deref ''Replicas'' (dep_Replicas d)) (\<lambda>replicas.
        bindR (lib_GetScaledValue L (ru_MaxSurge ru) replicas True) (\<lambda>maxSurge.
        bindR (GetReplicaCountForReplicaSets allRSs) (\<lambda>currentPodCount.
        bindR (deref ''rs.Spec.Replicas'' (rs_Replicas newRS)) (\<lambda>size.
        let maxTotalPods = wrap32 (replicas + wrap32 maxSurge)
        in if currentPodCount \<ge> maxTotalPods then Inr size
           else let scaleUpCount = min (wrap32 (maxTotalPods - currentPodCount)) (wrap32 (replicas - size))
                in Inr (wrap32 (size + scaleUpCount)))))))
      else if dep_StrategyType d = RecreateDeploymentStrategyType then deref ''Replicas'' (dep_Replicas d)
      else Inl (Errorf ''deployment type %v isn't supported'' [dep_StrategyType d]))"

definition IsSaturated :: "deployment \<Rightarrow> replicaSet option \<Rightarrow> bool res" where
  "IsSaturated d rs = (case rs of None \<Rightarrow> Inr False
     | Some r \<Rightarrow>
        (case ParseInt64 (smap_get (the_smap (rs_Annotations r)) DesiredReplicasAnnotation) of
           None \<Rightarrow> Inr False
         | Some desired \<Rightarrow>
            bindR (deref ''rs.Spec.Replicas'' (rs_Replicas r)) (\<lambda>size.
            bindR (deref ''Replicas'' (dep_Replicas d)) (\<lambda>replicas.
            Inr (size = replicas \<and> wrap32 desired = replicas \<and> rs_AvailableReplicas r = replicas)))))"

definition ReplicaSetsByRevision :: "replicaSet \<Rightarrow> replicaSet \<Rightarrow> bool" where
  "ReplicaSetsByRevision a b = (case (Revision a, Revision b) of
     (Some r1, Some r2) \<Rightarrow> (if r1 = r2 then ReplicaSetsByCreationTimestamp a b else r1 < r2)
   | _ \<Rightarrow> ReplicaSetsByCreationTimestamp a b)"

section \<open>Properties of the helpers\<close>

text \<open>
  C20. A list of ReplicaSets is split into the new one and the old ones: with distinct UIDs every
  ReplicaSet is exactly one of them, the new one has the template of the Deployment up to the hash label, and no
  ReplicaSet with that template was created before it.
\<close>

theorem FindNew_FindOld_partition:
  assumes "distinct (map rs_UID rsList)" and "FindOldReplicaSets L d rsList = Inr (required, allOld)"
  shows "mset rsList = mset allOld + mset (case FindNewReplicaSet L d rsList of None \<Rightarrow> [] | Some r \<Rightarrow> [r])
     \<and> mset required = filter_mset (\<lambda>rs. rs_Replicas rs \<noteq> Some 0) (mset allOld)
     \<and> (\<forall>r. FindNewReplicaSet L d rsList = Some r \<longrightarrow>
          EqualIgnoreHash L (rs_Template r) (dep_Template d)
          \<and> (\<forall>rs \<in> set rsList. EqualIgnoreHash L (rs_Template rs) (dep_Template d) \<longrightarrow>
               \<not> ReplicaSetsByCreationTimestamp rs r))"
proof -
  let ?sorted = "Sort ReplicaSetsByCreationTimestamp rsList"
  let ?P = "\<lambda>rs. EqualIgnoreHash L (rs_Template rs) (dep_Template d)"
  have old: "allOld = filter (\<lambda>rs. \<not> (case FindNewReplicaSet L d rsList of None \<Rightarrow> False | Some r \<Rightarrow> rs_UID rs = rs_UID r)) ?sorted"
    and req: "required = filter (\<lambda>rs. rs_Replicas rs \<noteq> Some 0) allOld"
    using assms(2) by (auto simp: FindOldReplicaSets_def Let_def bindR_eq_Inr)
  have mset_req: "mset required = filter_mset (\<lambda>rs. rs_Replicas rs \<noteq> Some 0) (mset allOld)"
    by (simp add: req mset_filter)
  show ?thesis
  proof (cases "FindNewReplicaSet L d rsList")
    case None
    then have "mset allOld = mset rsList" by (simp add: old mset_filter)
    with None mset_req show ?thesis by simp
  next
    case (Some r)
    then obtain i where i: "i < length ?sorted" "?P (?sorted ! i)" "r = ?sorted ! i" "\<forall>j<i. \<not> ?P (?sorted ! j)"
      by (auto simp: FindNewReplicaSet_def find_Some_iff)
    then have r: "r \<in> set rsList" by (metis nth_mem set_Sort)
    have uid: "rs_UID rs = rs_UID r \<longleftrightarrow> rs = r" if "rs \<in> set rsList" for rs
      using assms(1) that r by (auto simp: distinct_map inj_on_def)
    have "mset allOld = filter_mset (\<lambda>rs. rs \<noteq> r) (mset rsList)"
      by (auto simp: old Some mset_filter uid intro!: filter_mset_cong)
    moreover have "count (mset rsList) r = 1"
      using assms(1) r distinct_count_atmost_1 [of rsList] by (simp add: distinct_map)
    ultimately have split: "mset rsList = mset allOld + {#r#}"
      by (intro multiset_eqI) (auto simp: count_eq_zero_iff)
    have "\<not> ReplicaSetsByCreationTimestamp rs r" if rs: "rs \<in> set rsList" and "?P rs" for rs
    proof -
      obtain j where j: "j < length ?sorted" "?sorted ! j = rs"
        using rs by (metis in_set_conv_nth set_Sort)
      with i \<open>?P rs\<close> have "i \<le> j" by (metis not_le)
      with i j show ?thesis
        using by_creation.sorted_Sort [of rsList] by_creation.less_asym [of rs rs]
        by (cases "i = j") (auto simp: sorted_wrt_iff_nth_less)
    qed
    with Some split mset_req i show ?thesis by auto
  qed
qed

definition dep0 :: deployment where
  "dep0 = \<lparr>dep_Meta = meta0 ''web'' ''uid-1'', dep_Replicas = Some 10, dep_Selector = None,
     dep_Template = \<lparr>pt_Labels = [(''app'', ''web'')], pt_Meta = [], pt_Spec = ''image:v2''\<rparr>,
     dep_StrategyType = RollingUpdateDeploymentStrategyType,
     dep_RollingUpdate = Some \<lparr>ru_MaxUnavailable = Some (FromString ''25%''), ru_MaxSurge = Some (FromString ''25%'')\<rparr>,
     dep_MinReadySeconds = 0, dep_RevisionHistoryLimit = Some 10, dep_Paused = False,
     dep_ProgressDeadlineSeconds = Some 600, dep_Status = empty_deploymentStatus\<rparr>"

theorem FindNew_FindOld_partition_witness:
  "\<exists>required allOld. FindOldReplicaSets ref_lib dep0 [rs0 ''v1'' 3, rs0 ''v2'' 0] = Inr (required, allOld)
     \<and> mset [rs0 ''v1'' 3, rs0 ''v2'' 0] = mset allOld + {#rs0 ''v2'' 0#}"
proof -
  let ?l = "[rs0 ''v1'' 3, rs0 ''v2'' 0]"
  have new: "FindNewReplicaSet ref_lib dep0 ?l = Some (rs0 ''v2'' 0)" by code_simp
  have "\<exists>p. FindOldReplicaSets ref_lib dep0 ?l = Inr p"
    by (simp add: FindOldReplicaSets_def Let_def new Sort_def rs0_def ReplicaSetsByCreationTimestamp_def meta0_def bindR_def)
  then obtain required allOld where old: "FindOldReplicaSets ref_lib dep0 ?l = Inr (required, allOld)" by auto
  have "distinct (map rs_UID ?l)" by (simp add: rs0_def meta0_def)
  from FindNew_FindOld_partition [OF this old] old show ?thesis by (auto simp: new)
qed

text \<open>
  C21. Conditions stay unique per type: setting one keeps the types distinct, afterwards the
  condition of its type has the new status and reason, every other type keeps its condition, and the
  transition time moves only when the status does.
\<close>

theorem SetDeploymentCondition_sets:
  assumes "distinct (map dcond_Type (ds_Conditions st))"
  shows "distinct (map dcond_Type (ds_Conditions (SetDeploymentCondition st c)))
     \<and> (\<exists>c'. GetDeploymentCondition (SetDeploymentCondition st c) (dcond_Type c) = Some c'
          \<and> dcond_Status c' = dcond_Status c \<and> dcond_Reason c' = dcond_Reason c
          \<and> (\<forall>b. GetDeploymentCondition st (dcond_Type c) = Some b \<longrightarrow> dcond_Status b = dcond_Status c \<longrightarrow>
               dcond_LastTransitionTime c' = dcond_LastTransitionTime b))
     \<and> (\<forall>t. t \<noteq> dcond_Type c \<longrightarrow> GetDeploymentCondition (SetDeploymentCondition st c) t = GetDeploymentCondition st t)"
proof -
  have other: "find (\<lambda>x. dcond_Type x = t) (filterOutCondition cs (dcond_Type c) @ [c']) = find (\<lambda>x. dcond_Type x = t) cs"
    if "t \<noteq> dcond_Type c" "dcond_Type c' = dcond_Type c" for t c' cs
    using that by (induction cs) (auto simp: filterOutCondition_def)
  have same: "find (\<lambda>x. dcond_Type x = dcond_Type c) (filterOutCondition cs (dcond_Type c) @ [c']) = Some c'"
    if "dcond_Type c' = dcond_Type c" for c' cs
    using that by (induction cs) (auto simp: filterOutCondition_def)
  have dist: "distinct (map dcond_Type (filterOutCondition (ds_Conditions st) (dcond_Type c) @ [c']))"
    if "dcond_Type c' = dcond_Type c" for c'
    using assms that by (auto simp: filterOutCondition_def distinct_map_filter)
  show ?thesis
    using assms by (auto simp: SetDeploymentCondition_def GetDeploymentCondition_def Let_def other same
        dist [simplified] split: option.splits)
qed

theorem SetDeploymentCondition_sets_witness:
  "\<exists>c'. GetDeploymentCondition (SetDeploymentCondition empty_deploymentStatus
       (NewDeploymentCondition 7 ''Available'' ''True'' ''Min'' [])) ''Available'' = Some c' \<and> dcond_Status c' = ''True''"
  using SetDeploymentCondition_sets [of empty_deploymentStatus "NewDeploymentCondition 7 ''Available'' ''True'' ''Min'' []"]
  by (auto simp: empty_deploymentStatus_def NewDeploymentCondition_def)

text \<open>
  The fenceposts of a rolling update given as percentages: the surge is rounded up, the
  unavailability down, neither exceeds the desired count, and they are never both zero, for then one pod may
  be unavailable.
\<close>

lemma ResolveFenceposts_percent:
  assumes "scaled_value_spec (lib_GetScaledValue L)" and "0 \<le> p" and "p \<le> 100" and "0 \<le> q" and "q \<le> 100"
    and "0 \<le> desired" and "in_i32 desired"
  shows "\<exists>surge unavailable.
     ResolveFenceposts L (Some (FromString (FormatInt p @ ''%''))) (Some (FromString (FormatInt q @ ''%''))) desired
       = Inr (surge, unavailable)
     \<and> p * desired \<le> 100 * surge \<and> 100 * surge < p * desired + 100 \<and> surge \<le> desired
     \<and> unavailable = (if surge = 0 \<and> q * desired < 100 then 1 else q * desired div 100)
     \<and> unavailable \<le> max 1 desired \<and> (surge \<noteq> 0 \<or> unavailable \<noteq> 0)"
proof -
  have pq: "0 \<le> p * desired" "p * desired \<le> 100 * desired" "0 \<le> q * desired" "q * desired \<le> 100 * desired"
    using assms(2-6) by (simp_all add: mult_right_mono)
  define surge where "surge = percent_of p desired True"
  define un where "un = percent_of q desired False"
  have surge: "p * desired \<le> 100 * surge" "100 * surge < p * desired + 100"
    by (simp_all add: surge_def percent_of_def)
  have un: "100 * un \<le> q * desired" "q * desired < 100 * un + 100" "un = q * desired div 100"
    by (simp_all add: un_def percent_of_def)
  have r: "0 \<le> surge" "surge \<le> desired" "0 \<le> un" "un \<le> desired" using surge un(1,2) pq by linarith+
  then have "in_i32 surge" "in_i32 un" using assms(7) unfolding in_i32_def by linarith+
  then have "ResolveFenceposts L (Some (FromString (FormatInt p @ ''%''))) (Some (FromString (FormatInt q @ ''%''))) desired
       = Inr (surge, if surge = 0 \<and> un = 0 then 1 else un)"
    using scaled_value_specD(2) [OF assms(1-3,7), of True] scaled_value_specD(2) [OF assms(1,4,5,7), of False]
    by (simp add: ResolveFenceposts_def ValueOrDefault_def surge_def un_def)
  moreover have "un = 0 \<longleftrightarrow> q * desired < 100" using un(1,2) pq(3) by linarith
  ultimately show ?thesis using surge un(3) r by auto
qed

text \<open>
  C22. The size of the new ReplicaSet respects the surge: scaling it to the answer brings the total
  at most to the desired count plus the surge (or leaves it where it is above), never takes it past the desired
  count, and never shrinks it below the smaller of its size and the desired count.
\<close>

theorem NewRSNewReplicas_within_surge:
  assumes "dep_StrategyType d = RollingUpdateDeploymentStrategyType" and "dep_RollingUpdate d = Some ru"
    and "dep_Replicas d = Some n" and "0 \<le> n"
    and "lib_GetScaledValue L (ru_MaxSurge ru) n True = Inr surge" and "0 \<le> surge" and "in_i32 (n + surge)"
    and "GetReplicaCountForReplicaSets allRSs = Inr current" and "in_i32 current"
    and "rs_Replicas newRS = Some k" and "0 \<le> k" and "k \<le> current"
  shows "\<exists>m. NewRSNewReplicas L d allRSs newRS = Inr m \<and> current - k + m \<le> max current (n + surge)
     \<and> m \<le> max k n \<and> min k n \<le> m
     \<and> (current < n + surge \<longrightarrow> m = n \<or> current - k + m = n + surge)"
proof (cases "n + surge \<le> current")
  case True
  then show ?thesis
    using assms by (auto simp: NewRSNewReplicas_def Let_def in_i32_def)
next
  case False
  have "in_i32 surge" "in_i32 (n + surge - current)" "in_i32 (n - k)" "in_i32 (k + min (n + surge - current) (n - k))"
    using assms(4,6,7,9,11,12) False unfolding in_i32_def by linarith+
  with False show ?thesis
    using assms by (auto simp: NewRSNewReplicas_def Let_def)
qed

theorem NewRSNewReplicas_within_surge_witness:
  "\<exists>m. NewRSNewReplicas ref_lib dep0 [Some (rs0 ''v1'' 10), Some (rs0 ''v2'' 1)] (rs0 ''v2'' 1) = Inr m \<and> 10 + m \<le> 13"
proof -
  have "lib_GetScaledValue ref_lib (Some (FromString ''25%'')) 10 True = Inr 3" by code_simp
  moreover have "GetReplicaCountForReplicaSets [Some (rs0 ''v1'' 10), Some (rs0 ''v2'' 1)] = Inr 11" by code_simp
  ultimately show ?thesis
  using NewRSNewReplicas_within_surge [of dep0 "\<lparr>ru_MaxUnavailable = Some (FromString ''25%''), ru_MaxSurge = Some (FromString ''25%'')\<rparr>"
      10 ref_lib 3 "[Some (rs0 ''v1'' 10), Some (rs0 ''v2'' 1)]" 11 "rs0 ''v2'' 1" 1]
    by (auto simp: dep0_def rs0_def in_i32_def)
qed

text \<open>The length that \<open>trimRevisions\<close> keeps track of is that of the joined history.\<close>

lemma trimRevisions_total:
  "trimRevisions limit (int (sum_list (map length rs) + length rs) + c) rs = (t, kept) \<Longrightarrow>
   t = int (sum_list (map length kept) + length kept) + c"
proof (induction rs)
  case (Cons r rs)
  have "int (sum_list (map length (r # rs)) + length (r # rs)) + c - int (length r) - 1
      = int (sum_list (map length rs) + length rs) + c" by simp
  with Cons show ?case by (auto simp: ac_simps split: if_splits)
qed simp

text \<open>
  The revision history of a ReplicaSet stays within its limit: after the previous revision is
  appended, with older ones dropped from the front, the annotation is at most \<open>limit\<close> characters long, if it
  was before and the revision itself fits.
\<close>

lemma appendRevision_bounded:
  assumes "int (length (smap_get a RevisionHistoryAnnotation)) \<le> limit" and "int (length oldRevision) \<le> limit"
  shows "int (length (smap_get (appendRevision limit oldRevision a) RevisionHistoryAnnotation)) \<le> limit"
proof -
  let ?h = "smap_get a RevisionHistoryAnnotation"
  let ?revs = "Split CHR '','' ?h"
  obtain t kept where trim: "trimRevisions limit (int (length ?h) + int (length oldRevision) + 1) ?revs = (t, kept)"
    by fastforce
  have "length ?h + 1 = sum_list (map length ?revs) + length ?revs"
    using length_Join [of ?revs "CHR '',''"] by (simp add: Join_Split Suc_leI)
  then have "int (length ?h) + int (length oldRevision) + 1
      = int (sum_list (map length ?revs) + length ?revs) + int (length oldRevision)" by linarith
  with trim have "t = int (sum_list (map length kept) + length kept) + int (length oldRevision)"
    by (simp only: trimRevisions_total)
  then have "t = int (length (Join CHR '','' (kept @ [oldRevision])))"
    by (simp add: length_Join)
  then show ?thesis using assms trim by (simp add: appendRevision_def Let_def)
qed

end
