(* ===== verification/Deployment_Sync.thy ===== *)
theory Deployment_Sync
  imports Deployment_Util
begin

text \<open>
  The forked Deployment controller's reconcile primitives,
  \<open>_forkedfrom_k8s/sync.go\<close> (with the wrappers of \<open>headless.go\<close>, which only rename them): finding or
  creating the new ReplicaSet, scaling one or all ReplicaSets, pruning the revision history and
  computing the status. A definition takes the libraries \<open>L\<close> and the cluster \<open>V\<close> in place of the
  receiver; a handler that mutates its Deployment returns it.
\<close>

abbreviation maxRevHistoryLengthInChars :: int where
  "maxRevHistoryLengthInChars \<equiv> 2000"

abbreviation dep_Namespace :: "deployment \<Rightarrow> string" where
  "dep_Namespace d \<equiv> meta_Namespace (dep_Meta d)"

abbreviation dep_Name :: "deployment \<Rightarrow> string" where
  "dep_Name d \<equiv> meta_Name (dep_Meta d)"

section \<open>Scaling one ReplicaSet\<close>

definition scaleReplicaSet ::
    "lib \<Rightarrow> 'w env \<Rightarrow> replicaSet \<Rightarrow> int \<Rightarrow> deployment \<Rightarrow> string \<Rightarrow> ('w, bool \<times> replicaSet) io" where
  "scaleReplicaSet L V rs newScale d scalingOperation =
     bindE (liftE (deref ''rs.Spec.Replicas'' (rs_Replicas rs))) (\<lambda>oldScale.
     bindE (liftE (deref ''Replicas'' (dep_Replicas d))) (\<lambda>replicas.
     bindE (liftE (maxReplicas L d)) (\<lambda>mx.
     let sizeNeedsUpdate = (oldScale \<noteq> newScale);
         annotationsNeedUpdate = ReplicasAnnotationsNeedUpdate rs replicas mx
     in if sizeNeedsUpdate \<or> annotationsNeedUpdate then
          let rsCopy = snd (SetReplicasAnnotations (rs\<lparr>rs_Replicas := Some newScale\<rparr>) replicas mx)
          in bindE (updateReplicaSet V (meta_Namespace (rs_Meta rs)) rsCopy) (\<lambda>rs'.
             if sizeNeedsUpdate then
               bindE (eventf ''Normal'' ''ScalingReplicaSet''
                 (sprintf ''Scaled %s replica set %s to %d from %d''
                   [scalingOperation, rs_Name rs', FormatInt newScale, FormatInt oldScale])) (\<lambda>_.
               returnE (True, rs'))
             else returnE (False, rs'))
        else returnE (False, rs))))"

definition scaleReplicaSetAndRecordEvent ::
    "lib \<Rightarrow> 'w env \<Rightarrow> replicaSet \<Rightarrow> int \<Rightarrow> deployment \<Rightarrow> ('w, bool \<times> replicaSet) io" where
  "scaleReplicaSetAndRecordEvent L V rs newScale d =
     bindE (liftE (deref ''rs.Spec.Replicas'' (rs_Replicas rs))) (\<lambda>size.
     if size = newScale then returnE (False, rs)
     else scaleReplicaSet L V rs newScale d (if size < newScale then ''up'' else ''down''))"

section \<open>The new ReplicaSet\<close>

definition newControllerRef :: "deployment \<Rightarrow> ownerReference" where
  "newControllerRef d = \<lparr>owner_APIVersion = ''apps/v1'', owner_Kind = ''Deployment'',
     owner_Name = dep_Name d, owner_UID = meta_UID (dep_Meta d), owner_Controller = Some True,
     owner_BlockOwnerDeletion = Some True\<rparr>"

text \<open>The object of \<open>getNewReplicaSet\<close> before its replica count and annotations are set.\<close>

definition newReplicaSetObject :: "lib \<Rightarrow> deployment \<Rightarrow> replicaSet res" where
  "newReplicaSetObject L d =
     (let hash = ComputeHash L (dep_Template d) (ds_CollisionCount (dep_Status d));
          labels = CloneAndAddLabel (pt_Labels (dep_Template d)) DefaultDeploymentUniqueLabelKey hash
      in bindR (CloneSelectorAndAddLabel (dep_Selector d) DefaultDeploymentUniqueLabelKey hash) (\<lambda>selector.
         Inr \<lparr>rs_Meta = \<lparr>meta_Name = dep_Name d @ ''-'' @ hash, meta_Namespace = dep_Namespace d,
                meta_UID = [], meta_ResourceVersion = [], meta_Generation = 0,
                meta_CreationTimestamp = 0, meta_DeletionTimestamp = None, meta_Labels = labels,
                meta_Annotations = None, meta_OwnerReferences = [newControllerRef d]\<rparr>,
              rs_Replicas = Some 0, rs_MinReadySeconds = dep_MinReadySeconds d, rs_Selector = selector,
              rs_Template = (dep_Template d)\<lparr>pt_Labels := labels\<rparr>,
              rs_StatusReplicas = 0, rs_ReadyReplicas = 0, rs_AvailableReplicas = 0,
              rs_ObservedGeneration = 0, rs_Conditions = []\<rparr>))"

definition setProgressing :: "time \<Rightarrow> string \<Rightarrow> string \<Rightarrow> string \<Rightarrow> deployment \<Rightarrow> deployment" where
  "setProgressing now status reason msg d =
     d\<lparr>dep_Status := SetDeploymentCondition (dep_Status d)
        (NewDeploymentCondition now DeploymentProgressingType status reason msg)\<rparr>"

text \<open>The branch of an existing new ReplicaSet (\<open>existingNewRS != nil\<close>).\<close>

definition syncExistingRS ::
    "lib \<Rightarrow> 'w env \<Rightarrow> deployment \<Rightarrow> replicaSet \<Rightarrow> string \<Rightarrow> ('w, replicaSet \<times> deployment) io" where
  "syncExistingRS L V d existingNewRS newRevision =
     bindE (liftE (SetNewReplicaSetAnnotations L d existingNewRS newRevision True
       maxRevHistoryLengthInChars)) (\<lambda>(annotationsUpdated, rsCopy).
     if annotationsUpdated \<or> rs_MinReadySeconds rsCopy \<noteq> dep_MinReadySeconds d then
       bindE (updateReplicaSet V (meta_Namespace (rs_Meta rsCopy))
         (rsCopy\<lparr>rs_MinReadySeconds := dep_MinReadySeconds d\<rparr>)) (\<lambda>rs'. returnE (rs', d))
     else
       let (needsUpdate, d1) =
             SetDeploymentRevision d (smap_get (the_smap (rs_Annotations rsCopy)) RevisionAnnotation);
           estimate = (HasProgressDeadline d1 \<and>
             GetDeploymentCondition (dep_Status d1) DeploymentProgressingType = None)
       in bindE (if estimate then
                   bindE (timeNow V) (\<lambda>now. returnE (setProgressing now ''True'' ''FoundNewReplicaSet''
                     (sprintf ''Found new replica set %q'' [rs_Name rsCopy]) d1))
                 else returnE d1) (\<lambda>d2.
          if needsUpdate \<or> estimate then
            bindE (updateDeploymentStatus V (dep_Namespace d2) d2) (\<lambda>_. returnE (rsCopy, d2))
          else returnE (rsCopy, d2)))"

text \<open>The end of the creating branch: the event, the revision and the Progressing condition.\<close>

definition finishCreate ::
    "'w env \<Rightarrow> deployment \<Rightarrow> replicaSet \<Rightarrow> bool \<Rightarrow> int \<Rightarrow> string \<Rightarrow> ('w, replicaSet \<times> deployment) io" where
  "finishCreate V d createdRS alreadyExists newReplicasCount newRevision =
     bindE (if \<not> alreadyExists \<and> newReplicasCount > 0 then
              eventf ''Normal'' ''ScalingReplicaSet'' (sprintf ''Scaled up replica set %s to %d''
                [rs_Name createdRS, FormatInt newReplicasCount])
            else returnE ()) (\<lambda>_.
     let (needsUpdate, d1) = SetDeploymentRevision d newRevision;
         created = (\<not> alreadyExists \<and> HasProgressDeadline d1)
     in bindE (if created then
                 bindE (timeNow V) (\<lambda>now. returnE (setProgressing now ''True'' ''NewReplicaSetCreated''
                   (sprintf ''Created new replica set %q'' [rs_Name createdRS]) d1))
               else returnE d1) (\<lambda>d2.
        if needsUpdate \<or> created then
          bindE (updateDeploymentStatus V (dep_Namespace d2) d2) (\<lambda>_. returnE (createdRS, d2))
        else returnE (createdRS, d2)))"

text \<open>The three error branches of the create.\<close>

definition createConflict ::
    "lib \<Rightarrow> 'w env \<Rightarrow> deployment \<Rightarrow> replicaSet \<Rightarrow> error \<Rightarrow> int \<Rightarrow> string \<Rightarrow> ('w, replicaSet \<times> deployment) io" where
  "createConflict L V d newRS err newReplicasCount newRevision =
     bindE (getReplicaSet V (meta_Namespace (rs_Meta newRS)) (rs_Name newRS)) (\<lambda>rs.
     if (case GetControllerOf (rs_Meta rs) of None \<Rightarrow> False
         | Some controllerRef \<Rightarrow> owner_UID controllerRef = meta_UID (dep_Meta d)) \<and>
        EqualIgnoreHash L (dep_Template d) (rs_Template rs)
     then finishCreate V d rs True newReplicasCount newRevision
     else
       let preCollisionCount = (case ds_CollisionCount (dep_Status d) of None \<Rightarrow> 0 | Some c \<Rightarrow> c);
           d' = d\<lparr>dep_Status := (dep_Status d)\<lparr>ds_CollisionCount := Some (wrap32 (preCollisionCount + 1))\<rparr>\<rparr>
       in bindE (tryE (updateDeploymentStatus V (dep_Namespace d') d')) (\<lambda>_. failE err))"

definition createFailed :: "'w env \<Rightarrow> deployment \<Rightarrow> replicaSet \<Rightarrow> error \<Rightarrow> ('w, replicaSet \<times> deployment) io" where
  "createFailed V d newRS err =
     (let msg = sprintf ''Failed to create new replica set %q: %v'' [rs_Name newRS, error_text err]
      in bindE (if HasProgressDeadline d then
                  bindE (timeNow V) (\<lambda>now.
                  let d' = setProgressing now ''False'' ''ReplicaSetCreateError'' msg d
                  in bindE (tryE (updateDeploymentStatus V (dep_Namespace d') d')) (\<lambda>_. returnE ()))
                else returnE ()) (\<lambda>_.
         bindE (eventf ''Warning'' ''ReplicaSetCreateError'' msg) (\<lambda>_. failE err)))"

definition createNewRS ::
    "lib \<Rightarrow> 'w env \<Rightarrow> deployment \<Rightarrow> replicaSet list \<Rightarrow> string \<Rightarrow> ('w, replicaSet \<times> deployment) io" where
  "createNewRS L V d oldRSs newRevision =
     bindE (liftE (newReplicaSetObject L d)) (\<lambda>newRS0.
     bindE (liftE (NewRSNewReplicas L d (map Some oldRSs @ [Some newRS0]) newRS0)) (\<lambda>newReplicasCount.
     bindE (liftE (SetNewReplicaSetAnnotations L d (newRS0\<lparr>rs_Replicas := Some newReplicasCount\<rparr>)
       newRevision False maxRevHistoryLengthInChars)) (\<lambda>(changed, newRS).
     bindE (tryE (createReplicaSet V (dep_Namespace d) newRS)) (\<lambda>r. case r of
         Inr createdRS \<Rightarrow> finishCreate V d createdRS False newReplicasCount newRevision
       | Inl err \<Rightarrow>
          (if IsAlreadyExists err then createConflict L V d newRS err newReplicasCount newRevision
           else if ''NamespaceTerminating'' \<in> set (error_causes err) then failE err
           else createFailed V d newRS err)))))"

definition getNewReplicaSet ::
    "lib \<Rightarrow> 'w env \<Rightarrow> deployment \<Rightarrow> replicaSet list \<Rightarrow> replicaSet list \<Rightarrow> bool \<Rightarrow>
     ('w, replicaSet option \<times> deployment) io" where
  "getNewReplicaSet L V d rsList oldRSs createIfNotExisted =
     (let newRevision = FormatInt (wrap64 (MaxRevision oldRSs + 1)) in
      case FindNewReplicaSet L d rsList of
        Some existingNewRS \<Rightarrow>
          bindE (syncExistingRS L V d existingNewRS newRevision) (\<lambda>(rs, d'). returnE (Some rs, d'))
      | None \<Rightarrow>
          (if \<not> createIfNotExisted then returnE (None, d)
           else bindE (createNewRS L V d oldRSs newRevision) (\<lambda>(rs, d'). returnE (Some rs, d'))))"

definition getAllReplicaSetsAndSyncRevision ::
    "lib \<Rightarrow> 'w env \<Rightarrow> deployment \<Rightarrow> replicaSet list \<Rightarrow> bool \<Rightarrow>
     ('w, replicaSet option \<times> replicaSet list \<times> deployment) io" where
  "getAllReplicaSetsAndSyncRevision L V d rsList createIfNotExisted =
     bindE (liftE (FindOldReplicaSets L d rsList)) (\<lambda>(required, allOldRSs).
     bindE (getNewReplicaSet L V d rsList allOldRSs createIfNotExisted) (\<lambda>(newRS, d').
     returnE (newRS, allOldRSs, d')))"

section \<open>Scaling all ReplicaSets\<close>

text \<open>
  The proportional branch: the sizes per name (\<open>nameToSize\<close>) and the replicas handed out so far,
  then the leftover for the first ReplicaSet.
\<close>

fun proportions ::
    "lib \<Rightarrow> deployment \<Rightarrow> int \<Rightarrow> int \<Rightarrow> (string \<times> int) list \<Rightarrow> replicaSet list \<Rightarrow> (int \<times> (string \<times> int) list) res" where
  "proportions L d toAdd added nameToSize [] = Inr (added, nameToSize)"
| "proportions L d toAdd added nameToSize (rs # rss) =
     bindR (deref ''rs.Spec.Replicas'' (rs_Replicas rs)) (\<lambda>size.
     if toAdd \<noteq> 0 then
       bindR (GetProportion L rs d toAdd added) (\<lambda>proportion.
       proportions L d toAdd (wrap32 (added + proportion))
         (AList.update (rs_Name rs) (wrap32 (size + proportion)) nameToSize) rss)
     else proportions L d toAdd added (AList.update (rs_Name rs) size nameToSize) rss)"

definition sizeOf :: "(string \<times> int) list \<Rightarrow> string \<Rightarrow> int" where
  "sizeOf m name = (case map_of m name of None \<Rightarrow> 0 | Some n \<Rightarrow> n)"

definition addLeftover ::
    "int \<Rightarrow> int \<Rightarrow> (string \<times> int) list \<Rightarrow> replicaSet list \<Rightarrow> (string \<times> int) list" where
  "addLeftover toAdd added nameToSize allRSs = (case allRSs of [] \<Rightarrow> nameToSize
     | rs # _ \<Rightarrow>
        (if toAdd \<noteq> 0 then
           let v = wrap32 (sizeOf nameToSize (rs_Name rs) + wrap32 (toAdd - added))
           in AList.update (rs_Name rs) (if v < 0 then 0 else v) nameToSize
         else nameToSize))"

definition scaleProportionally ::
    "lib \<Rightarrow> 'w env \<Rightarrow> deployment \<Rightarrow> replicaSet list \<Rightarrow> ('w, unit) io" where
  "scaleProportionally L V d allRSs =
     bindE (liftE (GetReplicaCountForReplicaSets (map Some allRSs))) (\<lambda>allRSsReplicas.
     bindE (liftE (deref ''Replicas'' (dep_Replicas d))) (\<lambda>replicas.
     bindE (liftE (if replicas > 0 then maxReplicas L d else Inr 0)) (\<lambda>allowedSize.
     let toAdd = wrap32 (allowedSize - allRSsReplicas);
         sorted = (if toAdd > 0 then Sort ReplicaSetsBySizeNewer allRSs
                   else if toAdd < 0 then Sort ReplicaSetsBySizeOlder allRSs else allRSs);
         scalingOperation = (if toAdd > 0 then ''up'' else if toAdd < 0 then ''down'' else [])
     in bindE (liftE (proportions L d toAdd 0 [] sorted)) (\<lambda>(added, nameToSize).
        let sizes = addLeftover toAdd added nameToSize sorted
        in forE sorted (\<lambda>rs.
             bindE (scaleReplicaSet L V rs (sizeOf sizes (rs_Name rs)) d scalingOperation) (\<lambda>_.
             returnE ()))))))"

definition scale :: "lib \<Rightarrow> 'w env \<Rightarrow> deployment \<Rightarrow> replicaSet option \<Rightarrow> replicaSet list \<Rightarrow> ('w, unit) io" where
  "scale L V d newRS oldRSs =
     (let (activeOrLatest, sorted) = FindActiveOrLatest newRS oldRSs in
      case activeOrLatest of
        Some r \<Rightarrow>
          bindE (liftE (deref ''rs.Spec.Replicas'' (rs_Replicas r))) (\<lambda>size.
          bindE (liftE (deref ''Replicas'' (dep_Replicas d))) (\<lambda>replicas.
          if size = replicas then returnE ()
          else bindE (scaleReplicaSetAndRecordEvent L V r replicas d) (\<lambda>_. returnE ())))
      | None \<Rightarrow>
          bindE (liftE (IsSaturated d newRS)) (\<lambda>saturated.
          if saturated then
            forE (FilterActiveReplicaSets (map Some sorted)) (\<lambda>old.
              bindE (scaleReplicaSetAndRecordEvent L V old 0 d) (\<lambda>_. returnE ()))
          else if IsRollingUpdate d then
            scaleProportionally L V d (FilterActiveReplicaSets (map Some sorted @ [newRS]))
          else returnE ()))"

section \<open>Pruning the revision history\<close>

definition cleanupOne :: "'w env \<Rightarrow> replicaSet \<Rightarrow> ('w, unit) io" where
  "cleanupOne V rs =
     (if rs_StatusReplicas rs \<noteq> 0 then returnE ()
      else bindE (liftE (deref ''rs.Spec.Replicas'' (rs_Replicas rs))) (\<lambda>size.
        if size \<noteq> 0 \<or> meta_Generation (rs_Meta rs) > rs_ObservedGeneration rs
           \<or> meta_DeletionTimestamp (rs_Meta rs) \<noteq> None
        then returnE ()
        else bindE (tryE (deleteReplicaSet V (meta_Namespace (rs_Meta rs)) (rs_Name rs))) (\<lambda>r. case r of
            Inl err \<Rightarrow> (if IsNotFound err then returnE () else failE err)
          | Inr _ \<Rightarrow> returnE ())))"

definition cleanupDeployment :: "'w env \<Rightarrow> replicaSet list \<Rightarrow> deployment \<Rightarrow> ('w, unit) io" where
  "cleanupDeployment V oldRSs d =
     (if \<not> HasRevisionHistoryLimit d then returnE ()
      else
        let cleanableRSes = filter (\<lambda>rs. meta_DeletionTimestamp (rs_Meta rs) = None) oldRSs;
            limit = (case dep_RevisionHistoryLimit d of None \<Rightarrow> 0 | Some n \<Rightarrow> n);
            diff = wrap32 (wrap32 (int (length cleanableRSes)) - limit)
        in if diff \<le> 0 then returnE ()
           else let sorted = Sort ReplicaSetsByRevision cleanableRSes
                in bindE (forE (take (nat diff) sorted) (cleanupOne V)) (\<lambda>_.
                   if diff > int (length sorted) then failE (IndexOutOfRange ''cleanableRSes'')
                   else returnE ()))"

section \<open>Status\<close>

definition calculateStatus ::
    "lib \<Rightarrow> time \<Rightarrow> replicaSet option list \<Rightarrow> replicaSet option \<Rightarrow> deployment \<Rightarrow> deploymentStatus res" where
  "calculateStatus L now allRSs newRS d =
     (let availableReplicas = GetAvailableReplicaCountForReplicaSets allRSs in
      bindR (GetReplicaCountForReplicaSets allRSs) (\<lambda>totalReplicas.
      bindR (deref ''Replicas'' (dep_Replicas d)) (\<lambda>replicas.
      bindR (MaxUnavailable L d) (\<lambda>maxUnavailable.
      let unavailableReplicas = wrap32 (totalReplicas - availableReplicas);
          status = \<lparr>ds_ObservedGeneration = meta_Generation (dep_Meta d),
            ds_Replicas = GetActualReplicaCountForReplicaSets allRSs,
            ds_UpdatedReplicas = GetActualReplicaCountForReplicaSets [newRS],
            ds_ReadyReplicas = GetReadyReplicaCountForReplicaSets allRSs,
            ds_AvailableReplicas = availableReplicas,
            ds_UnavailableReplicas = (if unavailableReplicas < 0 then 0 else unavailableReplicas),
            ds_Conditions = ds_Conditions (dep_Status d),
            ds_CollisionCount = ds_CollisionCount (dep_Status d)\<rparr>
      in Inr (SetDeploymentCondition status
           (if availableReplicas \<ge> wrap32 (replicas - maxUnavailable)
            then NewDeploymentCondition now DeploymentAvailableType ''True'' ''MinimumReplicasAvailable''
              ''Deployment has minimum availability.''
            else NewDeploymentCondition now DeploymentAvailableType ''False'' ''MinimumReplicasUnavailable''
              ''Deployment does not have minimum availability.''))))))"

definition syncDeploymentStatus ::
    "lib \<Rightarrow> 'w env \<Rightarrow> replicaSet option list \<Rightarrow> replicaSet option \<Rightarrow> deployment \<Rightarrow> ('w, unit) io" where
  "syncDeploymentStatus L V allRSs newRS d =
     bindE (timeNow V) (\<lambda>now.
     bindE (liftE (calculateStatus L now allRSs newRS d)) (\<lambda>newStatus.
     if dep_Status d = newStatus then returnE ()
     else updateDeploymentStatus V (dep_Namespace d) (d\<lparr>dep_Status := newStatus\<rparr>)))"

section \<open>The Deployment's own handlers\<close>

definition getRollbackTo :: "deployment \<Rightarrow> int option" where
  "getRollbackTo d = (let revision = smap_get (the_smap (dep_Annotations d)) DeprecatedRollbackTo in
     if revision = [] then None else ParseInt64 revision)"

definition setRollbackTo :: "deployment \<Rightarrow> int option \<Rightarrow> deployment" where
  "setRollbackTo d rollbackTo = (case rollbackTo of
     None \<Rightarrow> dep_set_Annotations (case dep_Annotations d of None \<Rightarrow> None
               | Some a \<Rightarrow> Some (smap_del DeprecatedRollbackTo a)) d
   | Some r \<Rightarrow> dep_set_Annotations
       (Some (smap_set DeprecatedRollbackTo (FormatInt r) (the_smap (dep_Annotations d)))) d)"

definition syncStatusOnly :: "lib \<Rightarrow> 'w env \<Rightarrow> deployment \<Rightarrow> replicaSet list \<Rightarrow> ('w, unit) io" where
  "syncStatusOnly L V d rsList =
     bindE (getAllReplicaSetsAndSyncRevision L V d rsList False) (\<lambda>(newRS, oldRSs, d').
     syncDeploymentStatus L V (map Some oldRSs @ [newRS]) newRS d')"

definition sync :: "lib \<Rightarrow> 'w env \<Rightarrow> deployment \<Rightarrow> replicaSet list \<Rightarrow> ('w, unit) io" where
  "sync L V d rsList =
     bindE (getAllReplicaSetsAndSyncRevision L V d rsList False) (\<lambda>(newRS, oldRSs, d').
     bindE (scale L V d' newRS oldRSs) (\<lambda>_.
     bindE (if dep_Paused d' \<and> getRollbackTo d' = None then cleanupDeployment V oldRSs d'
            else returnE ()) (\<lambda>_.
     syncDeploymentStatus L V (map Some oldRSs @ [newRS]) newRS d')))"

definition checkPausedConditions :: "'w env \<Rightarrow> deployment \<Rightarrow> ('w, deployment) io" where
  "checkPausedConditions V d =
     (if \<not> HasProgressDeadline d then returnE d
      else
        let cond = GetDeploymentCondition (dep_Status d) DeploymentProgressingType;
            timedOut = (case cond of None \<Rightarrow> False | Some c \<Rightarrow> dcond_Reason c = ''ProgressDeadlineExceeded'');
            pausedCondExists = (case cond of None \<Rightarrow> False | Some c \<Rightarrow> dcond_Reason c = ''DeploymentPaused'')
        in if timedOut then returnE d
           else if dep_Paused d = pausedCondExists then returnE d
           else bindE (timeNow V) (\<lambda>now.
             let d' = (if dep_Paused d
                       then setProgressing now ''Unknown'' ''DeploymentPaused'' ''Deployment is paused'' d
                       else setProgressing now ''Unknown'' ''DeploymentResumed'' ''Deployment is resumed'' d)
             in bindE (updateDeploymentStatus V (dep_Namespace d') d') (\<lambda>_. returnE d')))"

text \<open>The loop of \<open>isScalingEvent\<close> over the active ReplicaSets.\<close>

fun scalingEventIn :: "deployment \<Rightarrow> replicaSet list \<Rightarrow> bool res" where
  "scalingEventIn d [] = Inr False"
| "scalingEventIn d (rs # rss) = (case GetDesiredReplicasAnnotation rs of
     None \<Rightarrow> scalingEventIn d rss
   | Some desired \<Rightarrow> bindR (deref ''Replicas'' (dep_Replicas d)) (\<lambda>replicas.
       if desired \<noteq> replicas then Inr True else scalingEventIn d rss))"

definition isScalingEvent :: "lib \<Rightarrow> 'w env \<Rightarrow> deployment \<Rightarrow> replicaSet list \<Rightarrow> ('w, bool \<times> deployment) io" where
  "isScalingEvent L V d rsList =
     bindE (getAllReplicaSetsAndSyncRevision L V d rsList False) (\<lambda>(newRS, oldRSs, d').
     bindE (liftE (scalingEventIn d' (FilterActiveReplicaSets (map Some oldRSs @ [newRS])))) (\<lambda>b.
     returnE (b, d')))"

section \<open>What a scaling call does to the cluster\<close>

text \<open>
  \<open>scales rs n q\<close>: \<open>q\<close> is an update of \<open>rs\<close> to \<open>n\<close> replicas that changes nothing else but annotations, or
  an event.
\<close>

definition scales :: "replicaSet \<Rightarrow> int \<Rightarrow> request \<Rightarrow> bool" where
  "scales rs n q = (case q of
     UpdateReplicaSet ns rs' \<Rightarrow> ns = meta_Namespace (rs_Meta rs) \<and>
       rs_set_Annotations None rs' = rs_set_Annotations None (rs\<lparr>rs_Replicas := Some n\<rparr>)
   | Event t r m \<Rightarrow> True
   | _ \<Rightarrow> False)"

lemma scales_simps [simp]:
  "scales rs n (UpdateReplicaSet ns rs') \<longleftrightarrow> ns = meta_Namespace (rs_Meta rs) \<and>
     rs_set_Annotations None rs' = rs_set_Annotations None (rs\<lparr>rs_Replicas := Some n\<rparr>)"
  "scales rs n (Event t r m)"
  "\<not> scales rs n (UpdateRolloutStatus ro)" "\<not> scales rs n (UpdateRollout ro)"
  "\<not> scales rs n (RouterSetWeight w)" "\<not> scales rs n (UpdateService ns svc)"
  by (simp_all add: scales_def)

lemma SetReplicasAnnotations_only:
  "rs_set_Annotations None (snd (SetReplicasAnnotations rs a b)) = rs_set_Annotations None rs"
  by (auto simp: SetReplicasAnnotations_def rs_set_Annotations_def Let_def split: prod.splits)

lemma rs_set_Annotations_Replicas: "rs_Replicas (rs_set_Annotations a rs) = rs_Replicas rs"
  by (simp add: rs_set_Annotations_def)

lemma scales_Replicas: "scales rs n (UpdateReplicaSet ns rs') \<Longrightarrow> rs_Replicas rs' = Some n"
  by simp (metis rs_set_Annotations_Replicas replicaSet.select_convs(2) replicaSet.surjective replicaSet.update_convs(2))

lemma emits_scaleReplicaSet: "emits (scales rs n) (scaleReplicaSet L V rs n d op)"
  unfolding scaleReplicaSet_def Let_def call_defs
  by (intro emits_intros) (simp_all add: SetReplicasAnnotations_only)

lemma emits_scaleReplicaSetAndRecordEvent: "emits (scales rs n) (scaleReplicaSetAndRecordEvent L V rs n d)"
  unfolding scaleReplicaSetAndRecordEvent_def
  by (intro emits_intros emits_scaleReplicaSet)

text \<open>A scaling call that returns has sent the update, unless the ReplicaSet was already there.\<close>

lemma runs_at_scaleReplicaSet:
  assumes "rs_Replicas rs \<noteq> Some n"
    and "\<And>b rs' q t r m. scales rs n q \<Longrightarrow> (\<exists>ns x. q = UpdateReplicaSet ns x) \<Longrightarrow>
      Q (Inr (b, rs')) (h0 @ [(q, True), (Event t r m, True)])"
    and "\<And>e q. scales rs n q \<Longrightarrow> Q (Inl e) (h0 @ [(q, False)])" and "\<And>e. Q (Inl e) h0"
    and "\<And>b rs' q e t r m. scales rs n q \<Longrightarrow> Q (Inl e) (h0 @ [(q, True), (Event t r m, False)])"
  shows "runs_at (scaleReplicaSet L V rs n d op) h0 s Q"
  unfolding scaleReplicaSet_def Let_def call_defs
  by (intro runs_intros) (auto simp: SetReplicasAnnotations_only deref_def assms split: option.splits sum.splits
      intro!: runs_intros assms)

section \<open>Properties of the reconcile primitives\<close>

text \<open>The ReplicaSets that the pruning of the history may delete.\<close>

definition prunable :: "replicaSet \<Rightarrow> bool" where
  "prunable rs \<longleftrightarrow> rs_StatusReplicas rs = 0 \<and> rs_Replicas rs = Some 0
     \<and> meta_Generation (rs_Meta rs) \<le> rs_ObservedGeneration rs \<and> meta_DeletionTimestamp (rs_Meta rs) = None"

definition deletes :: "replicaSet \<Rightarrow> request \<Rightarrow> bool" where
  "deletes rs q \<longleftrightarrow> q = DeleteReplicaSet (meta_Namespace (rs_Meta rs)) (rs_Name rs)"

lemma runs_at_cleanupOne:
  "runs_at (cleanupOne V rs) h s (\<lambda>r h'. \<exists>g. h' = h @ g \<and> length g \<le> 1 \<and> (\<forall>(q, ok) \<in> set g. prunable rs \<and> deletes rs q))"
  unfolding cleanupOne_def deleteReplicaSet_def
  by (auto simp: deref_def prunable_def deletes_def split: option.splits sum.splits intro!: runs_intros)

lemma runs_at_cleanupAll:
  "runs_at (forE rss (cleanupOne V)) h s (\<lambda>r h'. \<exists>g. h' = h @ g \<and> length g \<le> length rss
     \<and> (\<forall>(q, ok) \<in> set g. \<exists>rs \<in> set rss. prunable rs \<and> deletes rs q))"
proof (induction rss arbitrary: h s)
  case (Cons rs rss)
  have "runs_at (bindE (cleanupOne V rs) (\<lambda>_. forE rss (cleanupOne V))) h s (\<lambda>r h'. \<exists>g. h' = h @ g
     \<and> length g \<le> Suc (length rss) \<and> (\<forall>(q, ok) \<in> set g. \<exists>x \<in> set (rs # rss). prunable x \<and> deletes x q))"
    by (rule runs_at_bindE, rule runs_at_mono [OF runs_at_cleanupOne])
      (fastforce split: sum.split intro: runs_at_mono [OF Cons.IH])
  then show ?case by simp
qed (auto intro: runs_intros)

text \<open>
  C23. Pruning the revision history is safe and bounded: whatever the server answers, the only
  requests are deletions of old ReplicaSets that have no pods, want none, are observed at their current
  generation and are not being deleted already, and there are at most as many as the history exceeds its limit.
\<close>

theorem cleanupDeployment_safe:
  assumes "in_i32 (int (length oldRSs))" and "dep_RevisionHistoryLimit d = Some limit" and "0 \<le> limit"
    and "in_i32 limit" and "cleanupDeployment V oldRSs d s = (r, s')"
  shows "(\<forall>(q, ok) \<in> set (new_requests s s'). \<exists>rs \<in> set oldRSs. prunable rs \<and> deletes rs q)
     \<and> int (length (new_requests s s')) \<le> max 0 (int (length oldRSs) - limit)"
proof -
  define cs where "cs = filter (\<lambda>rs. meta_DeletionTimestamp (rs_Meta rs) = None) oldRSs"
  define diff where "diff = int (length cs) - limit"
  have cs: "int (length cs) \<le> int (length oldRSs)" by (simp add: cs_def)
  then have wrap: "wrap32 (wrap32 (int (length cs)) - limit) = diff"
    using assms(1,3,4) by (subst wrap32_id; subst wrap32_id) (auto simp: in_i32_def diff_def)
  define victims where "victims = take (nat diff) (Sort ReplicaSetsByRevision cs)"
  have "set victims \<subseteq> set oldRSs" by (auto simp: victims_def cs_def dest!: in_set_takeD)
  moreover have "int (length victims) \<le> max 0 diff" by (simp add: victims_def)
  ultimately have victims: "set victims \<subseteq> set oldRSs" "int (length victims) \<le> max 0 (int (length oldRSs) - limit)"
    using cs by (auto simp: diff_def)
  have "runs_at (cleanupDeployment V oldRSs d) [] s (\<lambda>r h. \<exists>g. h = [] @ g \<and> length g \<le> length victims
     \<and> (\<forall>(q, ok) \<in> set g. \<exists>rs \<in> set victims. prunable rs \<and> deletes rs q))"
    using assms(2) wrap
    unfolding cleanupDeployment_def cs_def [symmetric] Let_def
    by (auto simp: victims_def [symmetric] split: sum.split
        intro!: runs_at_returnE runs_at_failE runs_at_bindE runs_at_if runs_at_mono [OF runs_at_cleanupAll])
  from runs_atD [OF this assms(5)] victims show ?thesis by fastforce
qed

theorem cleanupDeployment_safe_witness:
  "int (length (new_requests world0 (snd (cleanupDeployment env0 [rs0 ''v1'' 0, rs0 ''v2'' 0] (dep0\<lparr>dep_RevisionHistoryLimit := Some 1\<rparr>) world0)))) \<le> 1"
  using cleanupDeployment_safe [of "[rs0 ''v1'' 0, rs0 ''v2'' 0]" "dep0\<lparr>dep_RevisionHistoryLimit := Some 1\<rparr>" 1 env0 world0,
      OF _ _ _ _ prod.collapse [symmetric]]
  by (simp add: in_i32_def)

lemma rs_set_Annotations_sel [simp]:
  "rs_Annotations (rs_set_Annotations a rs) = a"
  "rs_set_Annotations b (rs_set_Annotations a rs) = rs_set_Annotations b rs"
  by (simp_all add: rs_set_Annotations_def)

lemma skip_revision: "skipCopyAnnotation RevisionAnnotation"
  by (simp add: skipCopyAnnotation_def)

lemma copyAnnotations_fold:
  "\<not> smap_has a RevisionAnnotation \<Longrightarrow> \<not> smap_has (snd (foldl (\<lambda>(changed, a) (k, v).
      if skipCopyAnnotation k \<or> (smap_has a k \<and> smap_get a k = v) then (changed, a)
      else (True, smap_set k v a)) (b, a) kvs)) RevisionAnnotation"
proof (induction kvs arbitrary: a b)
  case (Cons kv kvs)
  obtain k v where kv: "kv = (k, v)" by fastforce
  show ?case
  proof (cases "skipCopyAnnotation k \<or> (smap_has a k \<and> smap_get a k = v)")
    case True
    with Cons kv show ?thesis by simp
  next
    case False
    then have "\<not> smap_has (smap_set k v a) RevisionAnnotation"
      using Cons.prems skip_revision by auto
    with Cons.IH False kv show ?thesis by simp
  qed
qed simp

lemma copyAnnotations:
  "rs_set_Annotations None (snd (copyDeploymentAnnotationsToReplicaSet d rs)) = rs_set_Annotations None rs"
  "\<not> smap_has (the_smap (rs_Annotations rs)) RevisionAnnotation \<Longrightarrow>
   \<not> smap_has (the_smap (rs_Annotations (snd (copyDeploymentAnnotationsToReplicaSet d rs)))) RevisionAnnotation"
  using copyAnnotations_fold [of "the_smap (rs_Annotations rs)" False "smap_entries (the_smap (dep_Annotations d))"]
  by (auto simp: copyDeploymentAnnotationsToReplicaSet_def split: prod.splits)

lemma MaxRevision_fold:
  "(m :: int) \<le> foldl (\<lambda>m rs. case Revision rs of None \<Rightarrow> m | Some v \<Rightarrow> (if v > m then v else m)) m rss
   \<and> (\<forall>rs \<in> set rss. \<forall>v. Revision rs = Some v \<longrightarrow>
        v \<le> foldl (\<lambda>m rs. case Revision rs of None \<Rightarrow> m | Some v \<Rightarrow> (if v > m then v else m)) m rss)"
proof (induction rss arbitrary: m)
  case (Cons rs rss)
  show ?case
  proof (cases "Revision rs")
    case None
    with Cons.IH [of m] show ?thesis by auto
  next
    case (Some v)
    with Cons.IH [of "if v > m then v else m"] show ?thesis by (force split: if_splits)
  qed
qed simp

lemma MaxRevision_bound: "0 \<le> MaxRevision rss" "rs \<in> set rss \<Longrightarrow> Revision rs = Some v \<Longrightarrow> v \<le> MaxRevision rss"
  using MaxRevision_fold [of 0 rss] by (auto simp: MaxRevision_def)

lemma SetReplicasAnnotations_get:
  "k \<noteq> DesiredReplicasAnnotation \<Longrightarrow> k \<noteq> MaxReplicasAnnotation \<Longrightarrow>
   smap_get (the_smap (rs_Annotations (snd (SetReplicasAnnotations rs a b)))) k = smap_get (the_smap (rs_Annotations rs)) k"
  "k \<noteq> DesiredReplicasAnnotation \<Longrightarrow> k \<noteq> MaxReplicasAnnotation \<Longrightarrow>
   smap_has (the_smap (rs_Annotations (snd (SetReplicasAnnotations rs a b)))) k = smap_has (the_smap (rs_Annotations rs)) k"
  by (auto simp: SetReplicasAnnotations_def Let_def split: prod.splits if_splits)

text \<open>The annotations of a ReplicaSet that has no revision yet.\<close>

lemma SetNewReplicaSetAnnotations_new:
  assumes "SetNewReplicaSetAnnotations L d rs (FormatInt n) False limit = Inr (changed, rs')"
    and "\<not> smap_has (the_smap (rs_Annotations rs)) RevisionAnnotation" and "0 < n" and "in_i64 n"
  shows "Revision rs' = Some n \<and> rs_set_Annotations None rs' = rs_set_Annotations None rs"
proof -
  obtain c rs1 where copy: "copyDeploymentAnnotationsToReplicaSet d rs = (c, rs1)" by fastforce
  have no: "\<not> smap_has (the_smap (rs_Annotations rs1)) RevisionAnnotation"
    and same: "rs_set_Annotations None rs1 = rs_set_Annotations None rs"
    using copyAnnotations [where d = d and rs = rs] assms(2) by (simp_all add: copy)
  then have none: "smap_get (the_smap (rs_Annotations rs1)) RevisionAnnotation = []"
    by (simp add: smap_get_def smap_has_def split: option.splits)
  let ?rs2 = "rs_set_Annotations (Some (smap_set RevisionAnnotation (FormatInt n) (the_smap (rs_Annotations rs1)))) rs1"
  have "ParseInt64 [] = None" by (simp add: ParseInt64_def parse_nat_def)
  then have "bindR (deref ''Replicas'' (dep_Replicas d)) (\<lambda>replicas. bindR (maxReplicas L d) (\<lambda>mx.
      case SetReplicasAnnotations ?rs2 replicas mx of (u, rs3) \<Rightarrow> Inr (True, rs3))) = Inr (changed, rs')"
    using assms(1,3,4) no none by (simp add: SetNewReplicaSetAnnotations_def copy Let_def parse_format)
  then obtain a b where "(case SetReplicasAnnotations ?rs2 a b of (u, rs3) \<Rightarrow> Inr (True, rs3)) = (Inr (changed, rs') :: (bool \<times> replicaSet) res)"
    by (auto simp: bindR_eq_Inr)
  then have "rs' = snd (SetReplicasAnnotations ?rs2 a b)"
    by (cases "SetReplicasAnnotations ?rs2 a b") simp
  then show ?thesis
    using same assms(4) by (simp add: Revision_def Let_def SetReplicasAnnotations_get SetReplicasAnnotations_only parse_format)
qed

definition isNewRSOf :: "lib \<Rightarrow> deployment \<Rightarrow> replicaSet \<Rightarrow> bool" where
  "isNewRSOf L d rs \<longleftrightarrow> (let hash = ComputeHash L (dep_Template d) (ds_CollisionCount (dep_Status d)) in
     rs_Name rs = dep_Name d @ ''-'' @ hash \<and> smap_get (rs_Labels rs) DefaultDeploymentUniqueLabelKey = hash
     \<and> meta_OwnerReferences (rs_Meta rs) = [newControllerRef d])"

lemma isNewRSOf_annotations: "isNewRSOf L d (rs_set_Annotations a rs) = isNewRSOf L d rs"
  by (simp add: isNewRSOf_def rs_set_Annotations_def)

lemma newReplicaSetObject_is:
  assumes "newReplicaSetObject L d = Inr rs"
  shows "isNewRSOf L d (rs\<lparr>rs_Replicas := n\<rparr>)" and "rs_Annotations rs = None"
  using assms by (auto simp: newReplicaSetObject_def isNewRSOf_def Let_def bindR_eq_Inr CloneAndAddLabel_def)

text \<open>
  C24. A new ReplicaSet gets the next revision: every ReplicaSet that \<open>getNewReplicaSet\<close> creates has
  a revision one above the largest of the old ones (so above all of them), the name and label that carry the hash
  of the Deployment's template, and the Deployment as its controller.
\<close>

theorem getNewReplicaSet_next_revision:
  assumes "MaxRevision oldRSs < 9223372036854775807"
    and "getNewReplicaSet L V d rsList oldRSs create s = (r, s')"
    and "(CreateReplicaSet ns rs, ok) \<in> set (new_requests s s')"
  shows "Revision rs = Some (MaxRevision oldRSs + 1) \<and> isNewRSOf L d rs
     \<and> (\<forall>old \<in> set oldRSs. \<forall>v. Revision old = Some v \<longrightarrow> v < MaxRevision oldRSs + 1)"
proof -
  let ?n = "MaxRevision oldRSs + 1"
  have n: "0 < ?n" "in_i64 ?n" using MaxRevision_bound(1) [of oldRSs] assms(1) by (simp_all add: in_i64_def)
  let ?P = "\<lambda>q. \<forall>ns rs. q = CreateReplicaSet ns rs \<longrightarrow> Revision rs = Some ?n \<and> isNewRSOf L d rs"
  have new: "Revision x = Some ?n \<and> isNewRSOf L d x"
    if "newReplicaSetObject L d = Inr x0"
      and "SetNewReplicaSetAnnotations L d (x0\<lparr>rs_Replicas := Some k\<rparr>) (FormatInt ?n) False limit = Inr (b, x)"
    for x0 k limit b x
  proof -
    have "rs_Annotations (x0\<lparr>rs_Replicas := Some k\<rparr>) = None"
      using newReplicaSetObject_is(2) [OF that(1)] by simp
    then have "\<not> smap_has (the_smap (rs_Annotations (x0\<lparr>rs_Replicas := Some k\<rparr>))) RevisionAnnotation"
      by (simp add: smap_has_def)
    from SetNewReplicaSetAnnotations_new [OF that(2) this n] newReplicaSetObject_is(1) [OF that(1), of "Some k"]
    show ?thesis by (metis isNewRSOf_annotations)
  qed
  have "emits ?P (createNewRS L V d oldRSs (FormatInt ?n))"
    unfolding createNewRS_def finishCreate_def createConflict_def createFailed_def Let_def call_defs
    by (intro emits_bind_liftE emits_prod emits_bindE emits_tryE emits_callE emits_sum emits_if emits_returnE
        emits_failE emits_silentE) (use new in simp_all)
  then have "emits ?P (getNewReplicaSet L V d rsList oldRSs create)"
    using n unfolding getNewReplicaSet_def syncExistingRS_def Let_def call_defs
    by (auto intro!: emits_intros)
  from emits_new_requests(2) [OF this, of _ ok s] assms(2,3) have "Revision rs = Some ?n \<and> isNewRSOf L d rs"
    by auto
  then show ?thesis using MaxRevision_bound(2) [of _ oldRSs] by force
qed

definition selectorDep0 :: deployment where
  "selectorDep0 = dep0\<lparr>dep_Selector := Some \<lparr>sel_MatchLabels = [(''app'', ''web'')], sel_MatchExpressions = []\<rparr>,
     dep_StrategyType := RecreateDeploymentStrategyType\<rparr>"

lemma SetNewReplicaSetAnnotations_total:
  assumes "dep_Replicas d = Some n" and "maxReplicas L d = Inr mx"
  shows "\<not> isl (SetNewReplicaSetAnnotations L d rs revision exists limit)"
  by (simp add: SetNewReplicaSetAnnotations_def Let_def case_prod_beta assms split: option.split)

theorem getNewReplicaSet_next_revision_witness:
  "\<exists>ns rs ok. (CreateReplicaSet ns rs, ok) \<in> set (new_requests world0 (snd (getNewReplicaSet ref_lib env0 selectorDep0 [] [] True world0)))
     \<and> Revision rs = Some 1 \<and> isNewRSOf ref_lib selectorDep0 rs"
proof -
  let ?run = "getNewReplicaSet ref_lib env0 selectorDep0 [] [] True world0"
  obtain x where obj: "newReplicaSetObject ref_lib selectorDep0 = Inr x"
    by (auto simp: newReplicaSetObject_def selectorDep0_def CloneSelectorAndAddLabel_def Let_def)
  have replicas: "NewRSNewReplicas ref_lib selectorDep0 l x = Inr 10" for l
    by (simp add: NewRSNewReplicas_def selectorDep0_def dep0_def)
  obtain c y where ann: "SetNewReplicaSetAnnotations ref_lib selectorDep0 (x\<lparr>rs_Replicas := Some 10\<rparr>)
      (FormatInt (wrap64 (MaxRevision [] + 1))) False maxRevHistoryLengthInChars = Inr (c, y)"
  proof -
    have "dep_Replicas selectorDep0 = Some 10" "maxReplicas ref_lib selectorDep0 = Inr 10"
      by (simp_all add: selectorDep0_def dep0_def maxReplicas_def MaxSurge_def IsRollingUpdate_def in_i32_def)
    from SetNewReplicaSetAnnotations_total [OF this] that show thesis
      by (metis isl_def sum.exhaust prod.exhaust)
  qed
  have req: "(CreateReplicaSet (dep_Namespace selectorDep0) y, True) \<in> set (new_requests world0 (snd ?run))"
    using obj ann by (auto simp: getNewReplicaSet_def FindNewReplicaSet_def createNewRS_def Sort_def Let_def replicas
        finishCreate_def eff_eval new_requests_def split: prod.splits)
  have "MaxRevision [] < 9223372036854775807" by (simp add: MaxRevision_def)
  from getNewReplicaSet_next_revision [OF this prod.collapse [symmetric] req] req show ?thesis
    by (auto simp: MaxRevision_def)
qed

end
