(* ===== verification/Rollout_Scaling.thy ===== *)
theory Rollout_Scaling
  imports Deployment_Sync
begin

text \<open>
  The stateless half of the Rollout controller: defaulting and ownership (\<open>helpers.go\<close>), the
  synthetic Deployment the forked code runs on (\<open>adapter.go\<close>), the aggregate counters and the
  phase (\<open>status.go\<close>), and the split of the replicas between canary and stable
  (\<open>scaling.go\<close>).
\<close>

section \<open>helpers.go\<close>

definition defaultStep :: "step \<Rightarrow> step" where
  "defaultStep s = (case step_Analysis s of
     None \<Rightarrow> s
   | Some a \<Rightarrow> (if as_FailurePolicy a = [] then s\<lparr>step_Analysis := Some (a\<lparr>as_FailurePolicy := ''Rollback''\<rparr>)\<rparr>
               else s))"

definition applyDefaults :: "rollout \<Rightarrow> rollout" where
  "applyDefaults = with_Spec (\<lambda>sp. sp\<lparr>
     spec_AutoPromotion := (if spec_AutoPromotion sp = [] then AutoPromotionEnabled else spec_AutoPromotion sp),
     spec_DynamicStableScale :=
       (if spec_DynamicStableScale sp = [] then DynamicStableScaleOff else spec_DynamicStableScale sp),
     spec_HPAStrategy := (if spec_HPAStrategy sp = [] then HPAStrategyPreserve else spec_HPAStrategy sp),
     spec_Progression := (spec_Progression sp)\<lparr>
       prog_Steps := map defaultStep (prog_Steps (spec_Progression sp))\<rparr>,
     spec_TrafficRouting := map_option (\<lambda>t. if tr_VerifyWeight t = [] then t\<lparr>tr_VerifyWeight := ''Enabled''\<rparr> else t)
       (spec_TrafficRouting sp)\<rparr>)"

definition isOwnedBy :: "objectMeta \<Rightarrow> rollout \<Rightarrow> bool" where
  "isOwnedBy m ro = (\<exists>owner \<in> set (meta_OwnerReferences m).
     owner_UID owner = ro_UID ro \<and> owner_Controller owner = Some True)"

definition labelSelectorString :: "labelSelector option \<Rightarrow> string" where
  "labelSelectorString sel = (case sel of None \<Rightarrow> []
     | Some s \<Rightarrow> Join CHR '','' (map (\<lambda>k. k @ ''='' @ smap_get (sel_MatchLabels s) k)
         (Sort (<) (map fst (smap_entries (sel_MatchLabels s))))))"

section \<open>adapter.go\<close>

definition clampProgressDeadline :: "int \<Rightarrow> int" where
  "clampProgressDeadline d = (if d \<le> 0 then MaxInt32 else d)"

definition asDeploymentView :: "rollout \<Rightarrow> rolloutSpec \<Rightarrow> deployment" where
  "asDeploymentView ro template =
     (let opt = (\<lambda>p v. case p of None \<Rightarrow> v | Some x \<Rightarrow> x) in
      \<lparr>dep_Meta = \<lparr>meta_Name = ro_Name ro, meta_Namespace = ro_Namespace ro, meta_UID = ro_UID ro,
         meta_ResourceVersion = [], meta_Generation = ro_Generation ro, meta_CreationTimestamp = 0,
         meta_DeletionTimestamp = None, meta_Labels = meta_Labels (ro_Meta ro),
         meta_Annotations = meta_Annotations (ro_Meta ro), meta_OwnerReferences = []\<rparr>,
       dep_Replicas = Some (opt (spec_Replicas template) 1),
       dep_Selector = spec_Selector template,
       dep_Template = (case spec_Template template of
          None \<Rightarrow> \<lparr>pt_Labels = [], pt_Meta = [], pt_Spec = []\<rparr> | Some t \<Rightarrow> t),
       dep_StrategyType = RollingUpdateDeploymentStrategyType,
       dep_RollingUpdate = Some \<lparr>
         ru_MaxUnavailable = Some (case prog_MaxUnavailable (spec_Progression template) of
           None \<Rightarrow> FromString ''25%'' | Some v \<Rightarrow> v),
         ru_MaxSurge = Some (case prog_MaxSurge (spec_Progression template) of
           None \<Rightarrow> FromString ''25%'' | Some v \<Rightarrow> v)\<rparr>,
       dep_MinReadySeconds = spec_MinReadySeconds template,
       dep_RevisionHistoryLimit = Some (opt (spec_RevisionHistoryLimit template) 10),
       dep_Paused = spec_Paused template,
       dep_ProgressDeadlineSeconds =
         Some (clampProgressDeadline (opt (spec_ProgressDeadlineSeconds template) 600)),
       dep_Status = empty_deploymentStatus\<rparr>)"

section \<open>status.go\<close>

definition computeReplicaCounts ::
    "replicaSet option \<Rightarrow> replicaSet option list \<Rightarrow> int \<times> int \<times> int \<times> int" where
  "computeReplicaCounts newRS rsList =
     (let rss = non_nil rsList in
      (sum32 (map rs_StatusReplicas rss),
       (case newRS of None \<Rightarrow> 0 | Some r \<Rightarrow> rs_StatusReplicas r),
       sum32 (map rs_ReadyReplicas rss),
       sum32 (map rs_AvailableReplicas rss)))"

definition derivePhase :: "rollout \<Rightarrow> bool \<Rightarrow> string" where
  "derivePhase ro progressDeadlineExceeded =
     (if st_Phase (ro_Status ro) = PhaseAborted then PhaseAborted
      else if st_Phase (ro_Status ro) = PhaseHealthy then PhaseHealthy
      else if progressDeadlineExceeded then PhaseDegraded
      else if st_PauseConditions (ro_Status ro) \<noteq> [] then PhasePaused
      else if st_CurrentStep (ro_Status ro) = [] then PhasePending
      else PhaseProgressing)"

section \<open>scaling.go\<close>

definition splitReplicas :: "int \<Rightarrow> int \<Rightarrow> string \<Rightarrow> int \<Rightarrow> int \<times> int" where
  "splitReplicas desired weight strategy canaryKeep =
     (if desired \<le> 0 then (0, 0)
      else if strategy = HPAStrategyStableOnly then
        let keep = (if canaryKeep > desired then desired else canaryKeep)
        in (keep, wrap32 (desired - keep))
      else if weight \<le> 0 then (0, desired)
      else if weight \<ge> 100 then (desired, 0)
      else
        let c0 = f64_to_int32 (f64_ceil (f64_div (f64_mul (f64_of_int desired) (f64_of_int weight))
                   (f64_of_int 100)));
            c = (if c0 > desired then desired else c0)
        in (c, wrap32 (desired - c)))"

definition desiredReplicas :: "rollout \<Rightarrow> int" where
  "desiredReplicas ro = (case spec_Replicas (ro_Spec ro) of None \<Rightarrow> 1 | Some n \<Rightarrow> n)"

definition currentCanaryReplicas :: "replicaSet option \<Rightarrow> int" where
  "currentCanaryReplicas newRS = (case newRS of None \<Rightarrow> 0
     | Some r \<Rightarrow> (case rs_Replicas r of None \<Rightarrow> 0 | Some n \<Rightarrow> n))"

text \<open>The loop keeps the best ReplicaSet so far and its count, which starts at \<open>-1\<close>.\<close>

fun largestOldRS_from :: "replicaSet option \<Rightarrow> int \<Rightarrow> replicaSet list \<Rightarrow> replicaSet option" where
  "largestOldRS_from best bestCount [] = best"
| "largestOldRS_from best bestCount (rs # rss) =
     (let count = (case rs_Replicas rs of None \<Rightarrow> 0 | Some n \<Rightarrow> n)
      in if count > bestCount then largestOldRS_from (Some rs) count rss
         else largestOldRS_from best bestCount rss)"

definition largestOldRS :: "replicaSet list \<Rightarrow> replicaSet option" where
  "largestOldRS oldRSs = largestOldRS_from None (- 1) oldRSs"

definition observedSpecReplicas :: "rollout \<Rightarrow> bool" where
  "observedSpecReplicas ro \<longleftrightarrow> st_DesiredReplicas (ro_Status ro) = desiredReplicas ro \<and>
     st_ObservedGeneration (ro_Status ro) = ro_Generation ro"

definition scaleIfNeeded ::
    "lib \<Rightarrow> 'w env \<Rightarrow> replicaSet \<Rightarrow> int \<Rightarrow> deployment \<Rightarrow> string \<Rightarrow> ('w, unit) io" where
  "scaleIfNeeded L V rs target d op =
     (if rs_Replicas rs = Some target then returnE ()
      else bindE (wrapE ''scale %s to %d: %w'' [rs_Name rs, FormatInt target]
             (scaleReplicaSet L V rs target d op)) (\<lambda>_. returnE ()))"

definition reconcileReplicas ::
    "lib \<Rightarrow> 'w env \<Rightarrow> rollout \<Rightarrow> replicaSet option \<Rightarrow> replicaSet list \<Rightarrow> ('w, unit) io" where
  "reconcileReplicas L V ro newRS oldRSs = (case newRS of
     None \<Rightarrow> returnE ()
   | Some rs \<Rightarrow>
      (if spec_HPAStrategy (ro_Spec ro) = HPAStrategyDisabled then returnE ()
       else
         let (canaryDesired, stableDesired) = splitReplicas (desiredReplicas ro)
               (st_CurrentWeight (ro_Status ro)) (spec_HPAStrategy (ro_Spec ro)) (currentCanaryReplicas newRS);
             d = asDeploymentView ro (ro_Spec ro)
         in bindE (scaleIfNeeded L V rs canaryDesired d ''canaryTarget'') (\<lambda>_.
            case largestOldRS oldRSs of
              None \<Rightarrow> returnE ()
            | Some stableRS \<Rightarrow> scaleIfNeeded L V stableRS stableDesired d ''stableTarget'')))"

section \<open>Lemmas\<close>

text \<open>In the float branch the split is the exact ceiling, so it never meets the clamp.\<close>

lemma splitReplicas_canary:
  assumes "0 < d" and "in_i32 d" and "0 < w" and "w < 100" and "s \<noteq> HPAStrategyStableOnly"
  shows "splitReplicas d w s k = (- ((- (d * w)) div 100), d + (- (d * w)) div 100)"
proof -
  have "d * w \<le> d * 99" using assms by (intro mult_left_mono) auto
  moreover have "0 < d * w" using assms by simp
  ultimately have "- ((- (d * w)) div 100) \<le> d" "0 < - ((- (d * w)) div 100)"
    using assms by linarith+
  moreover from this have "in_i32 (d + (- (d * w)) div 100)"
    using assms(1,2) by (auto simp: in_i32_def)
  ultimately show ?thesis
    using assms ceil_percent [OF assms(1-4)] by (simp add: splitReplicas_def Let_def)
qed

lemma ex_largest: "xs \<noteq> [] \<Longrightarrow> \<exists>x \<in> set xs. \<forall>y \<in> set xs. f y \<le> (f x :: int)"
proof -
  assume "xs \<noteq> []"
  then have "Max (f ` set xs) \<in> f ` set xs" by (intro Max_in) auto
  then obtain x where "x \<in> set xs" "f x = Max (f ` set xs)" by auto
  then show ?thesis by (metis List.finite_set Max_ge finite_imageI imageI)
qed

lemma largestOldRS_from_spec:
  "largestOldRS_from best b rss = (case find (\<lambda>r. rs_size r > b \<and>
      (\<forall>q \<in> set rss. rs_size q \<le> rs_size r)) rss of None \<Rightarrow> best | Some r \<Rightarrow> Some r)"
proof (induction rss arbitrary: best b)
  case (Cons r rss)
  show ?case
  proof (cases "rs_size r > b")
    case True
    then have step: "largestOldRS_from best b (r # rss) = largestOldRS_from (Some r) (rs_size r) rss"
      by (simp add: rs_size_def Let_def)
    show ?thesis
    proof (cases "\<forall>q \<in> set rss. rs_size q \<le> rs_size r")
      case le: True
      have "find (\<lambda>x. rs_size x > rs_size r \<and> (\<forall>q \<in> set rss. rs_size q \<le> rs_size x)) rss = None"
        using le by (auto simp: find_None_iff)
      then show ?thesis using True le step Cons.IH by simp
    next
      case False
      then obtain q where q: "q \<in> set rss" "rs_size q > rs_size r" by force
      have same: "find (\<lambda>x. rs_size x > rs_size r \<and> (\<forall>y \<in> set rss. rs_size y \<le> rs_size x)) rss
          = find (\<lambda>x. rs_size x > b \<and> (\<forall>y \<in> set (r # rss). rs_size y \<le> rs_size x)) rss"
        using True q by (intro find_cong) (auto intro: less_trans less_le_trans)
      have "find (\<lambda>x. rs_size x > rs_size r \<and> (\<forall>y \<in> set rss. rs_size y \<le> rs_size x)) rss \<noteq> None"
      proof -
        from q have "rss \<noteq> []" by auto
        then obtain x where "x \<in> set rss" "\<forall>y \<in> set rss. rs_size y \<le> rs_size x"
          using ex_largest [of rss rs_size] by blast
        with q show ?thesis by (auto simp: find_None_iff intro: less_le_trans)
      qed
      then show ?thesis using False step Cons.IH same by auto
    qed
  next
    case False
    then have "largestOldRS_from best b (r # rss) = largestOldRS_from best b rss"
      by (simp add: rs_size_def Let_def)
    moreover have "find (\<lambda>x. rs_size x > b \<and> (\<forall>q \<in> set rss. rs_size q \<le> rs_size x)) rss
        = find (\<lambda>x. rs_size x > b \<and> (\<forall>q \<in> set (r # rss). rs_size q \<le> rs_size x)) rss"
      using False by (intro find_cong) auto
    ultimately show ?thesis using False Cons.IH by simp
  qed
qed simp

lemma splitReplicas_fst:
  assumes "0 < d" and "in_i32 d" and "s \<noteq> HPAStrategyStableOnly"
  shows "fst (splitReplicas d w s k)
     = (if w \<le> 0 then 0 else if 100 \<le> w then d else - ((- (d * w)) div 100))"
  using assms splitReplicas_canary [of d w s k] by (auto simp: splitReplicas_def)

lemma ceil_part_le:
  assumes "0 < d" and "0 < w" and "w < 100"
  shows "0 < - ((- (d * w)) div 100)" and "- ((- (d * w)) div 100) \<le> (d :: int)"
proof -
  have "d * w \<le> d * 99" "0 < d * w" using assms by (auto intro: mult_left_mono)
  then show "0 < - ((- (d * w)) div 100)" and "- ((- (d * w)) div 100) \<le> d"
    using assms by linarith+
qed

section \<open>Properties\<close>

text \<open>
  C5. Between 1% and 99% the canary size that \<open>splitReplicas\<close> computes in floating point is the
  exact ceiling of \<open>desired * weight / 100\<close> for every 32-bit replica count, and the stable size is
  the rest: no rounding error of \<open>float64\<close> shows, and the clamp is never needed.
\<close>

theorem splitReplicas_exact:
  assumes "0 < desired" and "in_i32 desired" and "0 < weight" and "weight < 100"
    and "strategy \<noteq> HPAStrategyStableOnly"
  shows "splitReplicas desired weight strategy keep
     = (\<lceil>of_int (desired * weight) / (100 :: rat)\<rceil>, desired - \<lceil>of_int (desired * weight) / (100 :: rat)\<rceil>)"
proof -
  have "\<lceil>of_int (desired * weight) / (of_int 100 :: rat)\<rceil> = - ((- (desired * weight)) div 100)"
    by (simp only: ceiling_divide_eq_div)
  then show ?thesis
    using splitReplicas_canary [OF assms] by simp
qed

theorem splitReplicas_exact_witness: "splitReplicas 7 10 ''Preserve'' 0 = (1, 6)"
proof -
  have "\<lceil>7 / 10 :: rat\<rceil> = 1" by (rule ceiling_unique) simp_all
  then show ?thesis
    using splitReplicas_exact [of 7 10 "''Preserve''" 0] by (simp add: in_i32_def)
qed

text \<open>
  C6. The split accounts for every replica: both parts are non-negative and add up to the desired
  count, a positive weight always gives the canary at least one pod, and under StableOnly the canary
  keeps its size (up to the desired count).
\<close>

theorem splitReplicas_total:
  assumes "in_i32 desired" and "in_i32 keep" and "0 \<le> keep"
  shows "let (canary, rest) = splitReplicas desired weight strategy keep
     in 0 \<le> canary \<and> 0 \<le> rest \<and> canary + rest = max desired 0
       \<and> (strategy \<noteq> HPAStrategyStableOnly \<longrightarrow> 0 < desired \<longrightarrow> 0 < weight \<longrightarrow> 0 < canary)
       \<and> (strategy = HPAStrategyStableOnly \<longrightarrow> 0 < desired \<longrightarrow> canary = min keep desired)"
proof (cases "0 < desired \<and> 0 < weight \<and> weight < 100 \<and> strategy \<noteq> HPAStrategyStableOnly")
  case True
  then show ?thesis
    using ceil_part_le [of desired weight] splitReplicas_canary [of desired weight strategy keep] assms(1)
    by simp
next
  case False
  then show ?thesis
    using assms by (auto simp: splitReplicas_def Let_def in_i32_def)
qed

theorem splitReplicas_total_witness:
  "let (canary, rest) = splitReplicas 10 5 ''Preserve'' 0
   in 0 \<le> canary \<and> 0 \<le> rest \<and> canary + rest = 10 \<and> 0 < canary"
  using splitReplicas_total [of 10 0 5 "''Preserve''"] by (simp add: in_i32_def split: prod.splits)

text \<open>Raising the weight never takes pods from the canary.\<close>

lemma splitReplicas_mono:
  assumes "in_i32 desired" and "weight1 \<le> weight2" and "strategy \<noteq> HPAStrategyStableOnly"
  shows "fst (splitReplicas desired weight1 strategy keep1) \<le> fst (splitReplicas desired weight2 strategy keep2)"
proof (cases "0 < desired")
  case True
  then have "desired * weight1 \<le> desired * weight2" using assms(2) by (intro mult_left_mono) auto
  then have "- ((- (desired * weight1)) div 100) \<le> - ((- (desired * weight2)) div 100)"
    by (simp add: zdiv_mono1)
  with True assms show ?thesis
    using ceil_part_le [of desired weight1] ceil_part_le [of desired weight2]
    by (auto simp: splitReplicas_fst)
qed (simp add: splitReplicas_def)

text \<open>
  Among the old ReplicaSets, \<open>largestOldRS\<close> is the first one with the largest replica count (an
  unset count is zero), and there is none only when the list is empty.
\<close>

lemma largestOldRS_first_max:
  assumes "\<forall>rs \<in> set oldRSs. 0 \<le> rs_size rs"
  shows "largestOldRS oldRSs = find (\<lambda>rs. \<forall>q \<in> set oldRSs. rs_size q \<le> rs_size rs) oldRSs
     \<and> (largestOldRS oldRSs = None \<longleftrightarrow> oldRSs = [])"
proof (rule conjI)
  have "find (\<lambda>rs. rs_size rs > - 1 \<and> (\<forall>q \<in> set oldRSs. rs_size q \<le> rs_size rs)) oldRSs
      = find (\<lambda>rs. \<forall>q \<in> set oldRSs. rs_size q \<le> rs_size rs) oldRSs"
    using assms by (intro find_cong) force+
  then show *: "largestOldRS oldRSs = find (\<lambda>rs. \<forall>q \<in> set oldRSs. rs_size q \<le> rs_size rs) oldRSs"
    by (auto simp: largestOldRS_def largestOldRS_from_spec split: option.splits)
  show "largestOldRS oldRSs = None \<longleftrightarrow> oldRSs = []"
  proof (cases "oldRSs = []")
    case False
    with * ex_largest [of oldRSs rs_size] show ?thesis by (auto simp: find_None_iff)
  qed (simp add: largestOldRS_def)
qed

text \<open>
  C7. \<open>reconcileReplicas\<close> writes nothing but updates of the new ReplicaSet to the canary size and of
  the largest old one to the stable size, changing only their replica count and annotations
  (besides events): no other ReplicaSet, Service or Rollout is touched, whatever the server does.
\<close>

theorem reconcileReplicas_scope:
  "emits (\<lambda>q. let (canary, rest) = splitReplicas (desiredReplicas ro) (st_CurrentWeight (ro_Status ro))
                 (spec_HPAStrategy (ro_Spec ro)) (currentCanaryReplicas newRS)
             in (\<exists>rs. newRS = Some rs \<and> scales rs canary q)
              \<or> (\<exists>rs. largestOldRS oldRSs = Some rs \<and> scales rs rest q))
     (reconcileReplicas L V ro newRS oldRSs)"
  unfolding reconcileReplicas_def scaleIfNeeded_def Let_def
  by (intro emits_intros; rule emits_mono [OF emits_scaleReplicaSet]) auto

text \<open>\<open>sized r n h\<close>: \<open>r\<close> has \<open>n\<close> replicas, or the server accepted such an update among the requests \<open>h\<close>.\<close>

definition sized :: "replicaSet \<Rightarrow> int \<Rightarrow> (request \<times> bool) list \<Rightarrow> bool" where
  "sized r n h \<longleftrightarrow> rs_Replicas r = Some n \<or>
     (\<exists>ns x. (UpdateReplicaSet ns x, True) \<in> set h \<and> scales r n (UpdateReplicaSet ns x))"

lemma runs_at_scaleIfNeeded:
  "runs_at (scaleIfNeeded L V r n d op) h s (\<lambda>res h'. case res of Inl _ \<Rightarrow> True
     | Inr _ \<Rightarrow> sized r n h' \<and> (\<forall>r' n'. sized r' n' h \<longrightarrow> sized r' n' h'))"
  unfolding scaleIfNeeded_def
  by (intro runs_intros runs_at_scaleReplicaSet) (auto simp: sized_def intro!: runs_intros)

lemma reconcileReplicas_sized:
  assumes "reconcileReplicas L V ro (Some rs) oldRSs s = (Inr (), s')"
    and "spec_HPAStrategy (ro_Spec ro) \<noteq> HPAStrategyDisabled"
    and "splitReplicas (desiredReplicas ro) (st_CurrentWeight (ro_Status ro))
           (spec_HPAStrategy (ro_Spec ro)) (currentCanaryReplicas (Some rs)) = (canary, rest)"
  shows "sized rs canary (new_requests s s') \<and>
     (\<forall>old. largestOldRS oldRSs = Some old \<longrightarrow> sized old rest (new_requests s s'))"
proof -
  have "runs_at (reconcileReplicas L V ro (Some rs) oldRSs) [] s (\<lambda>res h. case res of Inl _ \<Rightarrow> True
      | Inr _ \<Rightarrow> sized rs canary h \<and> (\<forall>old. largestOldRS oldRSs = Some old \<longrightarrow> sized old rest h))"
    using assms(2,3) unfolding reconcileReplicas_def
    by (auto simp: Let_def split: option.splits sum.splits
        intro!: runs_intros runs_at_mono [OF runs_at_scaleIfNeeded] runs_at_returnE)
  from runs_atD [OF this assms(1)] show ?thesis by simp
qed

text \<open>
  C8. When \<open>reconcileReplicas\<close> returns without an error (and HPA cooperation is not disabled), the new
  ReplicaSet already had the canary size or a successful update to it was sent, and the same holds
  for the largest old ReplicaSet and the stable size.
\<close>

theorem reconcileReplicas_converges:
  assumes "reconcileReplicas L V ro (Some rs) oldRSs s = (Inr (), s')"
    and "spec_HPAStrategy (ro_Spec ro) \<noteq> HPAStrategyDisabled"
    and "splitReplicas (desiredReplicas ro) (st_CurrentWeight (ro_Status ro))
           (spec_HPAStrategy (ro_Spec ro)) (currentCanaryReplicas (Some rs)) = (canary, rest)"
  shows "(rs_Replicas rs = Some canary \<or>
           (\<exists>ns x. (UpdateReplicaSet ns x, True) \<in> set (new_requests s s') \<and> scales rs canary (UpdateReplicaSet ns x)))
     \<and> (\<forall>old. largestOldRS oldRSs = Some old \<longrightarrow> rs_Replicas old = Some rest \<or>
           (\<exists>ns x. (UpdateReplicaSet ns x, True) \<in> set (new_requests s s') \<and> scales old rest (UpdateReplicaSet ns x)))"
  using reconcileReplicas_sized [OF assms] by (auto simp: sized_def)

theorem reconcileReplicas_converges_witness:
  "let s' = snd (reconcileReplicas ref_lib env0
         (with_Status (\<lambda>st. st\<lparr>st_CurrentWeight := 100\<rparr>) (rollout0 [])) (Some (rs0 ''v2'' 3)) [] world0)
   in \<exists>ns x. (UpdateReplicaSet ns x, True) \<in> set (new_requests world0 s') \<and> scales (rs0 ''v2'' 3) 10 (UpdateReplicaSet ns x)"
proof -
  let ?ro = "with_Status (\<lambda>st. st\<lparr>st_CurrentWeight := 100\<rparr>) (rollout0 [])"
  let ?run = "reconcileReplicas ref_lib env0 ?ro (Some (rs0 ''v2'' 3)) [] world0"
  have split: "splitReplicas (desiredReplicas ?ro) (st_CurrentWeight (ro_Status ?ro))
      (spec_HPAStrategy (ro_Spec ?ro)) (currentCanaryReplicas (Some (rs0 ''v2'' 3))) = (10, 0)"
    by (simp add: splitReplicas_def desiredReplicas_def rollout0_defs)
  have "fst ?run = Inr ()" by code_simp
  then have "?run = (Inr (), snd ?run)" by (simp add: prod_eq_iff)
  from reconcileReplicas_converges [OF this _ split] show ?thesis
    by (simp add: rollout0_defs Let_def)
qed

end
