(* ===== verification/Rollout_Steps.thy ===== *)
theory Rollout_Steps
  imports Rollout_Scaling
begin

text \<open>
  The progression: the step walker of \<open>progression.go\<close> and the step handlers of \<open>steps.go\<close>. The
  \<open>Executor\<close> is a record of what its handlers use; its recorder only serves the forked code, whose
  events \<open>eventf\<close> records, and its forked controller is \<open>Deployment_Sync\<close> on the same cluster. A
  handler gets the payload of its step, which \<open>Execute\<close> has found non-nil, beside the step. An
  assignment to \<open>ro.Status\<close> that a later statement of the handler reads is passed on as a new
  rollout; an assignment to \<open>patched\<close> is not.
\<close>

record 'w executor =
  ex_lib :: lib
  ex_env :: "'w env"
  ex_router :: "'w plugin option"

section \<open>Finding and leaving the current step\<close>

text \<open>The index of the first step of a name, with the step.\<close>

fun findStep :: "string \<Rightarrow> step list \<Rightarrow> (step \<times> nat) option" where
  "findStep name [] = None"
| "findStep name (s # ss) = (if step_Name s = name then Some (s, 0)
     else map_option (\<lambda>(t, i). (t, Suc i)) (findStep name ss))"

definition resolveCurrentStep :: "rollout \<Rightarrow> (step \<times> nat) option" where
  "resolveCurrentStep ro = (case ro_Steps ro of
     [] \<Rightarrow> None
   | s # ss \<Rightarrow> (if st_CurrentStep (ro_Status ro) = [] then Some (s, 0)
               else findStep (st_CurrentStep (ro_Status ro)) (s # ss)))"

definition completedStatus :: "rolloutStatus \<Rightarrow> rolloutStatus" where
  "completedStatus st = st\<lparr>st_CurrentStep := [], st_StepStartedAt := None, st_Phase := PhaseHealthy,
     st_Message := ''rollout complete''\<rparr>"

definition enteredStatus :: "string \<Rightarrow> time \<Rightarrow> rolloutStatus \<Rightarrow> rolloutStatus" where
  "enteredStatus name now st = st\<lparr>st_CurrentStep := name, st_StepStartedAt := Some now,
     st_PauseConditions := [], st_Phase := PhaseProgressing\<rparr>"

definition advanceStep :: "'w executor \<Rightarrow> rollout \<Rightarrow> nat \<Rightarrow> ('w, unit) io" where
  "advanceStep E ro idx =
     (if idx + 1 \<ge> length (ro_Steps ro)
      then updateRolloutStatus (ex_env E) (with_Status completedStatus ro)
      else bindE (timeNow (ex_env E)) (\<lambda>now.
        updateRolloutStatus (ex_env E)
          (with_Status (enteredStatus (step_Name (ro_Steps ro ! (idx + 1))) now) ro)))"

definition finalize :: "'w executor \<Rightarrow> rollout \<Rightarrow> replicaSet option \<Rightarrow> replicaSet list \<Rightarrow> ('w, unit) io" where
  "finalize E ro newRS oldRSs =
     bindE (case newRS of None \<Rightarrow> returnE ()
            | Some rs \<Rightarrow> wrapE ''finalize: cleanup: %w'' []
                (cleanupDeployment (ex_env E) oldRSs (asDeploymentView ro (ro_Spec ro)))) (\<lambda>_.
     if st_Phase (ro_Status ro) = PhaseHealthy then returnE ()
     else
       let p1 = with_Status (\<lambda>st. st\<lparr>st_Phase := PhaseHealthy, st_Message := ''rollout complete'',
             st_PauseConditions := []\<rparr>) ro;
           patched = (case newRS of None \<Rightarrow> p1
             | Some rs \<Rightarrow> with_Status (\<lambda>st. st\<lparr>
                 st_StableRevision := smap_get (the_smap (rs_Annotations rs)) RevisionAnnotation,
                 st_CurrentPodHash := smap_get (rs_Labels rs) DefaultDeploymentUniqueLabelKey\<rparr>) p1)
       in updateRolloutStatus (ex_env E) patched)"

section \<open>SetWeight\<close>

definition shouldVerifyWeight :: "rollout \<Rightarrow> bool" where
  "shouldVerifyWeight ro = (case spec_TrafficRouting (ro_Spec ro) of None \<Rightarrow> False
     | Some t \<Rightarrow> tr_VerifyWeight t \<noteq> ''Disabled'')"

text \<open>The stamp of \<open>status.currentWeight\<close>, skipped when it is already right.\<close>

definition stampWeight :: "'w executor \<Rightarrow> string \<Rightarrow> string list \<Rightarrow> rollout \<Rightarrow> int \<Rightarrow> ('w, rollout) io" where
  "stampWeight E fmt args ro w =
     (if st_CurrentWeight (ro_Status ro) \<noteq> w then
        let patched = with_Status (\<lambda>st. st\<lparr>st_CurrentWeight := w\<rparr>) ro
        in bindE (wrapE fmt args (updateRolloutStatus (ex_env E) patched)) (\<lambda>_. returnE patched)
      else returnE ro)"

definition runSetWeight ::
    "'w executor \<Rightarrow> rollout \<Rightarrow> step \<Rightarrow> setWeightStep \<Rightarrow> nat \<Rightarrow> ('w, duration) io" where
  "runSetWeight E ro step sw idx = (case ex_router E of
     None \<Rightarrow> failE (Errorf ''step %q: setWeight requires spec.trafficRouting'' [step_Name step])
   | Some router \<Rightarrow>
      bindE (wrapE ''step %q: set weight: %w'' [step_Name step] (setWeight router ro (sw_Weight sw))) (\<lambda>_.
      bindE (if shouldVerifyWeight ro
             then wrapE ''step %q: verify weight: %w'' [step_Name step] (verifyWeight router ro (sw_Weight sw))
             else returnE True) (\<lambda>ok.
      if \<not> ok then returnE (2 * Second)
      else bindE (stampWeight E ''step %q: stamp currentWeight: %w'' [step_Name step] ro (sw_Weight sw))
        (\<lambda>ro'. bindE (advanceStep E ro' idx) (\<lambda>_. returnE 0)))))"

section \<open>SetCanaryScale\<close>

definition percentOf :: "lib \<Rightarrow> int \<Rightarrow> intOrString \<Rightarrow> int res" where
  "percentOf L tot p =
     (let p' = (case p of FromInt n \<Rightarrow> FromString (sprintf ''%d%%'' [FormatInt n]) | FromString s \<Rightarrow> p)
      in bindR (lib_GetScaledValue L (Some p') tot True) (\<lambda>v.
         Inr (if v < 0 then 0 else if v > tot then tot else wrap32 v)))"

text \<open>The walk back from a step; the argument is the prefix up to it, last step first.\<close>

fun backWeight :: "step list \<Rightarrow> int" where
  "backWeight [] = 0"
| "backWeight (s # ss) = (case step_SetWeight s of Some sw \<Rightarrow> sw_Weight sw | None \<Rightarrow> backWeight ss)"

definition lastSetWeight :: "rollout \<Rightarrow> int" where
  "lastSetWeight ro =
     (let steps = ro_Steps ro;
          upto = (case findStep (st_CurrentStep (ro_Status ro)) steps of
            Some (s, i) \<Rightarrow> take (Suc i) steps | None \<Rightarrow> steps)
      in backWeight (rev upto))"

definition wrapR :: "string \<Rightarrow> string list \<Rightarrow> 'a res \<Rightarrow> 'a res" where
  "wrapR f as r = (case r of Inl e \<Rightarrow> Inl (wrap_error f as e) | Inr x \<Rightarrow> Inr x)"

definition resolveCanaryScale :: "lib \<Rightarrow> rollout \<Rightarrow> setCanaryScaleStep \<Rightarrow> int res" where
  "resolveCanaryScale L ro scs =
     (let desired = (case spec_Replicas (ro_Spec ro) of None \<Rightarrow> 1 | Some n \<Rightarrow> n) in
      case scs_Replicas scs of
        Some n \<Rightarrow> Inr n
      | None \<Rightarrow> (case scs_Percent scs of
          Some p \<Rightarrow> wrapR ''resolve percent: %w'' [] (percentOf L desired p)
        | None \<Rightarrow>
           (if scs_MatchTrafficWeight scs
            then wrapR ''match traffic weight: %w'' [] (percentOf L desired (FromInt (lastSetWeight ro)))
            else Inl (Errorf ''setCanaryScale: no variant set'' []))))"

definition runSetCanaryScale ::
    "'w executor \<Rightarrow> rollout \<Rightarrow> step \<Rightarrow> setCanaryScaleStep \<Rightarrow> nat \<Rightarrow> replicaSet option \<Rightarrow> ('w, duration) io" where
  "runSetCanaryScale E ro step scs idx newRS = (case newRS of
     None \<Rightarrow> failE (Errorf ''step %q: setCanaryScale has no canary ReplicaSet to scale'' [step_Name step])
   | Some rs \<Rightarrow>
      bindE (wrapE ''step %q: %w'' [step_Name step] (liftE (resolveCanaryScale (ex_lib E) ro scs))) (\<lambda>desired.
      bindE (if rs_Replicas rs = Some desired then returnE ()
             else bindE (wrapE ''step %q: scale canary RS: %w'' [step_Name step]
               (scaleReplicaSet (ex_lib E) (ex_env E) rs desired (asDeploymentView ro (ro_Spec ro))
                 ''setCanaryScale'')) (\<lambda>_. returnE ())) (\<lambda>_.
      bindE (advanceStep E ro idx) (\<lambda>_. returnE 0))))"

section \<open>Pause\<close>

definition pauseUntil :: "time \<Rightarrow> duration option \<Rightarrow> time option" where
  "pauseUntil start d = (case d of None \<Rightarrow> None | Some n \<Rightarrow> Some (start + n))"

definition pausedStatus :: "time \<Rightarrow> duration option \<Rightarrow> rolloutStatus \<Rightarrow> rolloutStatus" where
  "pausedStatus now d st = st\<lparr>st_Phase := PhasePaused,
     st_PauseConditions := [\<lparr>pc_Reason = PauseReasonPausedStep, pc_StartTime = now,
       pc_Until = pauseUntil now d, pc_Message = []\<rparr>],
     st_StepStartedAt := Some now\<rparr>"

definition runPause :: "'w executor \<Rightarrow> rollout \<Rightarrow> pauseStep \<Rightarrow> nat \<Rightarrow> ('w, duration) io" where
  "runPause E ro p idx =
     bindE (timeNow (ex_env E)) (\<lambda>now.
     case st_PauseConditions (ro_Status ro) of
       [] \<Rightarrow>
        bindE (updateRolloutStatus (ex_env E) (with_Status (pausedStatus now (pause_Duration p)) ro)) (\<lambda>_.
        returnE (case pause_Duration p of None \<Rightarrow> 0 | Some d \<Rightarrow> d))
     | c # _ \<Rightarrow>
        (case pause_Duration p of
           None \<Rightarrow> returnE 0
         | Some d \<Rightarrow>
            (let elapsed = time_Sub now (pc_StartTime c)
             in if elapsed < d then returnE (wrap64 (d - elapsed))
                else bindE (advanceStep E ro idx) (\<lambda>_. returnE 0))))"

section \<open>Analysis\<close>

text \<open>
  \<open>truncate64\<close>: a string over 63 bytes keeps its first 57 and a five-digit checksum of the rest,
  computed in \<open>uint32\<close>.
\<close>

definition tailChecksum :: "string \<Rightarrow> 32 word" where
  "tailChecksum s = foldl (\<lambda>h c. h * 31 + word_of_nat (of_char c)) 0 s"

definition pad5 :: "nat \<Rightarrow> string" where
  "pad5 n = replicate (5 - length (show_nat n)) CHR ''0'' @ show_nat n"

definition truncate64 :: "string \<Rightarrow> string" where
  "truncate64 s = (if length s \<le> 63 then s
     else take 57 s @ ''-'' @ pad5 (unat (tailChecksum (drop 57 s) mod 65535)))"

definition analysisRunName :: "rollout \<Rightarrow> step \<Rightarrow> string" where
  "analysisRunName ro step =
     (let rev = (if st_CurrentPodHash (ro_Status ro) = [] then ''initial'' else st_CurrentPodHash (ro_Status ro))
      in truncate64 (sprintf ''%s-%s-%s'' [ro_Name ro, step_Name step, rev]))"

text \<open>
  The merge of the templates. \<open>argMap\<close> and \<open>dryRunSet\<close> keep the order of first insertion; the
  source's maps have none, and nothing depends on it.
\<close>

record merged =
  mg_Metrics :: "metric list"
  mg_Args :: "(string \<times> analysisArg) list"
  mg_DryRun :: "string list"

definition addDefaultArg :: "analysisArg \<Rightarrow> (string \<times> analysisArg) list \<Rightarrow> (string \<times> analysisArg) list" where
  "addDefaultArg a m = (if map_of m (arg_Name a) = None then m @ [(arg_Name a, a)] else m)"

definition mergeTemplate :: "analysisTemplateSpec \<Rightarrow> merged \<Rightarrow> merged" where
  "mergeTemplate t g = \<lparr>mg_Metrics = mg_Metrics g @ ats_Metrics t,
     mg_Args = fold addDefaultArg (ats_Args t) (mg_Args g),
     mg_DryRun = fold List.insert (map dry_MetricName (ats_DryRun t)) (mg_DryRun g)\<rparr>"

definition templateKind :: "templateRef \<Rightarrow> string" where
  "templateKind ref = (if tref_Kind ref = [] then ''AnalysisTemplate'' else tref_Kind ref)"

fun loadTemplates :: "'w executor \<Rightarrow> rollout \<Rightarrow> templateRef list \<Rightarrow> merged \<Rightarrow> ('w, merged) io" where
  "loadTemplates E ro [] g = returnE g"
| "loadTemplates E ro (ref # refs) g =
     (if templateKind ref = ''AnalysisTemplate'' then
        bindE (wrapE ''load AnalysisTemplate %s/%s: %w'' [ro_Namespace ro, tref_Name ref]
          (getAnalysisTemplate (ex_env E) (ro_Namespace ro) (tref_Name ref))) (\<lambda>tpl.
        loadTemplates E ro refs (mergeTemplate (at_Spec tpl) g))
      else if templateKind ref = ''ClusterAnalysisTemplate'' then
        bindE (wrapE ''load ClusterAnalysisTemplate %s: %w'' [tref_Name ref]
          (getClusterAnalysisTemplate (ex_env E) (tref_Name ref))) (\<lambda>tpl.
        loadTemplates E ro refs (mergeTemplate (at_Spec tpl) g))
      else failE (Errorf ''templateRef kind %q not supported'' [templateKind ref]))"

definition materializeTemplates ::
    "'w executor \<Rightarrow> rollout \<Rightarrow> templateRef list \<Rightarrow> analysisArg list \<Rightarrow> dryRunMetric list \<Rightarrow>
     ('w, metric list \<times> analysisArg list \<times> dryRunMetric list) io" where
  "materializeTemplates E ro refs argOverrides dryRunOverrides =
     bindE (loadTemplates E ro refs \<lparr>mg_Metrics = [], mg_Args = [], mg_DryRun = []\<rparr>) (\<lambda>g.
     returnE (mg_Metrics g,
       map snd (fold (\<lambda>a m. AList.update (arg_Name a) a m) argOverrides (mg_Args g)),
       map (\<lambda>n. \<lparr>dry_MetricName = n\<rparr>)
         (fold List.insert (map dry_MetricName dryRunOverrides) (mg_DryRun g))))"

definition newAnalysisRun ::
    "rollout \<Rightarrow> step \<Rightarrow> string \<Rightarrow> metric list \<times> analysisArg list \<times> dryRunMetric list \<Rightarrow> analysisRun" where
  "newAnalysisRun ro step name = (\<lambda>(metrics, args, dryRun).
     \<lparr>run_Meta = \<lparr>meta_Name = name, meta_Namespace = ro_Namespace ro, meta_UID = [],
        meta_ResourceVersion = [], meta_Generation = 0, meta_CreationTimestamp = 0,
        meta_DeletionTimestamp = None,
        meta_Labels = [(''rollouts.io/rollout'', ro_Name ro), (''rollouts.io/step'', step_Name step)],
        meta_Annotations = None,
        meta_OwnerReferences = [\<lparr>owner_APIVersion = SchemeGroupVersion, owner_Kind = ''Rollout'',
          owner_Name = ro_Name ro, owner_UID = ro_UID ro, owner_Controller = Some True,
          owner_BlockOwnerDeletion = Some True\<rparr>]\<rparr>,
      run_Spec = \<lparr>arspec_Metrics = metrics, arspec_Args = args, arspec_DryRun = dryRun,
        arspec_Terminate = False\<rparr>,
      run_Status = \<lparr>arst_Phase = [], arst_Message = [], arst_StartedAt = None, arst_CompletedAt = None,
        arst_MetricResults = []\<rparr>\<rparr>)"

definition getOrCreateAnalysisRun ::
    "'w executor \<Rightarrow> rollout \<Rightarrow> step \<Rightarrow> analysisStep \<Rightarrow> string \<Rightarrow> ('w, analysisRun) io" where
  "getOrCreateAnalysisRun E ro step a name =
     bindE (tryE (getAnalysisRun (ex_env E) (ro_Namespace ro) name)) (\<lambda>r. case r of
       Inr existing \<Rightarrow> returnE existing
     | Inl err \<Rightarrow>
        (if \<not> IsNotFound err then failE err
         else bindE (materializeTemplates E ro (as_TemplateRefs a) (as_Args a) (as_DryRun a)) (\<lambda>m.
           createAnalysisRun (ex_env E) (newAnalysisRun ro step name m))))"

text \<open>The replacement of the summary of that name, or its addition at the end.\<close>

fun upsertSummary :: "analysisRunSummary \<Rightarrow> analysisRunSummary list \<Rightarrow> analysisRunSummary list" where
  "upsertSummary s [] = [s]"
| "upsertSummary s (x # xs) = (if ars_Name x = ars_Name s then s # xs else x # upsertSummary s xs)"

definition recordAnalysisRun ::
    "'w executor \<Rightarrow> rollout \<Rightarrow> step \<Rightarrow> analysisRun \<Rightarrow> string \<Rightarrow> ('w, unit) io" where
  "recordAnalysisRun E ro step run phase =
     (let summary = \<lparr>ars_Name = run_Name run, ars_AtStep = step_Name step, ars_Phase = phase,
            ars_Message = arst_Message (run_Status run)\<rparr>
      in updateRolloutStatus (ex_env E) (with_Status (\<lambda>st. st\<lparr>
           st_AnalysisRunSummaries := upsertSummary summary (st_AnalysisRunSummaries st)\<rparr>) ro))"

definition degradedAndAborting :: "string \<Rightarrow> rollout \<Rightarrow> rollout" where
  "degradedAndAborting msg ro = with_Spec (\<lambda>sp. sp\<lparr>spec_Abort := True\<rparr>)
     (with_Status (\<lambda>st. st\<lparr>st_Phase := PhaseDegraded, st_Message := msg\<rparr>) ro)"

definition pausedFor :: "string \<Rightarrow> time \<Rightarrow> string \<Rightarrow> rollout \<Rightarrow> rollout" where
  "pausedFor reason now msg ro = with_Status (\<lambda>st. st\<lparr>st_Phase := PhasePaused,
     st_PauseConditions := [\<lparr>pc_Reason = reason, pc_StartTime = now, pc_Until = None,
       pc_Message = msg\<rparr>]\<rparr>) ro"

definition applyAnalysisFailure ::
    "'w executor \<Rightarrow> rollout \<Rightarrow> step \<Rightarrow> nat \<Rightarrow> string \<Rightarrow> analysisRun \<Rightarrow> ('w, duration) io" where
  "applyAnalysisFailure E ro step idx policy run =
     (let msg = sprintf ''analysis %q failed: %s'' [run_Name run, arst_Message (run_Status run)] in
      if policy = ''Rollback'' then
        bindE (updateRollout (ex_env E) (degradedAndAborting msg ro)) (\<lambda>_. returnE 0)
      else if policy = ''Pause'' then
        bindE (timeNow (ex_env E)) (\<lambda>now.
        bindE (updateRolloutStatus (ex_env E) (pausedFor PauseReasonAnalysisFailed now msg ro)) (\<lambda>_.
        returnE 0))
      else if policy = ''Ignore'' then bindE (advanceStep E ro idx) (\<lambda>_. returnE 0)
      else failE (Errorf ''step %q: unknown FailurePolicy %q'' [step_Name step, policy]))"

text \<open>The first non-empty policy of the step's namespaced templates; templates that fail to load are skipped.\<close>

fun inconclusivePolicy :: "'w executor \<Rightarrow> rollout \<Rightarrow> templateRef list \<Rightarrow> ('w, string) io" where
  "inconclusivePolicy E ro [] = returnE ''Pause''"
| "inconclusivePolicy E ro (ref # refs) =
     (if templateKind ref = ''AnalysisTemplate'' then
        bindE (tryE (getAnalysisTemplate (ex_env E) (ro_Namespace ro) (tref_Name ref))) (\<lambda>r. case r of
          Inr tpl \<Rightarrow> (if ats_InconclusivePolicy (at_Spec tpl) \<noteq> [] then returnE (ats_InconclusivePolicy (at_Spec tpl))
                     else inconclusivePolicy E ro refs)
        | Inl _ \<Rightarrow> inconclusivePolicy E ro refs)
      else inconclusivePolicy E ro refs)"

definition applyAnalysisInconclusive ::
    "'w executor \<Rightarrow> rollout \<Rightarrow> step \<Rightarrow> analysisStep \<Rightarrow> nat \<Rightarrow> analysisRun \<Rightarrow> ('w, duration) io" where
  "applyAnalysisInconclusive E ro step a idx run =
     bindE (inconclusivePolicy E ro (as_TemplateRefs a)) (\<lambda>policy.
     let msg = sprintf ''analysis %q inconclusive: %s'' [run_Name run, arst_Message (run_Status run)] in
     if policy = ''Abort'' then
       bindE (updateRollout (ex_env E) (degradedAndAborting msg ro)) (\<lambda>_. returnE 0)
     else if policy = ''Pause'' then
       bindE (timeNow (ex_env E)) (\<lambda>now.
       bindE (updateRolloutStatus (ex_env E) (pausedFor PauseReasonAnalysisInconclusive now msg ro)) (\<lambda>_.
       returnE 0))
     else if policy = ''Ignore'' then bindE (advanceStep E ro idx) (\<lambda>_. returnE 0)
     else failE (Errorf ''step %q: unknown InconclusivePolicy %q'' [step_Name step, policy]))"

definition runAnalysis ::
    "'w executor \<Rightarrow> rollout \<Rightarrow> step \<Rightarrow> analysisStep \<Rightarrow> nat \<Rightarrow> ('w, duration) io" where
  "runAnalysis E ro step a idx =
     bindE (wrapE ''step %q: get/create analysis run: %w'' [step_Name step]
       (getOrCreateAnalysisRun E ro step a (analysisRunName ro step))) (\<lambda>run.
     if run_Phase run = ''Successful'' then
       bindE (recordAnalysisRun E ro step run ''Successful'') (\<lambda>_.
       bindE (advanceStep E ro idx) (\<lambda>_. returnE 0))
     else if run_Phase run = ''Failed'' \<or> run_Phase run = ''Error'' then
       bindE (recordAnalysisRun E ro step run (run_Phase run)) (\<lambda>_.
       applyAnalysisFailure E ro step idx
         (if as_FailurePolicy a = [] then ''Rollback'' else as_FailurePolicy a) run)
     else if run_Phase run = ''Inconclusive'' then applyAnalysisInconclusive E ro step a idx run
     else returnE (10 * Second))"

section \<open>Experiment\<close>

definition runExperiment :: "'w executor \<Rightarrow> rollout \<Rightarrow> step \<Rightarrow> nat \<Rightarrow> ('w, duration) io" where
  "runExperiment E ro step idx = bindE (advanceStep E ro idx) (\<lambda>_. returnE 0)"

section \<open>Promote\<close>

definition hasUserPromotion :: "rollout \<Rightarrow> bool" where
  "hasUserPromotion ro \<longleftrightarrow> st_PauseConditions (ro_Status ro) = [] \<and> st_Phase (ro_Status ro) \<noteq> PhasePaused"

definition repointService :: "'w executor \<Rightarrow> rollout \<Rightarrow> string \<Rightarrow> serviceRef \<Rightarrow> ('w, unit) io" where
  "repointService E ro hash ref =
     bindE (wrapE ''get service %s: %w'' [sref_Name ref]
       (getService (ex_env E) (ro_Namespace ro) (sref_Name ref))) (\<lambda>svc.
     let sel = the_smap (svc_Selector svc) in
     if smap_get sel DefaultDeploymentUniqueLabelKey = hash then returnE ()
     else wrapE ''update service %s: %w'' [sref_Name ref] (updateService (ex_env E) (ro_Namespace ro)
       (svc\<lparr>svc_Selector := Some (smap_set DefaultDeploymentUniqueLabelKey hash sel)\<rparr>)))"

definition repointServices :: "'w executor \<Rightarrow> rollout \<Rightarrow> replicaSet \<Rightarrow> ('w, unit) io" where
  "repointServices E ro newRS =
     (let hash = smap_get (rs_Labels newRS) DefaultDeploymentUniqueLabelKey in
      if hash = [] then failE (Errorf ''new RS %s has no pod-template-hash label'' [rs_Name newRS])
      else forE (spec_StableServices (ro_Spec ro)) (repointService E ro hash))"

definition scaleDownOld :: "'w executor \<Rightarrow> deployment \<Rightarrow> replicaSet \<Rightarrow> ('w, unit) io" where
  "scaleDownOld E d rs =
     (if rs_Replicas rs = None \<or> rs_Replicas rs = Some 0 then returnE ()
      else bindE (scaleReplicaSet (ex_lib E) (ex_env E) rs 0 d ''scaledDownAfterPromote'') (\<lambda>_. returnE ()))"

definition scaleDownAfterDelay :: "'w executor \<Rightarrow> rollout \<Rightarrow> replicaSet list \<Rightarrow> ('w, duration) io" where
  "scaleDownAfterDelay E ro oldRSs =
     (let delay = (case prog_ScaleDownDelaySeconds (spec_Progression (ro_Spec ro)) of
            None \<Rightarrow> 0 | Some n \<Rightarrow> n * Second)
      in bindE (case st_StepStartedAt (ro_Status ro) of None \<Rightarrow> timeNow (ex_env E) | Some t \<Rightarrow> returnE t)
        (\<lambda>startedAt.
         bindE (timeNow (ex_env E)) (\<lambda>now.
         let remaining = wrap64 (delay - time_Sub now startedAt) in
         if remaining > 0 then returnE remaining
         else bindE (forE oldRSs (scaleDownOld E (asDeploymentView ro (ro_Spec ro)))) (\<lambda>_. returnE 0))))"

definition runPromote ::
    "'w executor \<Rightarrow> rollout \<Rightarrow> step \<Rightarrow> nat \<Rightarrow> replicaSet option \<Rightarrow> replicaSet list \<Rightarrow> ('w, duration) io" where
  "runPromote E ro step idx newRS oldRSs =
     (if spec_AutoPromotion (ro_Spec ro) = AutoPromotionDisabled then
        failE (Errorf ''step %q: promote called but autoPromotion is Disabled'' [step_Name step])
      else if spec_AutoPromotion (ro_Spec ro) = AutoPromotionManual \<and> \<not> hasUserPromotion ro then
        (if st_PauseConditions (ro_Status ro) = [] then
           bindE (timeNow (ex_env E)) (\<lambda>now.
           bindE (updateRolloutStatus (ex_env E)
             (pausedFor PauseReasonAwaitingPromotion now ''awaiting user promotion'' ro)) (\<lambda>_. returnE 0))
         else returnE 0)
      else
        bindE (if st_Phase (ro_Status ro) \<noteq> PhasePromoting
               then updateRolloutStatus (ex_env E) (with_Status (\<lambda>st. st\<lparr>st_Phase := PhasePromoting\<rparr>) ro)
               else returnE ()) (\<lambda>_.
        bindE (case ex_router E of None \<Rightarrow> returnE ()
               | Some router \<Rightarrow> wrapE ''step %q: promote set weight: %w'' [step_Name step]
                   (setWeight router ro 100)) (\<lambda>_.
        bindE (stampWeight E ''step %q: stamp currentWeight=100: %w'' [step_Name step] ro 100) (\<lambda>ro'.
        bindE (case newRS of None \<Rightarrow> returnE ()
               | Some rs \<Rightarrow> wrapE ''step %q: repoint services: %w'' [step_Name step]
                   (repointServices E ro' rs)) (\<lambda>_.
        if \<not> observedSpecReplicas ro' then returnE (2 * Second)
        else bindE (wrapE ''step %q: scale down stable: %w'' [step_Name step]
               (scaleDownAfterDelay E ro' oldRSs)) (\<lambda>requeue.
          if requeue > 0 then returnE requeue
          else bindE (advanceStep E ro' idx) (\<lambda>_. returnE 0)))))))"

section \<open>Dispatch\<close>

definition Execute ::
    "'w executor \<Rightarrow> rollout \<Rightarrow> replicaSet option \<Rightarrow> replicaSet list \<Rightarrow> ('w, duration) io" where
  "Execute E ro newRS oldRSs = (case resolveCurrentStep ro of
     None \<Rightarrow> bindE (finalize E ro newRS oldRSs) (\<lambda>_. returnE 0)
   | Some (step, idx) \<Rightarrow>
      (case step_SetWeight step of Some sw \<Rightarrow> runSetWeight E ro step sw idx
       | None \<Rightarrow> (case step_SetCanaryScale step of Some scs \<Rightarrow> runSetCanaryScale E ro step scs idx newRS
       | None \<Rightarrow> (case step_Pause step of Some p \<Rightarrow> runPause E ro p idx
       | None \<Rightarrow> (case step_Analysis step of Some a \<Rightarrow> runAnalysis E ro step a idx
       | None \<Rightarrow> (case step_Experiment step of Some x \<Rightarrow> runExperiment E ro step idx
       | None \<Rightarrow> (case step_Promote step of Some _ \<Rightarrow> runPromote E ro step idx newRS oldRSs
       | None \<Rightarrow> failE (Errorf ''step %q has no action populated'' [step_Name step]))))))))"

section \<open>Walking through the steps\<close>

lemma findStep_SomeD: "findStep n ss = Some (s, i) \<Longrightarrow> i < length ss \<and> ss ! i = s \<and> step_Name s = n"
  by (induction ss arbitrary: i) (auto split: if_splits)

lemma findStep_nth:
  "distinct (map step_Name ss) \<Longrightarrow> i < length ss \<Longrightarrow> findStep (step_Name (ss ! i)) ss = Some (ss ! i, i)"
proof (induction ss arbitrary: i)
  case (Cons s ss)
  then show ?case
    by (cases i) (auto simp: nth_mem image_iff Ball_def)
qed simp

lemma findStep_None: "findStep n ss = None \<longleftrightarrow> n \<notin> step_Name ` set ss"
  by (induction ss) auto

text \<open>Step lists as the API server admits them: names are distinct and not empty.\<close>

definition well_named :: "rollout \<Rightarrow> bool" where
  "well_named ro \<longleftrightarrow> distinct (map step_Name (ro_Steps ro)) \<and> [] \<notin> set (map step_Name (ro_Steps ro))"

lemma resolve_entered:
  assumes "well_named ro" and "i < length (ro_Steps ro)"
  shows "resolveCurrentStep (with_Status (enteredStatus (step_Name (ro_Steps ro ! i)) now) ro)
     = Some (ro_Steps ro ! i, i)"
proof -
  have "step_Name (ro_Steps ro ! i) \<in> set (map step_Name (ro_Steps ro))"
    using assms(2) by (simp only: set_map nth_mem imageI)
  moreover have wn: "distinct (map step_Name (ro_Steps ro))" "[] \<notin> set (map step_Name (ro_Steps ro))"
    using assms(1) unfolding well_named_def by blast+
  ultimately have "step_Name (ro_Steps ro ! i) \<noteq> []" by metis
  moreover obtain t ts where "ro_Steps ro = t # ts"
    using assms(2) by (cases "ro_Steps ro") auto
  ultimately show ?thesis
    using findStep_nth [OF wn(1) assms(2)] by (simp add: resolveCurrentStep_def enteredStatus_def)
qed

lemma resolveCurrentStep_nth:
  "resolveCurrentStep ro = Some (s, i) \<Longrightarrow> i < length (ro_Steps ro) \<and> ro_Steps ro ! i = s"
  by (auto simp: resolveCurrentStep_def split: list.splits if_splits dest: findStep_SomeD)

text \<open>The rollout that \<open>advanceStep\<close> writes.\<close>

definition advancedStatus :: "rollout \<Rightarrow> nat \<Rightarrow> time \<Rightarrow> rollout" where
  "advancedStatus ro idx now = (if idx + 1 \<ge> length (ro_Steps ro) then with_Status completedStatus ro
     else with_Status (enteredStatus (step_Name (ro_Steps ro ! (idx + 1))) now) ro)"

lemma runs_at_advanceStep [runs_intros]:
  assumes "\<And>now. Q (Inr ()) (h0 @ [(UpdateRolloutStatus (advancedStatus ro idx now), True)])"
    and "\<And>now e. Q (Inl e) (h0 @ [(UpdateRolloutStatus (advancedStatus ro idx now), False)])"
    and "\<And>e. Q (Inl e) h0"
  shows "runs_at (advanceStep E ro idx) h0 s Q"
  using assms(1,2) unfolding advanceStep_def call_defs advancedStatus_def
  by (auto split: sum.splits intro!: runs_intros assms(3))

lemma advanceStep_new_requests:
  assumes "advanceStep E ro i s = (Inr (), s')"
  shows "\<exists>now. new_requests s s' = [(UpdateRolloutStatus (advancedStatus ro i now), True)]"
proof -
  have "runs_at (advanceStep E ro i) [] s (\<lambda>r h. case r of Inl _ \<Rightarrow> True
      | Inr _ \<Rightarrow> \<exists>now. h = [(UpdateRolloutStatus (advancedStatus ro i now), True)])"
    by (auto intro!: runs_intros)
  from runs_atD [OF this assms] show ?thesis by simp
qed

lemma advancedStatus_sel [simp]:
  "ro_Spec (advancedStatus ro idx now) = ro_Spec ro"
  "st_CurrentWeight (ro_Status (advancedStatus ro idx now)) = st_CurrentWeight (ro_Status ro)"
  by (simp_all add: advancedStatus_def completedStatus_def enteredStatus_def)

text \<open>An executor on the concrete cluster, with a router that accepts every weight.\<close>

definition E0 :: "unit executor" where
  "E0 = \<lparr>ex_lib = ref_lib, ex_env = env0, ex_router = Some router0\<rparr>"

definition routing0 :: trafficRoutingSpec where
  "routing0 = \<lparr>tr_Provider = ''Istio'', tr_VerifyWeight = [], tr_ManagedRoutes = [], tr_Istio = None,
     tr_Nginx = None, tr_ALB = None, tr_SMI = None, tr_Traefik = None, tr_APISIX = None\<rparr>"

section \<open>Properties of the step handlers\<close>

text \<open>
  With distinct, non-empty step names the executor walks the progression in order: when the
  current step is the one at index \<open>i\<close>, the status that \<open>advanceStep\<close> writes names the step at
  \<open>i + 1\<close>, which the next reconcile resolves to; after the last step the rollout is Healthy and names no
  step.
\<close>

lemma advanceStep_walks:
  assumes "well_named ro" and "resolveCurrentStep ro = Some (step, i)"
    and "advanceStep E ro i s = (Inr (), s')"
  shows "\<exists>ro'. new_requests s s' = [(UpdateRolloutStatus ro', True)] \<and>
     (if i + 1 < length (ro_Steps ro)
      then resolveCurrentStep ro' = Some (ro_Steps ro ! (i + 1), i + 1)
        \<and> st_Phase (ro_Status ro') = PhaseProgressing \<and> st_PauseConditions (ro_Status ro') = []
      else st_CurrentStep (ro_Status ro') = [] \<and> st_Phase (ro_Status ro') = PhaseHealthy)"
proof -
  obtain now where h: "new_requests s s' = [(UpdateRolloutStatus (advancedStatus ro i now), True)]"
    using advanceStep_new_requests [OF assms(3)] ..
  show ?thesis
  proof (cases "i + 1 < length (ro_Steps ro)")
    case True
    then have "advancedStatus ro i now = with_Status (enteredStatus (step_Name (ro_Steps ro ! (i + 1))) now) ro"
      by (simp add: advancedStatus_def)
    with True h show ?thesis
      using resolve_entered [OF assms(1) True] by (simp add: enteredStatus_def)
  next
    case False
    with h show ?thesis by (simp add: advancedStatus_def completedStatus_def)
  qed
qed

text \<open>
  C9. A rollout that has completed its last step is indistinguishable from one that has not begun:
  the status \<open>advanceStep\<close> writes there clears \<open>currentStep\<close>, and \<open>resolveCurrentStep\<close> answers with the
  first step again instead of reporting completion.
\<close>

theorem completed_rollout_resolves_to_first_step:
  assumes "ro_Steps ro \<noteq> []" and "length (ro_Steps ro) \<le> i + 1"
    and "advanceStep E ro i s = (Inr (), s')"
  shows "\<exists>ro'. new_requests s s' = [(UpdateRolloutStatus ro', True)]
     \<and> st_Message (ro_Status ro') = ''rollout complete''
     \<and> resolveCurrentStep ro' = Some (hd (ro_Steps ro), 0)"
  using assms(1,2) advanceStep_new_requests [OF assms(3)]
  by (auto simp: advancedStatus_def completedStatus_def resolveCurrentStep_def split: list.splits)

theorem completed_rollout_witness:
  "\<exists>ro'. new_requests world0 (snd (advanceStep E0 (rollout0 [step0 ''a'', step0 ''b'']) 1 world0))
       = [(UpdateRolloutStatus ro', True)]
     \<and> st_Message (ro_Status ro') = ''rollout complete''
     \<and> resolveCurrentStep ro' = Some (step0 ''a'', 0)"
  using completed_rollout_resolves_to_first_step [of "rollout0 [step0 ''a'', step0 ''b'']" 1 E0 world0
      "snd (advanceStep E0 (rollout0 [step0 ''a'', step0 ''b'']) 1 world0)"]
  by (simp add: advanceStep_def eff_eval rollout0_defs E0_def)

text \<open>
  C10. A SetWeight step moves on only after the router accepted the weight (and, where verification is
  on, answered a verification): every status it writes comes after the accepted weight, carries that weight
  as \<open>status.currentWeight\<close>, and the step never touches the spec.
\<close>

theorem runSetWeight_order:
  assumes "runSetWeight E ro step sw idx s = (r, s')"
  shows "hist s' = hist s @ new_requests s s'
     \<and> after (\<lambda>x. x = (RouterSetWeight (sw_Weight sw), True)) (\<lambda>(q, ok). \<not> is_read q \<and> q \<noteq> RouterSetWeight (sw_Weight sw))
         (new_requests s s')
     \<and> (shouldVerifyWeight ro \<longrightarrow>
         after (\<lambda>x. x = (RouterVerifyWeight (sw_Weight sw), True)) (\<lambda>(q, ok). \<exists>ro'. q = UpdateRolloutStatus ro')
           (new_requests s s'))
     \<and> (\<forall>(q, ok) \<in> set (new_requests s s'). \<forall>ro'. q = UpdateRolloutStatus ro' \<longrightarrow>
          ro_Spec ro' = ro_Spec ro \<and> st_CurrentWeight (ro_Status ro') = sw_Weight sw)"
proof -
  have "runs_at (runSetWeight E ro step sw idx) [] s (\<lambda>r h.
      after (\<lambda>x. x = (RouterSetWeight (sw_Weight sw), True)) (\<lambda>(q, ok). \<not> is_read q \<and> q \<noteq> RouterSetWeight (sw_Weight sw)) h
     \<and> (shouldVerifyWeight ro \<longrightarrow>
         after (\<lambda>x. x = (RouterVerifyWeight (sw_Weight sw), True)) (\<lambda>(q, ok). \<exists>ro'. q = UpdateRolloutStatus ro') h)
     \<and> (\<forall>(q, ok) \<in> set h. \<forall>ro'. q = UpdateRolloutStatus ro' \<longrightarrow>
          ro_Spec ro' = ro_Spec ro \<and> st_CurrentWeight (ro_Status ro') = sw_Weight sw))"
    unfolding runSetWeight_def stampWeight_def Let_def call_defs
    by (auto split: option.splits sum.splits intro!: runs_intros)
  from runs_atD [OF this assms] show ?thesis .
qed

theorem runSetWeight_order_witness:
  "new_requests world0 (snd (runSetWeight E0
      (rollout0 [step0 ''a'']) (step0 ''a'') \<lparr>sw_Weight = 20, sw_Matches = []\<rparr> 0 world0)) \<noteq> [] \<and>
   after (\<lambda>x. x = (RouterSetWeight 20, True)) (\<lambda>(q, ok). \<not> is_read q \<and> q \<noteq> RouterSetWeight 20)
     (new_requests world0 (snd (runSetWeight E0
      (rollout0 [step0 ''a'']) (step0 ''a'') \<lparr>sw_Weight = 20, sw_Matches = []\<rparr> 0 world0)))"
  using runSetWeight_order [of E0
      "rollout0 [step0 ''a'']" "step0 ''a''" "\<lparr>sw_Weight = 20, sw_Matches = []\<rparr>" 0 world0, OF prod.collapse [symmetric]]
  by (simp add: runSetWeight_def stampWeight_def advanceStep_def eff_eval new_requests_def shouldVerifyWeight_def
      rollout0_defs Let_def E0_def)

text \<open>
  When the router does not yet confirm the weight, a SetWeight step waits two seconds and changes
  nothing: the only requests are the weight and its verification, and no status is written.
\<close>

lemma runSetWeight_waits_for_router:
  assumes "ex_router E = Some P" and "shouldVerifyWeight ro"
    and "plug_SetWeight P ro (sw_Weight sw) (srv s) = (Inr (), v)"
    and "plug_VerifyWeight P ro (sw_Weight sw) v = (Inr False, v')"
  shows "runSetWeight E ro step sw idx s = (Inr (2 * Second),
     s\<lparr>srv := v', hist := hist s @ [(RouterSetWeight (sw_Weight sw), True), (RouterVerifyWeight (sw_Weight sw), True)]\<rparr>)"
  using assms by (simp add: runSetWeight_def bindE_def wrapE_def setWeight_def verifyWeight_def callE_def returnE_def)

text \<open>
  When a SetWeight step returns with nothing to wait for, the last thing it did was to write the status of the following
  step (or of the completed rollout) with the new weight stamped.
\<close>

lemma runSetWeight_last_write:
  assumes "runSetWeight E ro step sw idx s = (Inr 0, s')"
  shows "\<exists>h now. new_requests s s' = h @ [(UpdateRolloutStatus
     (advancedStatus (with_Status (\<lambda>st. st\<lparr>st_CurrentWeight := sw_Weight sw\<rparr>) ro) idx now), True)]"
proof -
  have eq: "with_Status (\<lambda>st. st\<lparr>st_CurrentWeight := sw_Weight sw\<rparr>) ro = ro"
    if "st_CurrentWeight (ro_Status ro) = sw_Weight sw"
    using that by (simp add: with_Status_def)
  have "runs_at (runSetWeight E ro step sw idx) [] s (\<lambda>r h. r = Inr 0 \<longrightarrow>
      (\<exists>h' now. h = h' @ [(UpdateRolloutStatus
        (advancedStatus (with_Status (\<lambda>st. st\<lparr>st_CurrentWeight := sw_Weight sw\<rparr>) ro) idx now), True)]))"
    unfolding runSetWeight_def stampWeight_def Let_def call_defs
    by (auto simp: eq split: option.splits sum.splits intro!: runs_intros) metis+
  from runs_atD [OF this assms] show ?thesis by simp
qed

section \<open>Pauses\<close>

text \<open>
  C11. A timed pause ends exactly when its duration has passed: at a clock reading \<open>now\<close> before the
  recorded start plus the duration the handler sends no request and asks to be called again at that instant;
  from that instant on it leaves the step.
\<close>

theorem runPause_timed:
  assumes "st_PauseConditions (ro_Status ro) = c # cs" and "pause_Duration p = Some d"
    and "clock_Now (ex_env E) (srv s) = (now, v)"
    and "in_i64 d" and "0 \<le> now - pc_StartTime c" and "in_i64 (now - pc_StartTime c)"
  shows "runPause E ro p idx s =
     (if now < pc_StartTime c + d then (Inr (pc_StartTime c + d - now), s\<lparr>srv := v\<rparr>)
      else bindE (advanceStep E ro idx) (\<lambda>_. returnE 0) (s\<lparr>srv := v\<rparr>))"
proof -
  have "time_Sub now (pc_StartTime c) = now - pc_StartTime c"
    using assms(6) by (simp add: time_Sub_def in_i64_def)
  moreover have "wrap64 (d - (now - pc_StartTime c)) = pc_StartTime c + d - now"
    if "now < pc_StartTime c + d"
    using that assms(4-6) by (subst wrap64_id) (simp_all add: in_i64_def)
  ultimately show ?thesis
    using assms(1-3) by (auto simp: runPause_def bindE_def timeNow_def silentE_def returnE_def)
qed

definition pauseCondition0 :: pauseCondition where
  "pauseCondition0 = \<lparr>pc_Reason = PauseReasonPausedStep, pc_StartTime = 0, pc_Until = None, pc_Message = []\<rparr>"

definition pausedRollout0 :: rollout where
  "pausedRollout0 = with_Status (\<lambda>st. st\<lparr>st_PauseConditions := [pauseCondition0]\<rparr>) (rollout0 [step0 ''a''])"

theorem runPause_timed_witness:
  "runPause (E0\<lparr>ex_env := env0\<lparr>clock_Now := (\<lambda>v. (7, v))\<rparr>\<rparr>) pausedRollout0 \<lparr>pause_Duration = Some 10\<rparr> 0 world0
     = (Inr 3, world0)"
  using runPause_timed [of pausedRollout0 pauseCondition0 "[]" "\<lparr>pause_Duration = Some 10\<rparr>" 10
      "E0\<lparr>ex_env := env0\<lparr>clock_Now := (\<lambda>v. (7, v))\<rparr>\<rparr>" world0 7 "()" 0]
  by (simp add: pausedRollout0_def pauseCondition0_def in_i64_def world0_def)

text \<open>
  C12. A pause without a duration is never left: whatever the status of the rollout, the clock and
  the server, every status its handler writes keeps the current step, and once a pause condition is recorded it
  sends no request at all.
\<close>

theorem runPause_indefinite_stays:
  assumes "pause_Duration p = None" and "runPause E ro p idx s = (r, s')"
  shows "(\<forall>w. r = Inr w \<longrightarrow> w = 0)
     \<and> (\<forall>(q, ok) \<in> set (new_requests s s'). \<exists>ro'. q = UpdateRolloutStatus ro'
          \<and> st_CurrentStep (ro_Status ro') = st_CurrentStep (ro_Status ro)
          \<and> st_PauseConditions (ro_Status ro') \<noteq> [])
     \<and> (st_PauseConditions (ro_Status ro) \<noteq> [] \<longrightarrow> new_requests s s' = [])"
proof -
  have "runs_at (runPause E ro p idx) [] s (\<lambda>r h. (\<forall>w. r = Inr w \<longrightarrow> w = 0)
     \<and> (\<forall>(q, ok) \<in> set h. \<exists>ro'. q = UpdateRolloutStatus ro'
          \<and> st_CurrentStep (ro_Status ro') = st_CurrentStep (ro_Status ro)
          \<and> st_PauseConditions (ro_Status ro') \<noteq> [])
     \<and> (st_PauseConditions (ro_Status ro) \<noteq> [] \<longrightarrow> h = []))"
    using assms(1) unfolding runPause_def call_defs
    by (cases "st_PauseConditions (ro_Status ro)")
      (auto simp: pausedStatus_def split: sum.splits intro!: runs_intros)
  from runs_atD [OF this assms(2)] show ?thesis by blast
qed

theorem runPause_indefinite_stays_witness:
  "new_requests world0 (snd (runPause E0 pausedRollout0 \<lparr>pause_Duration = None\<rparr> 0 world0)) = []"
  using runPause_indefinite_stays [of "\<lparr>pause_Duration = None\<rparr>" E0 pausedRollout0 0 world0, OF _ prod.collapse [symmetric]]
  by (simp add: pausedRollout0_def)

section \<open>The scale of the canary\<close>

lemma backWeight_append: "(\<And>s. s \<in> set ss \<Longrightarrow> step_SetWeight s = None) \<Longrightarrow> backWeight (ss @ ts) = backWeight ts"
  by (induction ss) auto

lemma lastSetWeight_at:
  assumes "findStep (st_CurrentStep (ro_Status ro)) (ro_Steps ro) = Some (s, i)" and "j \<le> i"
    and "step_SetWeight (ro_Steps ro ! j) = Some sw"
    and "\<And>k. j < k \<Longrightarrow> k \<le> i \<Longrightarrow> step_SetWeight (ro_Steps ro ! k) = None"
  shows "lastSetWeight ro = sw_Weight sw"
proof -
  let ?ss = "ro_Steps ro"
  define mid where "mid = drop (Suc j) (take (Suc i) ?ss)"
  have i: "i < length ?ss" using findStep_SomeD [OF assms(1)] by simp
  then have split: "take (Suc i) ?ss = take j ?ss @ ?ss ! j # mid"
    using assms(2) id_take_nth_drop [of j "take (Suc i) ?ss"] by (simp add: mid_def)
  have "step_SetWeight t = None" if "t \<in> set (rev mid)" for t
    using that i assms(4) by (auto simp: in_set_conv_nth mid_def)
  then have "backWeight (rev (take (Suc i) ?ss)) = sw_Weight sw"
    using assms(3) backWeight_append [of "rev mid" "?ss ! j # rev (take j ?ss)"] by (simp add: split)
  then show ?thesis
    using assms(1) by (simp add: lastSetWeight_def)
qed

lemma percent_of_up:
  assumes "0 \<le> p" and "p \<le> 100" and "0 \<le> n"
  shows "p * n \<le> 100 * percent_of p n True" and "100 * percent_of p n True < p * n + 100"
    and "0 \<le> percent_of p n True" and "percent_of p n True \<le> n"
proof -
  have pn: "0 \<le> p * n" "p * n \<le> 100 * n"
    using assms by (simp_all add: mult_right_mono)
  show "p * n \<le> 100 * percent_of p n True" "100 * percent_of p n True < p * n + 100"
    by (simp_all add: percent_of_def)
  then show "0 \<le> percent_of p n True" "percent_of p n True \<le> n"
    using pn by linarith+
qed

lemma percentOf_exact:
  assumes "scaled_value_spec (lib_GetScaledValue L)" and "0 \<le> p" and "p \<le> 100" and "0 \<le> n" and "in_i32 n"
  shows "percentOf L n (FromInt p) = Inr (percent_of p n True)"
proof -
  note b = percent_of_up(3,4) [OF assms(2-4)]
  then have "in_i32 (percent_of p n True)"
    using assms(5) unfolding in_i32_def by linarith
  then show ?thesis
    using scaled_value_specD(2) [OF assms(1-3,5), of True] b
    by (simp add: percentOf_def bindR_def)
qed

text \<open>
  A SetCanaryScale step that matches the traffic weight asks for the weight's share of the
  desired replicas, rounded up: the weight is that of the last SetWeight step at or before the current one, and
  the answer lies between zero and the desired count.
\<close>

lemma resolveCanaryScale_matches_traffic:
  assumes "scaled_value_spec (lib_GetScaledValue L)"
    and "scs_Replicas scs = None" and "scs_Percent scs = None" and "scs_MatchTrafficWeight scs"
    and "spec_Replicas (ro_Spec ro) = Some n" and "0 \<le> n" and "in_i32 n"
    and "findStep (st_CurrentStep (ro_Status ro)) (ro_Steps ro) = Some (step, i)" and "j \<le> i"
    and "step_SetWeight (ro_Steps ro ! j) = Some sw" and "0 \<le> sw_Weight sw" and "sw_Weight sw \<le> 100"
    and "\<forall>k. j < k \<and> k \<le> i \<longrightarrow> step_SetWeight (ro_Steps ro ! k) = None"
  shows "\<exists>c. resolveCanaryScale L ro scs = Inr c \<and> sw_Weight sw * n \<le> 100 * c \<and> 100 * c < sw_Weight sw * n + 100
     \<and> 0 \<le> c \<and> c \<le> n"
proof -
  have "lastSetWeight ro = sw_Weight sw"
    using assms(8-10,13) by (intro lastSetWeight_at) auto
  then show ?thesis
    using percentOf_exact [OF assms(1,11,12,6,7)] percent_of_up [OF assms(11,12,6)] assms(2-5) by (simp add: resolveCanaryScale_def wrapR_def)
qed

definition weightStep0 :: "string \<Rightarrow> int \<Rightarrow> step" where
  "weightStep0 n w = (step0 n)\<lparr>step_SetWeight := Some \<lparr>sw_Weight = w, sw_Matches = []\<rparr>\<rparr>"

section \<open>Names of analysis runs\<close>

lemma length_show_nat: "0 < k \<Longrightarrow> n < 10 ^ k \<Longrightarrow> length (show_nat n) \<le> k"
proof (induction k arbitrary: n)
  case (Suc k)
  show ?case
  proof (cases "n < 10")
    case False
    then have "0 < k" using Suc.prems(2) by (cases k) auto
    moreover have "n div 10 < 10 ^ k" using Suc.prems(2) by (simp add: div_less_iff_less_mult mult.commute)
    ultimately show ?thesis using Suc.IH False by (simp add: show_nat.simps [of n])
  qed (simp add: show_nat.simps [of n])
qed simp

lemma length_pad5: "n < 100000 \<Longrightarrow> length (pad5 n) = 5"
  using length_show_nat [of 5 n] by (simp add: pad5_def)

text \<open>
  The name of an analysis run fits the 63 characters of a label value: a name that fits is
  the rollout, the step and the revision joined by dashes, a longer one keeps the first 57 characters of that.
\<close>

lemma analysisRunName_fits:
  "length (analysisRunName ro step) \<le> 63
   \<and> take 57 (analysisRunName ro step) = take 57 (ro_Name ro @ ''-'' @ step_Name step @ ''-'' @
       (if st_CurrentPodHash (ro_Status ro) = [] then ''initial'' else st_CurrentPodHash (ro_Status ro)))"
proof -
  have "unat (w mod 65535) < 100000" for w :: "32 word"
    by (rule le_less_trans [of _ 65534]) (simp_all add: unat_mod_distrib le_less_Suc_eq less_Suc_eq_le [symmetric])
  then have "length (truncate64 s) \<le> 63 \<and> take 57 (truncate64 s) = take 57 s" for s
    by (simp add: truncate64_def length_pad5)
  then show ?thesis by (simp add: analysisRunName_def)
qed

section \<open>Analysis gates the progression\<close>

text \<open>The requests that keep the rollout at its current step.\<close>

definition keepsStep :: "rollout \<Rightarrow> request \<Rightarrow> bool" where
  "keepsStep ro q = (case q of
     UpdateRolloutStatus ro' \<Rightarrow> st_CurrentStep (ro_Status ro') = st_CurrentStep (ro_Status ro)
   | UpdateRollout ro' \<Rightarrow> st_CurrentStep (ro_Status ro') = st_CurrentStep (ro_Status ro) \<and> spec_Abort (ro_Spec ro')
   | _ \<Rightarrow> False)"

lemma runAnalysis_keepsStep:
  assumes "getOrCreateAnalysisRun E ro step a (analysisRunName ro step) s = (Inr run, s1)"
    and "run_Phase run \<noteq> ''Successful''" and "run_Phase run \<noteq> ''Inconclusive''"
    and "as_FailurePolicy a \<noteq> ''Ignore''"
    and "runAnalysis E ro step a idx s = (r, s')"
  shows "\<forall>(q, ok) \<in> set (new_requests s1 s'). keepsStep ro q"
    and "run_Phase run \<noteq> ''Failed'' \<Longrightarrow> run_Phase run \<noteq> ''Error'' \<Longrightarrow> r = Inr (10 * Second) \<and> s' = s1"
    and "run_Phase run = ''Failed'' \<or> run_Phase run = ''Error'' \<Longrightarrow> as_FailurePolicy a \<in> {[], ''Rollback''} \<Longrightarrow> \<not> isl r
         \<Longrightarrow> r = Inr 0 \<and> (\<exists>h ro'. new_requests s1 s' = h @ [(UpdateRollout ro', True)]
                \<and> spec_Abort (ro_Spec ro') \<and> st_Phase (ro_Status ro') = PhaseDegraded)"
proof -
  define m where "m = bindE (recordAnalysisRun E ro step run (run_Phase run)) (\<lambda>_.
       applyAnalysisFailure E ro step idx (if as_FailurePolicy a = [] then ''Rollback'' else as_FailurePolicy a) run)"
  let ?failed = "run_Phase run = ''Failed'' \<or> run_Phase run = ''Error''"
  have polled: "r = Inr (10 * Second) \<and> s' = s1" if "\<not> ?failed"
    using that assms by (simp add: runAnalysis_def bindE_def wrapE_def returnE_def split: prod.splits)
  have ms: "m s1 = (r, s')" if ?failed
    using assms that by (auto simp: m_def runAnalysis_def bindE_def wrapE_def split: prod.splits sum.splits)
  have "runs_at m [] s1 (\<lambda>r h. (\<forall>(q, ok) \<in> set h. keepsStep ro q) \<and>
     (as_FailurePolicy a \<in> {[], ''Rollback''} \<and> \<not> isl r \<longrightarrow>
        r = Inr 0 \<and> (\<exists>h' ro'. h = h' @ [(UpdateRollout ro', True)]
                \<and> spec_Abort (ro_Spec ro') \<and> st_Phase (ro_Status ro') = PhaseDegraded)))"
    using assms(4) unfolding m_def recordAnalysisRun_def applyAnalysisFailure_def Let_def call_defs
    by (auto simp: keepsStep_def degradedAndAborting_def pausedFor_def split: sum.splits intro!: runs_intros)
  note failed = runs_atD [OF this ms]
  show "\<forall>(q, ok) \<in> set (new_requests s1 s'). keepsStep ro q"
    using failed polled by (cases ?failed) (auto simp: new_requests_def)
  show "run_Phase run \<noteq> ''Failed'' \<Longrightarrow> run_Phase run \<noteq> ''Error'' \<Longrightarrow> r = Inr (10 * Second) \<and> s' = s1" using polled by blast
  show "r = Inr 0 \<and> (\<exists>h ro'. new_requests s1 s' = h @ [(UpdateRollout ro', True)]
                \<and> spec_Abort (ro_Spec ro') \<and> st_Phase (ro_Status ro') = PhaseDegraded)"
    if ?failed "as_FailurePolicy a \<in> {[], ''Rollback''}" "\<not> isl r"
    using failed that by auto
qed

text \<open>
  C13. An analysis step holds the rollout back until its run succeeds. Once the run has been read
  or created, while it is not Successful (and not Inconclusive) and the failure policy is not Ignore, no request
  leaves the current step. A run that is still going is polled every ten seconds without any request; a failed
  one under the default policy ends, if the handler returns, with the abort flag written to the spec.
\<close>

theorem runAnalysis_gates:
  assumes "getOrCreateAnalysisRun E ro step a (analysisRunName ro step) s = (Inr run, s1)"
    and "run_Phase run \<noteq> ''Successful''" and "run_Phase run \<noteq> ''Inconclusive''"
    and "as_FailurePolicy a \<noteq> ''Ignore''"
    and "runAnalysis E ro step a idx s = (r, s')"
  shows "(\<forall>(q, ok) \<in> set (new_requests s1 s'). keepsStep ro q)
     \<and> (run_Phase run \<noteq> ''Failed'' \<and> run_Phase run \<noteq> ''Error'' \<longrightarrow> r = Inr (10 * Second) \<and> s' = s1)
     \<and> ((run_Phase run = ''Failed'' \<or> run_Phase run = ''Error'') \<and> as_FailurePolicy a \<in> {[], ''Rollback''} \<and> \<not> isl r
         \<longrightarrow> r = Inr 0 \<and> (\<exists>h ro'. new_requests s1 s' = h @ [(UpdateRollout ro', True)]
                \<and> spec_Abort (ro_Spec ro') \<and> st_Phase (ro_Status ro') = PhaseDegraded))"
  using runAnalysis_keepsStep [OF assms] by blast

definition failedRun0 :: analysisRun where
  "failedRun0 = (run0 ''r'' [])\<lparr>run_Status := (run_Status (run0 ''r'' []))\<lparr>arst_Phase := ''Failed''\<rparr>\<rparr>"

definition analysisStep0 :: analysisStep where
  "analysisStep0 = \<lparr>as_TemplateRefs = [], as_Args = [], as_DryRun = [], as_FailurePolicy = []\<rparr>"

definition failingExecutor0 :: "unit executor" where
  "failingExecutor0 = E0\<lparr>ex_env := env0\<lparr>api_GetAnalysisRun := (\<lambda>_ _. returnE failedRun0)\<rparr>\<rparr>"

theorem runAnalysis_gates_witness:
  "\<exists>h ro'. new_requests world0 (snd (runAnalysis failingExecutor0 (rollout0 [step0 ''a'']) (step0 ''a'') analysisStep0 0 world0))
     = h @ [(UpdateRollout ro', True)] \<and> spec_Abort (ro_Spec ro') \<and> st_Phase (ro_Status ro') = PhaseDegraded"
  using runAnalysis_gates [of failingExecutor0 "rollout0 [step0 ''a'']" "step0 ''a''" analysisStep0 world0 failedRun0
      "world0\<lparr>hist := [(GetAnalysisRun ''prod'' (analysisRunName (rollout0 [step0 ''a'']) (step0 ''a'')), True)]\<rparr>" 0
      "fst (runAnalysis failingExecutor0 (rollout0 [step0 ''a'']) (step0 ''a'') analysisStep0 0 world0)"
      "snd (runAnalysis failingExecutor0 (rollout0 [step0 ''a'']) (step0 ''a'') analysisStep0 0 world0)"]
  by (simp add: runAnalysis_def getOrCreateAnalysisRun_def failingExecutor0_def E0_def eff_eval analysisStep0_def
      failedRun0_def run0_def recordAnalysisRun_def applyAnalysisFailure_def new_requests_def rollout0_defs Let_def)

section \<open>Promotion\<close>

definition touchesTraffic :: "request \<Rightarrow> bool" where
  "touchesTraffic q \<longleftrightarrow> (\<exists>ns x. q = UpdateService ns x) \<or> (\<exists>ns x. q = UpdateReplicaSet ns x)"

lemma emits_repointServices:
  "emits (\<lambda>q. is_read q \<or> (\<exists>ns x. q = UpdateService ns x)) (repointServices E ro rs)"
  unfolding repointServices_def repointService_def Let_def call_defs
  by (intro emits_intros) auto

lemma emits_scaleDownAfterDelay:
  "emits (\<lambda>q. \<exists>rs \<in> set oldRSs. scales rs 0 q) (scaleDownAfterDelay E ro oldRSs)"
  unfolding scaleDownAfterDelay_def scaleDownOld_def Let_def call_defs
  by (intro emits_intros) (auto intro!: emits_intros emits_mono [OF emits_scaleReplicaSet])

text \<open>
  The invariant of a promotion on its requests: what moves the workload or leaves the step comes
  after the accepted weight 100, and the ReplicaSets touched are old ones going to zero.
\<close>

definition movesOn :: "rollout \<Rightarrow> request \<Rightarrow> bool" where
  "movesOn ro q \<longleftrightarrow> touchesTraffic q \<or>
     (\<exists>ro'. q = UpdateRolloutStatus ro' \<and> st_CurrentStep (ro_Status ro') \<noteq> st_CurrentStep (ro_Status ro))"

definition retiresOld :: "rollout \<Rightarrow> replicaSet list \<Rightarrow> request \<Rightarrow> bool" where
  "retiresOld ro oldRSs q \<longleftrightarrow> ((\<exists>ns x. q = UpdateReplicaSet ns x) \<longrightarrow>
     observedSpecReplicas ro \<and> (\<exists>rs \<in> set oldRSs. scales rs 0 q))"

definition promoteInv :: "rollout \<Rightarrow> replicaSet list \<Rightarrow> (request \<times> bool) list \<Rightarrow> bool" where
  "promoteInv ro oldRSs h \<longleftrightarrow> after (\<lambda>x. x = (RouterSetWeight 100, True)) (\<lambda>(q, ok). movesOn ro q) h
     \<and> (\<forall>(q, ok) \<in> set h. retiresOld ro oldRSs q)"

definition shiftedInv :: "rollout \<Rightarrow> replicaSet list \<Rightarrow> (request \<times> bool) list \<Rightarrow> bool" where
  "shiftedInv ro oldRSs h \<longleftrightarrow> promoteInv ro oldRSs h \<and> (RouterSetWeight 100, True) \<in> set h"

lemma movesOn_simps [simp]:
  "\<not> movesOn ro (RouterSetWeight w)"
  "movesOn ro (UpdateRolloutStatus ro') \<longleftrightarrow> st_CurrentStep (ro_Status ro') \<noteq> st_CurrentStep (ro_Status ro)"
  by (auto simp: movesOn_def touchesTraffic_def)

lemma retiresOld_simps [simp]:
  "retiresOld ro oldRSs (RouterSetWeight w)" "retiresOld ro oldRSs (UpdateRolloutStatus ro')"
  by (auto simp: retiresOld_def)

lemma promoteInv_snoc:
  "promoteInv ro oldRSs h \<Longrightarrow> retiresOld ro oldRSs q \<Longrightarrow> \<not> movesOn ro q \<Longrightarrow> promoteInv ro oldRSs (h @ [(q, b)])"
  by (auto simp: promoteInv_def after_snoc)

lemma shiftedInv_router: "promoteInv ro oldRSs h \<Longrightarrow> shiftedInv ro oldRSs (h @ [(RouterSetWeight 100, True)])"
  by (simp add: shiftedInv_def promoteInv_snoc)

lemma shiftedInv_append:
  "shiftedInv ro oldRSs h \<Longrightarrow> list_all (\<lambda>(q, ok). retiresOld ro oldRSs q) g \<Longrightarrow> shiftedInv ro oldRSs (h @ g)"
  by (auto simp: shiftedInv_def promoteInv_def after_append list_all_iff)

lemma shiftedInv_snoc:
  "shiftedInv ro oldRSs h \<Longrightarrow> retiresOld ro oldRSs q \<Longrightarrow> shiftedInv ro oldRSs (h @ [(q, b)])"
  by (simp add: shiftedInv_append)

lemma runs_at_emits_shifted:
  assumes "emits P m" and "\<And>q. P q \<Longrightarrow> retiresOld ro oldRSs q" and "shiftedInv ro oldRSs h"
    and "\<And>r h'. shiftedInv ro oldRSs h' \<Longrightarrow> Q r h'"
  shows "runs_at m h s Q"
  by (intro runs_at_emits [OF assms(1)] assms(4) shiftedInv_append [OF assms(3)])
    (auto simp: list_all_iff assms(2))

lemma retiresOld_services: "is_read q \<or> (\<exists>ns x. q = UpdateService ns x) \<Longrightarrow> retiresOld ro oldRSs q"
  by (auto simp: retiresOld_def)

lemma retiresOld_scales:
  "observedSpecReplicas ro \<Longrightarrow> \<exists>rs \<in> set oldRSs. scales rs 0 q \<Longrightarrow> retiresOld ro oldRSs q"
  by (simp add: retiresOld_def)

lemmas runs_at_repointServices = runs_at_emits_shifted [OF emits_repointServices retiresOld_services]
lemma runs_at_scaleDown:
  assumes "observedSpecReplicas ro" and "shiftedInv ro oldRSs h" and "\<And>r h'. shiftedInv ro oldRSs h' \<Longrightarrow> Q r h'"
  shows "runs_at (scaleDownAfterDelay E ro' oldRSs) h s Q"
  by (rule runs_at_emits_shifted [OF emits_scaleDownAfterDelay retiresOld_scales [OF assms(1)] assms(2,3)])

lemma observed_with_weight [simp]:
  "observedSpecReplicas (with_Status (\<lambda>st. st\<lparr>st_CurrentWeight := w\<rparr>) ro) = observedSpecReplicas ro"
  by (simp add: observedSpecReplicas_def desiredReplicas_def)

lemma shiftedInv_D: "shiftedInv ro oldRSs h \<Longrightarrow> promoteInv ro oldRSs h"
  by (simp add: shiftedInv_def)

lemma runs_at_promoteTail:
  assumes "shiftedInv ro oldRSs h"
  shows "runs_at (bindE (stampWeight E fm args ro 100) (\<lambda>ro'.
        bindE (case newRS of None \<Rightarrow> returnE ()
               | Some rs \<Rightarrow> wrapE f1 a1 (repointServices E ro' rs)) (\<lambda>_.
        if \<not> observedSpecReplicas ro' then returnE (2 * Second)
        else bindE (wrapE f2 a2 (scaleDownAfterDelay E ro' oldRSs)) (\<lambda>requeue.
          if requeue > 0 then returnE requeue
          else bindE (advanceStep E ro' idx) (\<lambda>_. returnE 0))))) h s (\<lambda>r h'. promoteInv ro oldRSs h')"
  (is "runs_at ?m h s _")
proof -
  have "runs_at ?m h s (\<lambda>r h'. shiftedInv ro oldRSs h')"
    using assms unfolding stampWeight_def Let_def updateRolloutStatus_def
    by (auto split: sum.splits option.splits
        intro!: runs_intros runs_at_repointServices runs_at_scaleDown shiftedInv_snoc)
  then show ?thesis by (rule runs_at_mono) (rule shiftedInv_D)
qed

lemma runs_at_runPromote:
  assumes router: "ex_router E = Some P"
  shows "runs_at (runPromote E ro step idx newRS oldRSs) [] s (\<lambda>r h. promoteInv ro oldRSs h)"
proof -
  let ?I = "\<lambda>r h. promoteInv ro oldRSs h"
  have shift: "runs_at (bindE (wrapE f a (setWeight P ro 100)) (\<lambda>_. m)) h s ?I"
    if "promoteInv ro oldRSs h" and "\<And>h s. shiftedInv ro oldRSs h \<Longrightarrow> runs_at m h s ?I"
    for f a h s and m :: "('a, duration) io"
    using that(1) unfolding setWeight_def
    by (auto intro!: runs_intros promoteInv_snoc shiftedInv_router that(2))
  have status: "promoteInv ro oldRSs [(UpdateRolloutStatus ro', b)]"
    if "st_CurrentStep (ro_Status ro') = st_CurrentStep (ro_Status ro)" for ro' b
    using that by (simp add: promoteInv_def)
  have nil: "promoteInv ro oldRSs []" by (simp add: promoteInv_def)
  have await: "runs_at (bindE (timeNow (ex_env E)) (\<lambda>now. bindE (updateRolloutStatus (ex_env E)
             (pausedFor PauseReasonAwaitingPromotion now msg ro)) (\<lambda>_. returnE 0))) [] s ?I" for msg s
    unfolding updateRolloutStatus_def timeNow_def
    by (auto simp: pausedFor_def nil split: sum.splits intro!: runs_intros status)
  have phase: "runs_at (if b then updateRolloutStatus (ex_env E) (with_Status (\<lambda>st. st\<lparr>st_Phase := PhasePromoting\<rparr>) ro)
       else returnE ()) [] s ?I" for b s
    unfolding updateRolloutStatus_def by (auto simp: nil intro!: runs_intros status)
  show ?thesis
    unfolding runPromote_def router option.case
    by (intro runs_at_if runs_at_failE runs_at_returnE nil await
        runs_at_bindE [OF runs_at_mono [OF phase]])
      (simp split: sum.split add: shift runs_at_promoteTail)
qed

text \<open>
  C14. A promotion moves the traffic first: with a router configured, no Service is repointed, no
  ReplicaSet is touched and the step is not left before the router accepted weight 100. The ReplicaSets it
  touches are old ones, scaled to zero, and only when the status shows the desired count of the current
  generation. With automatic promotion disabled it sends nothing and fails.
\<close>

theorem runPromote_order:
  assumes "ex_router E = Some P" and "runPromote E ro step idx newRS oldRSs s = (r, s')"
  shows "after (\<lambda>x. x = (RouterSetWeight 100, True)) (\<lambda>(q, ok). movesOn ro q) (new_requests s s')
     \<and> (\<forall>(q, ok) \<in> set (new_requests s s'). (\<exists>ns x. q = UpdateReplicaSet ns x) \<longrightarrow>
          observedSpecReplicas ro \<and> (\<exists>rs \<in> set oldRSs. scales rs 0 q))
     \<and> (spec_AutoPromotion (ro_Spec ro) = AutoPromotionDisabled \<longrightarrow> isl r \<and> s' = s)"
proof -
  have "promoteInv ro oldRSs (new_requests s s')"
    using runs_atD [OF runs_at_runPromote [OF assms(1)] assms(2)] by simp
  moreover have "spec_AutoPromotion (ro_Spec ro) = AutoPromotionDisabled \<longrightarrow> isl r \<and> s' = s"
    using assms(2) by (auto simp: runPromote_def failE_def)
  ultimately show ?thesis by (simp add: promoteInv_def retiresOld_def)
qed

theorem runPromote_order_witness:
  "length (new_requests world0 (snd (runPromote E0 (rollout0 [step0 ''a'']) (step0 ''a'') 0 None [rs0 ''v1'' 3] world0))) = 3 \<and>
   after (\<lambda>x. x = (RouterSetWeight 100, True)) (\<lambda>(q, ok). movesOn (rollout0 [step0 ''a'']) q)
     (new_requests world0 (snd (runPromote E0 (rollout0 [step0 ''a'']) (step0 ''a'') 0 None [rs0 ''v1'' 3] world0)))"
  using runPromote_order [of E0 router0 "rollout0 [step0 ''a'']" "step0 ''a''" 0 None "[rs0 ''v1'' 3]" world0,
      OF _ prod.collapse [symmetric]]
  by (simp add: runPromote_def stampWeight_def E0_def eff_eval new_requests_def rollout0_defs
      observedSpecReplicas_def desiredReplicas_def hasUserPromotion_def Let_def)

lemma runs_at_scaleDownOld:
  "runs_at (scaleDownOld E d rs) h s (\<lambda>r h'. r = Inr () \<longrightarrow> (\<forall>k. rs_Replicas rs = Some k \<longrightarrow> k \<noteq> 0 \<longrightarrow>
     (\<exists>ns x. (UpdateReplicaSet ns x, True) \<in> set h' \<and> scales rs 0 (UpdateReplicaSet ns x))))"
  unfolding scaleDownOld_def
  by (intro runs_at_if runs_at_bindE runs_at_scaleReplicaSet) (auto intro!: runs_intros)

text \<open>
  C15. The old ReplicaSets outlive a promotion by the scale-down delay: before the step's start plus
  the delay nothing is sent and the handler asks to be called at that instant; from then on, if it returns, each
  old ReplicaSet that had replicas has an accepted update to zero.
\<close>

theorem scaleDownAfterDelay_waits:
  assumes "prog_ScaleDownDelaySeconds (spec_Progression (ro_Spec ro)) = Some n" and "0 \<le> n" and "in_i32 n"
    and "st_StepStartedAt (ro_Status ro) = Some t"
    and "clock_Now (ex_env E) (srv s) = (now, v)" and "0 \<le> now - t" and "in_i64 (now - t)"
    and "scaleDownAfterDelay E ro oldRSs s = (r, s')"
  shows "if now < t + n * Second then r = Inr (t + n * Second - now) \<and> new_requests s s' = []
     else \<not> isl r \<longrightarrow> r = Inr 0 \<and> (\<forall>rs \<in> set oldRSs. \<forall>k. rs_Replicas rs = Some k \<longrightarrow> k \<noteq> 0 \<longrightarrow>
       (\<exists>ns x. (UpdateReplicaSet ns x, True) \<in> set (new_requests s s') \<and> scales rs 0 (UpdateReplicaSet ns x)))"
proof -
  let ?loop = "forE oldRSs (scaleDownOld E (asDeploymentView ro (ro_Spec ro)))"
  have "time_Sub now t = now - t"
    using assms(7) by (simp add: time_Sub_def in_i64_def)
  moreover have "wrap64 (n * Second - (now - t)) = t + n * Second - now"
    using assms(2,3,6,7) by (subst wrap64_id) (simp_all add: in_i64_def in_i32_def)
  ultimately have run: "(if now < t + n * Second then (Inr (t + n * Second - now), s\<lparr>srv := v\<rparr>)
      else bindE ?loop (\<lambda>_. returnE 0) (s\<lparr>srv := v\<rparr>)) = (r, s')"
    using assms(1,4,5,8)
    by (auto simp: scaleDownAfterDelay_def bindE_def timeNow_def silentE_def returnE_def split: if_splits)
  show ?thesis
  proof (cases "now < t + n * Second")
    case True
    with run show ?thesis by (auto simp: new_requests_def)
  next
    case False
    have "runs_at (bindE ?loop (\<lambda>_. returnE 0)) [] (s\<lparr>srv := v\<rparr>) (\<lambda>r h'. \<not> isl r \<longrightarrow> r = Inr 0 \<and>
       (\<forall>rs \<in> set oldRSs. \<forall>k. rs_Replicas rs = Some k \<longrightarrow> k \<noteq> 0 \<longrightarrow>
       (\<exists>ns x. (UpdateReplicaSet ns x, True) \<in> set h' \<and> scales rs 0 (UpdateReplicaSet ns x))))"
      by (rule runs_at_bindE, rule runs_at_mono [OF runs_at_forE_each [OF runs_at_scaleDownOld]])
        (fastforce split: sum.split intro!: runs_intros)+
    moreover have "bindE ?loop (\<lambda>_. returnE 0) (s\<lparr>srv := v\<rparr>) = (r, s')"
      using run False by simp
    moreover have "new_requests (s\<lparr>srv := v\<rparr>) s' = new_requests s s'"
      by (simp add: new_requests_def)
    ultimately show ?thesis using runs_atD False by force
  qed
qed

definition promoted0 :: rollout where
  "promoted0 = with_Spec (\<lambda>sp. sp\<lparr>spec_Progression := (spec_Progression sp)\<lparr>prog_ScaleDownDelaySeconds := Some 30\<rparr>\<rparr>)
     (with_Status (\<lambda>st. st\<lparr>st_StepStartedAt := Some 0\<rparr>) (rollout0 []))"

theorem scaleDownAfterDelay_waits_witness:
  "fst (scaleDownAfterDelay E0 promoted0 [rs0 ''v1'' 3] world0) = Inr (30 * Second)"
  using scaleDownAfterDelay_waits [of promoted0 30 0 E0 world0 0 "()" "[rs0 ''v1'' 3]", OF _ _ _ _ _ _ _ prod.collapse [symmetric]]
  by (simp add: promoted0_def rollout0_def spec0_def in_i32_def in_i64_def E0_def env0_def)

end
