(* ===== verification/Traffic_Routing.thy ===== *)
theory Traffic_Routing
  imports Cluster
begin

text \<open>
  Traffic routing, \<open>pkg/trafficrouting\<close>: the registry of provider factories and \<open>Resolve\<close>
  (\<open>plugin.go\<close>), the plugin every stub provider embeds (\<open>unimplemented.go\<close>, and the constructors of
  \<open>alb\<close>, \<open>apisix\<close>, \<open>nginx\<close>, \<open>smi\<close> and \<open>traefik\<close>), and the Istio provider. The dynamic client
  and the helpers of the \<open>unstructured\<close> package are parameters; a VirtualService is a JSON value.
\<close>

section \<open>The registry\<close>

type_synonym ('d, 'w) factory = "'d option \<Rightarrow> 'w plugin"
type_synonym ('d, 'w) registry = "(string \<times> ('d, 'w) factory) list"

text \<open>A second registration under a name panics; the message is the panic's value.\<close>

definition Register :: "string \<Rightarrow> ('d, 'w) factory \<Rightarrow> ('d, 'w) registry \<Rightarrow> ('d, 'w) registry res" where
  "Register typ f r = (case map_of r typ of
     Some _ \<Rightarrow> Inl (Errorf ''trafficrouting: duplicate provider registration for %q'' [typ])
   | None \<Rightarrow> Inr (AList.update typ f r))"

definition Lookup :: "('d, 'w) registry \<Rightarrow> string \<Rightarrow> ('d, 'w) factory option" where
  "Lookup r typ = map_of r typ"

definition Resolve :: "('d, 'w) registry \<Rightarrow> rollout \<Rightarrow> 'd option \<Rightarrow> 'w plugin option res" where
  "Resolve r ro dyn = (case spec_TrafficRouting (ro_Spec ro) of
     None \<Rightarrow> Inr None
   | Some t \<Rightarrow> (case Lookup r (tr_Provider t) of
        None \<Rightarrow> Inl (Errorf ''trafficrouting: no provider registered for %q'' [tr_Provider t])
      | Some f \<Rightarrow> Inr (Some (f dyn))))"

section \<open>Stub providers\<close>

definition Unimplemented :: "string \<Rightarrow> 'w plugin" where
  "Unimplemented providerType = \<lparr>plug_Type = providerType,
     plug_SetWeight = (\<lambda>ro w. failE (Errorf ''trafficrouting/%s: SetWeight not implemented'' [providerType])),
     plug_SetHeaderRoute = (\<lambda>ro m. failE (Errorf ''trafficrouting/%s: SetHeaderRoute not implemented'' [providerType])),
     plug_VerifyWeight = (\<lambda>ro w. failE (Errorf ''trafficrouting/%s: VerifyWeight not implemented'' [providerType])),
     plug_UpdateHosts = (\<lambda>ro c s. failE (Errorf ''trafficrouting/%s: UpdateHosts not implemented'' [providerType])),
     plug_RemoveManagedRoutes = (\<lambda>ro. returnE ())\<rparr>"

definition alb_New :: "('d, 'w) factory" where "alb_New dyn = Unimplemented ''alb''"
definition apisix_New :: "('d, 'w) factory" where "apisix_New dyn = Unimplemented ''apisix''"
definition nginx_New :: "('d, 'w) factory" where "nginx_New dyn = Unimplemented ''nginx''"
definition smi_New :: "('d, 'w) factory" where "smi_New dyn = Unimplemented ''smi''"
definition traefik_New :: "('d, 'w) factory" where "traefik_New dyn = Unimplemented ''traefik''"

section \<open>JSON values\<close>

datatype json = JNull | JBool bool | JInt int | JFloat float64 | JString string
  | JArray "json list" | JObject "(string \<times> json) list"

text \<open>
  \<open>unstructured.NestedSlice\<close> (\<open>None\<close>: not found) and \<open>unstructured.SetNestedSlice\<close>, with what the
  sources rely on: on an object and a path of one field the first reads that field and fails on a
  value that is no array, the second stores the slice there and keeps the other fields; and a
  slice stored under a path is what a read of that path then returns.
\<close>

record unstructured =
  un_NestedSlice :: "json \<Rightarrow> string list \<Rightarrow> json list option res"
  un_SetNestedSlice :: "json \<Rightarrow> json list \<Rightarrow> string list \<Rightarrow> json res"

definition unstructured_spec :: "unstructured \<Rightarrow> bool" where
  "unstructured_spec U \<longleftrightarrow>
     (\<forall>m k. map_of m k = None \<longrightarrow> un_NestedSlice U (JObject m) [k] = Inr None) \<and>
     (\<forall>m k xs. map_of m k = Some (JArray xs) \<longrightarrow> un_NestedSlice U (JObject m) [k] = Inr (Some xs)) \<and>
     (\<forall>m k xs. un_SetNestedSlice U (JObject m) xs [k] = Inr (JObject (AList.update k (JArray xs) m))) \<and>
     (\<forall>v xs p v'. p \<noteq> [] \<longrightarrow> un_SetNestedSlice U v xs p = Inr v' \<longrightarrow> un_NestedSlice U v' p = Inr (Some xs))"

fun nested_ref :: "json \<Rightarrow> string list \<Rightarrow> json option res" where
  "nested_ref v [] = Inr (Some v)"
| "nested_ref (JObject m) (k # ks) = (case map_of m k of None \<Rightarrow> Inr None | Some v \<Rightarrow> nested_ref v ks)"
| "nested_ref JNull (k # ks) = Inr None"
| "nested_ref v (k # ks) = Inl (Errorf ''accessor error: expected map[string]interface{}'' [])"

definition nested_slice_ref :: "json \<Rightarrow> string list \<Rightarrow> json list option res" where
  "nested_slice_ref v p = bindR (nested_ref v p) (\<lambda>r. case r of
     None \<Rightarrow> Inr None
   | Some (JArray xs) \<Rightarrow> Inr (Some xs)
   | Some _ \<Rightarrow> Inl (Errorf ''accessor error: expected []interface{}'' []))"

fun set_nested_ref :: "json \<Rightarrow> json \<Rightarrow> string list \<Rightarrow> json res" where
  "set_nested_ref v x [] = Inr x"
| "set_nested_ref (JObject m) x (k # ks) =
     bindR (set_nested_ref (case map_of m k of None \<Rightarrow> JObject [] | Some v \<Rightarrow> v) x ks) (\<lambda>v'.
     Inr (JObject (AList.update k v' m)))"
| "set_nested_ref v x (k # ks) = Inl (Errorf ''value cannot be set'' [])"

definition ref_unstructured :: unstructured where
  "ref_unstructured = \<lparr>un_NestedSlice = nested_slice_ref,
     un_SetNestedSlice = (\<lambda>v xs p. set_nested_ref v (JArray xs) p)\<rparr>"

lemma nested_set_ref: "set_nested_ref v x p = Inr v' \<Longrightarrow> nested_ref v' p = Inr (Some x)"
  by (induction v x p arbitrary: v' rule: set_nested_ref.induct)
    (auto simp: bindR_eq_Inr update_conv')

lemma ref_unstructured_spec: "unstructured_spec ref_unstructured"
  by (auto simp: unstructured_spec_def ref_unstructured_def nested_slice_ref_def dest: nested_set_ref)

section \<open>Istio\<close>

record 'w dynamic =
  dyn_GetVirtualService :: "string \<Rightarrow> string \<Rightarrow> ('w, json) eff"
  dyn_PatchVirtualService :: "string \<Rightarrow> string \<Rightarrow> json \<Rightarrow> ('w, unit) eff"

definition istioConfigOf :: "rollout \<Rightarrow> istioConfig option" where
  "istioConfigOf ro = (case spec_TrafficRouting (ro_Spec ro) of None \<Rightarrow> None | Some t \<Rightarrow> tr_Istio t)"

definition resolveHosts :: "rollout \<Rightarrow> (string \<times> string) res" where
  "resolveHosts ro = (case spec_CanaryServices (ro_Spec ro) of
     [] \<Rightarrow> Inl (Errorf ''trafficrouting/istio: rollout %s/%s has no canaryServices'' [ro_Namespace ro, ro_Name ro])
   | c # _ \<Rightarrow> (case spec_StableServices (ro_Spec ro) of
       [] \<Rightarrow> Inl (Errorf ''trafficrouting/istio: rollout %s/%s has no stableServices'' [ro_Namespace ro, ro_Name ro])
     | s # _ \<Rightarrow> Inr (sref_Name c, sref_Name s)))"

definition routeSelector :: "string list \<Rightarrow> string \<Rightarrow> bool" where
  "routeSelector names name = (names = [] \<or> name \<in> set names)"

text \<open>A type assertion on a field, with the zero value where it fails.\<close>

definition stringField :: "(string \<times> json) list \<Rightarrow> string \<Rightarrow> string" where
  "stringField m k = (case map_of m k of Some (JString s) \<Rightarrow> s | _ \<Rightarrow> [])"

definition objectField :: "(string \<times> json) list \<Rightarrow> string \<Rightarrow> (string \<times> json) list" where
  "objectField m k = (case map_of m k of Some (JObject o') \<Rightarrow> o' | _ \<Rightarrow> [])"

definition intField :: "(string \<times> json) list \<Rightarrow> string \<Rightarrow> int" where
  "intField m k = (case map_of m k of Some (JInt n) \<Rightarrow> n | _ \<Rightarrow> 0)"

text \<open>\<open>dests, _, _ := NestedSlice(route, "route")\<close>: the error and the found flag are dropped.\<close>

definition routeDests :: "unstructured \<Rightarrow> (string \<times> json) list \<Rightarrow> json list" where
  "routeDests U route = (case un_NestedSlice U (JObject route) [''route''] of
     Inr (Some ds) \<Rightarrow> ds | _ \<Rightarrow> [])"

definition weightedDests :: "string \<Rightarrow> string \<Rightarrow> int \<Rightarrow> json list" where
  "weightedDests canaryHost stableHost weight =
     [JObject [(''destination'', JObject [(''host'', JString canaryHost)]), (''weight'', JInt weight)],
      JObject [(''destination'', JObject [(''host'', JString stableHost)]), (''weight'', JInt (wrap32 (100 - weight)))]]"

fun rewriteHTTPRoutes ::
    "unstructured \<Rightarrow> nat \<Rightarrow> (string \<Rightarrow> bool) \<Rightarrow> string \<Rightarrow> string \<Rightarrow> int \<Rightarrow> json list \<Rightarrow> json list res" where
  "rewriteHTTPRoutes U i matches canaryHost stableHost weight [] = Inr []"
| "rewriteHTTPRoutes U i matches canaryHost stableHost weight (raw # rest) =
     (case raw of
        JObject route \<Rightarrow>
          bindR (if \<not> matches (stringField route ''name'') \<or> length (routeDests U route) < 2 then Inr raw
                 else un_SetNestedSlice U (JObject route) (weightedDests canaryHost stableHost weight) [''route''])
            (\<lambda>out. bindR (rewriteHTTPRoutes U (Suc i) matches canaryHost stableHost weight rest) (\<lambda>outs.
             Inr (out # outs)))
      | _ \<Rightarrow> Inl (Errorf ''trafficrouting/istio: http[%d] is not an object'' [FormatInt (int i)]))"

definition destVerified :: "string \<Rightarrow> int \<Rightarrow> json \<Rightarrow> bool" where
  "destVerified canaryHost desiredWeight d = (case d of
     JObject m \<Rightarrow> stringField (objectField m ''destination'') ''host'' = canaryHost \<longrightarrow>
       wrap32 (intField m ''weight'') = desiredWeight
   | _ \<Rightarrow> True)"

definition routeVerified :: "unstructured \<Rightarrow> (string \<Rightarrow> bool) \<Rightarrow> string \<Rightarrow> int \<Rightarrow> json \<Rightarrow> bool" where
  "routeVerified U matches canaryHost desiredWeight raw = (case raw of
     JObject route \<Rightarrow> matches (stringField route ''name'') \<longrightarrow>
       list_all (destVerified canaryHost desiredWeight) (routeDests U route)
   | _ \<Rightarrow> True)"

definition verifyHTTPWeight :: "unstructured \<Rightarrow> json \<Rightarrow> string list \<Rightarrow> string \<Rightarrow> int \<Rightarrow> bool res" where
  "verifyHTTPWeight U vs routes canaryHost desiredWeight =
     bindR (un_NestedSlice U vs [''spec'', ''http'']) (\<lambda>found. case found of
       None \<Rightarrow> Inr False
     | Some http \<Rightarrow> Inr (list_all (routeVerified U (routeSelector routes) canaryHost desiredWeight) http))"

definition httpPatch :: "json list \<Rightarrow> json" where
  "httpPatch rewritten = JObject [(''spec'', JObject [(''http'', JArray rewritten)])]"

text \<open>A call through a nil \<open>dynamic.Interface\<close> panics.\<close>

definition dynE :: "'w dynamic option \<Rightarrow> ('w dynamic \<Rightarrow> ('w, 'a) eff) \<Rightarrow> ('w, 'a) eff" where
  "dynE dyn f = (case dyn of None \<Rightarrow> failE (NilDereference ''dyn'') | Some D \<Rightarrow> f D)"

definition patchVirtualService ::
    "unstructured \<Rightarrow> 'w dynamic option \<Rightarrow> string \<Rightarrow> istioVirtualServiceRef \<Rightarrow> string \<Rightarrow> string \<Rightarrow> int \<Rightarrow> ('w, unit) eff" where
  "patchVirtualService U dyn namespace ref canaryHost stableHost weight =
     bindE (wrapE ''get virtualservice %s/%s: %w'' [namespace, vsref_Name ref]
       (dynE dyn (\<lambda>D. dyn_GetVirtualService D namespace (vsref_Name ref)))) (\<lambda>vs.
     bindE (liftE (un_NestedSlice U vs [''spec'', ''http''])) (\<lambda>found. case found of
       None \<Rightarrow> failE (Errorf ''trafficrouting/istio: virtualservice %s/%s has no spec.http'' [namespace, vsref_Name ref])
     | Some http \<Rightarrow>
        bindE (liftE (rewriteHTTPRoutes U 0 (routeSelector (vsref_Routes ref)) canaryHost stableHost weight http))
          (\<lambda>rewritten.
        bindE (liftE (un_SetNestedSlice U vs rewritten [''spec'', ''http''])) (\<lambda>_.
        dynE dyn (\<lambda>D. dyn_PatchVirtualService D namespace (vsref_Name ref) (httpPatch rewritten))))))"

definition noIstioConfig :: "rollout \<Rightarrow> error" where
  "noIstioConfig ro = Errorf ''trafficrouting/istio: rollout %s/%s has no istio config'' [ro_Namespace ro, ro_Name ro]"

definition istio_SetWeight :: "unstructured \<Rightarrow> 'w dynamic option \<Rightarrow> rollout \<Rightarrow> int \<Rightarrow> ('w, unit) eff" where
  "istio_SetWeight U dyn ro desiredWeight = (case istioConfigOf ro of
     None \<Rightarrow> failE (noIstioConfig ro)
   | Some cfg \<Rightarrow>
      bindE (liftE (resolveHosts ro)) (\<lambda>(canaryHost, stableHost).
      forE (istio_VirtualServices cfg) (\<lambda>vsRef.
        patchVirtualService U dyn (ro_Namespace ro) vsRef canaryHost stableHost desiredWeight)))"

definition istio_RemoveManagedRoutes :: "unstructured \<Rightarrow> 'w dynamic option \<Rightarrow> rollout \<Rightarrow> ('w, unit) eff" where
  "istio_RemoveManagedRoutes U dyn ro = istio_SetWeight U dyn ro 0"

definition istio_SetHeaderRoute ::
    "unstructured \<Rightarrow> 'w dynamic option \<Rightarrow> rollout \<Rightarrow> routeMatch list \<Rightarrow> ('w, unit) eff" where
  "istio_SetHeaderRoute U dyn ro match =
     (if match = [] then istio_RemoveManagedRoutes U dyn ro
      else failE (Errorf ''trafficrouting/istio: SetHeaderRoute not implemented'' []))"

fun verifyVirtualServices ::
    "unstructured \<Rightarrow> 'w dynamic option \<Rightarrow> string \<Rightarrow> string \<Rightarrow> int \<Rightarrow> istioVirtualServiceRef list \<Rightarrow> ('w, bool) eff" where
  "verifyVirtualServices U dyn ns canaryHost w [] = returnE True"
| "verifyVirtualServices U dyn ns canaryHost w (vsRef # rest) =
     bindE (dynE dyn (\<lambda>D. dyn_GetVirtualService D ns (vsref_Name vsRef))) (\<lambda>vs.
     bindE (liftE (verifyHTTPWeight U vs (vsref_Routes vsRef) canaryHost w)) (\<lambda>ok.
     if \<not> ok then returnE False else verifyVirtualServices U dyn ns canaryHost w rest))"

definition istio_VerifyWeight :: "unstructured \<Rightarrow> 'w dynamic option \<Rightarrow> rollout \<Rightarrow> int \<Rightarrow> ('w, bool) eff" where
  "istio_VerifyWeight U dyn ro desiredWeight = (case istioConfigOf ro of
     None \<Rightarrow> failE (noIstioConfig ro)
   | Some cfg \<Rightarrow>
      bindE (liftE (resolveHosts ro)) (\<lambda>(canaryHost, stableHost).
      verifyVirtualServices U dyn (ro_Namespace ro) canaryHost desiredWeight (istio_VirtualServices cfg)))"

definition istio_New :: "unstructured \<Rightarrow> ('w dynamic, 'w) factory" where
  "istio_New U dyn = \<lparr>plug_Type = ''istio'', plug_SetWeight = istio_SetWeight U dyn,
     plug_SetHeaderRoute = istio_SetHeaderRoute U dyn, plug_VerifyWeight = istio_VerifyWeight U dyn,
     plug_UpdateHosts = (\<lambda>ro c s. returnE ()), plug_RemoveManagedRoutes = istio_RemoveManagedRoutes U dyn\<rparr>"

text \<open>The registrations the command links in (\<open>cmd/rollouts-controller/main.go\<close>).\<close>

definition Global :: "unstructured \<Rightarrow> ('w dynamic, 'w) registry" where
  "Global U = [(''alb'', alb_New), (''apisix'', apisix_New), (''istio'', istio_New U),
     (''nginx'', nginx_New), (''smi'', smi_New), (''traefik'', traefik_New)]"

section \<open>Properties of the Istio rewriting\<close>

lemma unstructured_specD:
  assumes "unstructured_spec U"
  shows "map_of m k = Some (JArray xs) \<Longrightarrow> un_NestedSlice U (JObject m) [k] = Inr (Some xs)"
    and "un_SetNestedSlice U (JObject m) xs [k] = Inr (JObject (AList.update k (JArray xs) m))"
    and "p \<noteq> [] \<Longrightarrow> un_SetNestedSlice U v xs p = Inr v' \<Longrightarrow> un_NestedSlice U v' p = Inr (Some xs)"
  using assms unfolding unstructured_spec_def by blast+

text \<open>The routes a weight applies to, and what becomes of them.\<close>

definition rewritable :: "unstructured \<Rightarrow> (string \<Rightarrow> bool) \<Rightarrow> (string \<times> json) list \<Rightarrow> bool" where
  "rewritable U matches route \<longleftrightarrow> matches (stringField route ''name'') \<and> 2 \<le> length (routeDests U route)"

fun rewritten :: "unstructured \<Rightarrow> (string \<Rightarrow> bool) \<Rightarrow> string \<Rightarrow> string \<Rightarrow> int \<Rightarrow> json \<Rightarrow> json" where
  "rewritten U matches c s w (JObject route) = JObject (if rewritable U matches route
     then AList.update ''route'' (JArray (weightedDests c s w)) route else route)"
| "rewritten U matches c s w v = v"

lemma rewriteHTTPRoutes_map:
  assumes "unstructured_spec U" and "rewriteHTTPRoutes U i matches c s w http = Inr http'"
  shows "http' = map (rewritten U matches c s w) http"
  using assms(2)
proof (induction http arbitrary: i http')
  case (Cons raw rest)
  then show ?case
    by (auto simp: bindR_eq_Inr rewritable_def unstructured_specD(2) [OF assms(1)] split: json.splits if_splits)
qed simp

lemma stringField_update [simp]: "k \<noteq> ''route'' \<Longrightarrow> stringField (AList.update ''route'' v m) k = stringField m k"
  by (simp add: stringField_def update_conv')

lemma routeDests_update:
  assumes "unstructured_spec U"
  shows "routeDests U (AList.update ''route'' (JArray ds) m) = ds"
  using unstructured_specD(1) [OF assms] by (simp add: routeDests_def update_conv')

lemma weightedDests_verified:
  assumes "c \<noteq> s" and "in_i32 w"
  shows "list_all (destVerified c w) (weightedDests c s w)"
  using assms by (simp add: weightedDests_def destVerified_def objectField_def stringField_def intField_def)

text \<open>The routes that a verification looks at can all take a weight.\<close>

definition weightable :: "unstructured \<Rightarrow> (string \<Rightarrow> bool) \<Rightarrow> json \<Rightarrow> bool" where
  "weightable U matches raw = (case raw of JObject route \<Rightarrow>
     matches (stringField route ''name'') \<longrightarrow> 2 \<le> length (routeDests U route) | _ \<Rightarrow> True)"

lemma rewritten_verified:
  assumes "unstructured_spec U" and "c \<noteq> s" and "in_i32 w" and "weightable U matches raw"
  shows "routeVerified U matches c w (rewritten U matches c s w raw)"
proof (cases raw)
  case (JObject route)
  then show ?thesis
    using assms(4) weightedDests_verified [OF assms(2,3)]
    by (simp add: routeVerified_def rewritable_def weightable_def routeDests_update [OF assms(1)])
qed (simp_all add: routeVerified_def)

definition http0 :: "json list" where
  "http0 = [JObject [(''name'', JString ''primary''), (''route'', JArray (weightedDests ''web-canary'' ''web'' 0))]]"

definition vs0 :: json where
  "vs0 = JObject [(''spec'', JObject [(''http'', JArray http0)])]"

lemma http0_rewrite:
  "rewriteHTTPRoutes ref_unstructured 0 (routeSelector []) ''web-canary'' ''web'' 20 http0
     = Inr [JObject [(''name'', JString ''primary''), (''route'', JArray (weightedDests ''web-canary'' ''web'' 20))]]"
  by (simp add: http0_def routeSelector_def routeDests_def ref_unstructured_def nested_slice_ref_def weightedDests_def)



text \<open>
  C32. The rewriting is local: it keeps the number and the order of the routes, changes only the
  destinations of selected routes that have at least two of them, to the canary with the weight and the
  stable host with the rest of the hundred, and leaves every other field and every other route as it was.
\<close>

theorem istio_rewrite_frame:
  assumes "unstructured_spec U" and "0 \<le> weight" and "weight \<le> 100"
    and "rewriteHTTPRoutes U 0 matches canaryHost stableHost weight http = Inr http'"
  shows "length http' = length http \<and> (\<forall>i < length http. \<exists>route. http ! i = JObject route \<and>
     (if matches (stringField route ''name'') \<and> 2 \<le> length (routeDests U route)
      then (\<exists>route'. http' ! i = JObject route' \<and> routeDests U route' = weightedDests canaryHost stableHost weight
             \<and> (\<forall>k. k \<noteq> ''route'' \<longrightarrow> map_of route' k = map_of route k))
      else http' ! i = http ! i))
     \<and> sum_list (map (\<lambda>d. case d of JObject m \<Rightarrow> intField m ''weight'' | _ \<Rightarrow> 0) (weightedDests canaryHost stableHost weight)) = 100"
proof -
  note eq = rewriteHTTPRoutes_map [OF assms(1,4)]
  have objs: "\<exists>route. raw = JObject route"
    if "rewriteHTTPRoutes U i matches canaryHost stableHost weight l = Inr l'" "raw \<in> set l" for raw i l l'
    using that by (induction l arbitrary: i l') (auto simp: bindR_eq_Inr split: json.splits)
  have "in_i32 (100 - weight)" using assms(2,3) by (simp add: in_i32_def)
  then have "sum_list (map (\<lambda>d. case d of JObject m \<Rightarrow> intField m ''weight'' | _ \<Rightarrow> 0) (weightedDests canaryHost stableHost weight)) = 100"
    by (simp add: weightedDests_def intField_def)
  moreover have "\<exists>route. http ! i = JObject route \<and>
     (if matches (stringField route ''name'') \<and> 2 \<le> length (routeDests U route)
      then (\<exists>route'. http' ! i = JObject route' \<and> routeDests U route' = weightedDests canaryHost stableHost weight
             \<and> (\<forall>k. k \<noteq> ''route'' \<longrightarrow> map_of route' k = map_of route k))
      else http' ! i = http ! i)" if i: "i < length http" for i
  proof -
    obtain route where r: "http ! i = JObject route" using objs [OF assms(4)] i by (metis nth_mem)
    then have "http' ! i = JObject (if rewritable U matches route
        then AList.update ''route'' (JArray (weightedDests canaryHost stableHost weight)) route else route)"
      using i by (simp add: eq)
    with r show ?thesis by (auto simp: rewritable_def routeDests_update [OF assms(1)] update_conv')
  qed
  ultimately show ?thesis by (auto simp: eq)
qed


theorem istio_rewrite_frame_witness:
  "length [JObject [(''name'', JString ''primary''), (''route'', JArray (weightedDests ''web-canary'' ''web'' 20))]] = length http0
   \<and> sum_list (map (\<lambda>d. case d of JObject m \<Rightarrow> intField m ''weight'' | _ \<Rightarrow> 0) (weightedDests ''web-canary'' ''web'' 20)) = 100"
  using istio_rewrite_frame [OF ref_unstructured_spec _ _ http0_rewrite] by simp

end
