(* ===== verification/Rollout_Controller.thy ===== *)
theory Rollout_Controller
  imports Rollout_Steps Traffic_Routing
begin

text \<open>
  The Rollout reconciler, \<open>pkg/controller/rollout/controller.go\<close> and the lister of
  \<open>clientsetrslister.go\<close>: one reconcile reads the Rollout, lists its ReplicaSets, makes sure the
  new one exists, drives the replica counts, pushes the counters and either aborts or executes
  the current step. \<open>asDeploymentView\<close> shares the annotation map of the Rollout, so a revision the
  forked code records on the synthetic Deployment shows on the Rollout in memory when that map is
  not nil; \<open>shareAnnotations\<close> is that aliasing.
\<close>

record 'w reconciler =
  rec_lib :: lib
  rec_env :: "'w env"
  rec_ResolveRouter :: "rollout \<Rightarrow> 'w plugin option res"

section \<open>ReplicaSets of a Rollout\<close>

definition listReplicaSets :: "'w reconciler \<Rightarrow> rollout \<Rightarrow> ('w, replicaSet list) io" where
  "listReplicaSets R ro = (case spec_Selector (ro_Spec ro) of
     None \<Rightarrow> failE (Errorf ''rollout %s/%s has no selector'' [ro_Namespace ro, ro_Name ro])
   | Some s \<Rightarrow>
      bindE (wrapE ''parse selector for %s/%s: %w'' [ro_Namespace ro, ro_Name ro]
        (liftE (lib_LabelSelectorAsSelector (rec_lib R) (Some s)))) (\<lambda>sel.
      bindE (apiListReplicaSets (rec_env R) (ro_Namespace ro) (sel_String sel)) (\<lambda>items.
      returnE (filter (\<lambda>rs. isOwnedBy (rs_Meta rs) ro) items))))"

definition hasMatchingRS :: "rollout \<Rightarrow> replicaSet list \<Rightarrow> bool" where
  "hasMatchingRS ro rsList =
     (let target = st_CurrentPodHash (ro_Status ro) in
      if target = [] then (\<exists>rs \<in> set rsList. smap_get (rs_Labels rs) DefaultDeploymentUniqueLabelKey \<noteq> [])
      else (\<exists>rs \<in> set rsList. smap_get (rs_Labels rs) DefaultDeploymentUniqueLabelKey = target))"

definition rolloutOwnerRef :: "rollout \<Rightarrow> ownerReference" where
  "rolloutOwnerRef ro = \<lparr>owner_APIVersion = SchemeGroupVersion, owner_Kind = ''Rollout'',
     owner_Name = ro_Name ro, owner_UID = ro_UID ro, owner_Controller = Some True,
     owner_BlockOwnerDeletion = Some True\<rparr>"

definition ensureOwnedByRollout :: "'w reconciler \<Rightarrow> rollout \<Rightarrow> replicaSet \<Rightarrow> ('w, replicaSet) io" where
  "ensureOwnedByRollout R ro rs =
     (if isOwnedBy (rs_Meta rs) ro then returnE rs
      else let rs' = rs\<lparr>rs_Meta := (rs_Meta rs)\<lparr>meta_OwnerReferences := [rolloutOwnerRef ro]\<rparr>\<rparr>
           in bindE (updateReplicaSet (rec_env R) (meta_Namespace (rs_Meta rs)) rs') (\<lambda>_. returnE rs'))"

definition shareAnnotations :: "deployment \<Rightarrow> rollout \<Rightarrow> rollout" where
  "shareAnnotations d ro = (case meta_Annotations (ro_Meta ro) of
     None \<Rightarrow> ro
   | Some _ \<Rightarrow> ro\<lparr>ro_Meta := (ro_Meta ro)\<lparr>meta_Annotations := dep_Annotations d\<rparr>\<rparr>)"

definition reconcileReplicaSets ::
    "'w reconciler \<Rightarrow> rollout \<Rightarrow> replicaSet list \<Rightarrow> ('w, replicaSet option \<times> replicaSet list \<times> rollout) io" where
  "reconcileReplicaSets R ro rsList =
     (let d0 = asDeploymentView ro (ro_Spec ro);
          d = (if hasMatchingRS ro rsList then d0 else d0\<lparr>dep_Replicas := Some 0\<rparr>)
      in bindE (getAllReplicaSetsAndSyncRevision (rec_lib R) (rec_env R) d rsList True)
        (\<lambda>(newRS, oldRSs, d').
         let ro' = shareAnnotations d' ro in
         case newRS of
           None \<Rightarrow> returnE (None, oldRSs, ro')
         | Some rs \<Rightarrow> bindE (ensureOwnedByRollout R ro' rs) (\<lambda>rs'. returnE (Some rs', oldRSs, ro'))))"

section \<open>Counters and abort\<close>

definition withCounts :: "rollout \<Rightarrow> int \<times> int \<times> int \<times> int \<Rightarrow> rollout" where
  "withCounts ro = (\<lambda>(replicas, updated, ready, available).
     with_Status (\<lambda>st. st\<lparr>st_Replicas := replicas, st_UpdatedReplicas := updated,
       st_ReadyReplicas := ready, st_AvailableReplicas := available,
       st_DesiredReplicas := desiredReplicas ro, st_ObservedGeneration := ro_Generation ro\<rparr>) ro)"

definition countsCurrent :: "rollout \<Rightarrow> int \<times> int \<times> int \<times> int \<Rightarrow> bool" where
  "countsCurrent ro = (\<lambda>(replicas, updated, ready, available).
     st_Replicas (ro_Status ro) = replicas \<and> st_UpdatedReplicas (ro_Status ro) = updated \<and>
     st_ReadyReplicas (ro_Status ro) = ready \<and> st_AvailableReplicas (ro_Status ro) = available \<and>
     st_DesiredReplicas (ro_Status ro) = desiredReplicas ro \<and>
     st_ObservedGeneration (ro_Status ro) = ro_Generation ro)"

definition pushReplicaCounts ::
    "'w reconciler \<Rightarrow> rollout \<Rightarrow> replicaSet option \<Rightarrow> replicaSet option list \<Rightarrow> ('w, unit) io" where
  "pushReplicaCounts R ro newRS allRSs =
     (let counts = computeReplicaCounts newRS allRSs in
      if countsCurrent ro counts then returnE ()
      else updateRolloutStatus (rec_env R) (withCounts ro counts))"

definition abortRollout ::
    "'w reconciler \<Rightarrow> rollout \<Rightarrow> 'w plugin option \<Rightarrow> replicaSet option \<Rightarrow> ('w, duration) io" where
  "abortRollout R ro router newRS =
     bindE (case router of None \<Rightarrow> returnE ()
            | Some p \<Rightarrow> wrapE ''abort: reset weight: %w'' [] (setWeight p ro 0)) (\<lambda>_.
     bindE (case newRS of None \<Rightarrow> returnE ()
            | Some rs \<Rightarrow> (case rs_Replicas rs of None \<Rightarrow> returnE ()
                | Some n \<Rightarrow> (if n > 0
                    then bindE (wrapE ''abort: scale canary to 0: %w'' []
                      (scaleReplicaSet (rec_lib R) (rec_env R) rs 0 (asDeploymentView ro (ro_Spec ro)) ''aborted''))
                      (\<lambda>_. returnE ())
                    else returnE ()))) (\<lambda>_.
     if st_Phase (ro_Status ro) = PhaseAborted then returnE 0
     else bindE (updateRolloutStatus (rec_env R) (with_Status (\<lambda>st. st\<lparr>st_Phase := PhaseAborted,
            st_Message := ''rollout aborted via spec.abort''\<rparr>) ro)) (\<lambda>_. returnE 0)))"

section \<open>One reconcile\<close>

definition firstStepStatus :: "string \<Rightarrow> time \<Rightarrow> rolloutStatus \<Rightarrow> rolloutStatus" where
  "firstStepStatus name now st = st\<lparr>st_CurrentStep := name, st_StepStartedAt := Some now,
     st_Phase := PhaseProgressing\<rparr>"

definition executorOf :: "'w reconciler \<Rightarrow> 'w plugin option \<Rightarrow> 'w executor" where
  "executorOf R router = \<lparr>ex_lib = rec_lib R, ex_env = rec_env R, ex_router = router\<rparr>"

definition syncRollout :: "'w reconciler \<Rightarrow> rollout \<Rightarrow> replicaSet list \<Rightarrow> ('w, duration) io" where
  "syncRollout R ro rsList =
     (if spec_Paused (ro_Spec ro) then returnE 0
      else
        bindE (liftE (rec_ResolveRouter R ro)) (\<lambda>router.
        bindE (wrapE ''reconcile replicasets: %w'' [] (reconcileReplicaSets R ro rsList)) (\<lambda>(newRS, oldRSs, ro1).
        bindE (wrapE ''reconcile replicas: %w'' []
          (reconcileReplicas (rec_lib R) (rec_env R) ro1 newRS oldRSs)) (\<lambda>_.
        bindE (wrapE ''push replica counts: %w'' []
          (pushReplicaCounts R ro1 newRS (map Some oldRSs @ [newRS]))) (\<lambda>_.
        if spec_Abort (ro_Spec ro1) then abortRollout R ro1 router newRS
        else if st_CurrentStep (ro_Status ro1) = [] \<and> ro_Steps ro1 \<noteq> [] then
          bindE (timeNow (rec_env R)) (\<lambda>now.
          bindE (updateRolloutStatus (rec_env R)
            (with_Status (firstStepStatus (step_Name (hd (ro_Steps ro1))) now) ro1)) (\<lambda>_. returnE 0))
        else Execute (executorOf R router) ro1 newRS oldRSs)))))"

definition Reconcile :: "'w reconciler \<Rightarrow> string \<Rightarrow> string \<Rightarrow> ('w, duration) io" where
  "Reconcile R ns name =
     bindE (tryE (getRollout (rec_env R) ns name)) (\<lambda>r. case r of
       Inl err \<Rightarrow> (if IsNotFound err then returnE 0 else failE err)
     | Inr ro0 \<Rightarrow>
        (if meta_DeletionTimestamp (ro_Meta ro0) \<noteq> None then returnE 0
         else
           let ro = applyDefaults ro0 in
           bindE (listReplicaSets R ro) (\<lambda>rsList. syncRollout R ro rsList)))"

section \<open>Watches\<close>

definition controllerNamed :: "string \<Rightarrow> objectMeta \<Rightarrow> string option" where
  "controllerNamed kind m = map_option owner_Name
     (find (\<lambda>r. owner_Kind r = kind \<and> owner_Controller r = Some True) (meta_OwnerReferences m))"

definition mapPodToRollout :: "'w reconciler \<Rightarrow> pod \<Rightarrow> ('w, (string \<times> string) list) io" where
  "mapPodToRollout R p =
     (let rsName = (case controllerNamed ''ReplicaSet'' (pod_Meta p) of None \<Rightarrow> [] | Some n \<Rightarrow> n) in
      if rsName = [] then returnE []
      else bindE (tryE (getReplicaSet (rec_env R) (meta_Namespace (pod_Meta p)) rsName)) (\<lambda>r. case r of
          Inl err \<Rightarrow> returnE []
        | Inr rs \<Rightarrow> returnE (case controllerNamed ''Rollout'' (rs_Meta rs) of
            None \<Rightarrow> [] | Some n \<Rightarrow> [(meta_Namespace (pod_Meta p), n)])))"

text \<open>The router the manager wires in: no dynamic client is passed (\<open>SetupWithManager\<close>).\<close>

definition defaultResolveRouter :: "unstructured \<Rightarrow> rollout \<Rightarrow> 'w plugin option res" where
  "defaultResolveRouter U ro = Resolve (Global U) ro None"

definition rsListerList :: "'w env \<Rightarrow> string \<Rightarrow> selector \<Rightarrow> ('w, replicaSet list) io" where
  "rsListerList V namespace sel = apiListReplicaSets V namespace (sel_String sel)"

definition rsListerGet :: "'w env \<Rightarrow> string \<Rightarrow> string \<Rightarrow> ('w, replicaSet) io" where
  "rsListerGet V namespace name = getReplicaSet V namespace name"

section \<open>Properties of the reconciler\<close>

text \<open>A reconciler on the concrete cluster, with a router that accepts every weight.\<close>

definition R0 :: "unit reconciler" where
  "R0 = \<lparr>rec_lib = ref_lib, rec_env = env0, rec_ResolveRouter = (\<lambda>_. Inr (Some router0))\<rparr>"

text \<open>
  C16. An abort takes the traffic away first: nothing else is written before the router accepted
  weight 0. The only ReplicaSet touched is the new one, and when the abort returns it had no replicas or has an
  accepted update to zero. The status it writes is Aborted and otherwise unchanged; in particular the recorded
  weight stays.
\<close>

theorem abortRollout_order:
  assumes "abortRollout R ro (Some p) newRS s = (r, s')"
  shows "after (\<lambda>x. x = (RouterSetWeight 0, True)) (\<lambda>(q, ok). q \<noteq> RouterSetWeight 0) (new_requests s s')
     \<and> (\<forall>(q, ok) \<in> set (new_requests s s'). q = RouterSetWeight 0
          \<or> (\<exists>rs. newRS = Some rs \<and> scales rs 0 q)
          \<or> q = UpdateRolloutStatus (with_Status (\<lambda>st. st\<lparr>st_Phase := PhaseAborted,
                 st_Message := ''rollout aborted via spec.abort''\<rparr>) ro))
     \<and> (\<forall>w. r = Inr w \<longrightarrow> w = 0 \<and> (\<forall>rs n. newRS = Some rs \<longrightarrow> rs_Replicas rs = Some n \<longrightarrow> 0 < n \<longrightarrow>
          (\<exists>ns x. (UpdateReplicaSet ns x, True) \<in> set (new_requests s s') \<and> scales rs 0 (UpdateReplicaSet ns x))))"
proof -
  have "runs_at (abortRollout R ro (Some p) newRS) [] s (\<lambda>r h.
     after (\<lambda>x. x = (RouterSetWeight 0, True)) (\<lambda>(q, ok). q \<noteq> RouterSetWeight 0) h
     \<and> (\<forall>(q, ok) \<in> set h. q = RouterSetWeight 0
          \<or> (\<exists>rs. newRS = Some rs \<and> scales rs 0 q)
          \<or> q = UpdateRolloutStatus (with_Status (\<lambda>st. st\<lparr>st_Phase := PhaseAborted,
                 st_Message := ''rollout aborted via spec.abort''\<rparr>) ro))
     \<and> (\<forall>w. r = Inr w \<longrightarrow> w = 0 \<and> (\<forall>rs n. newRS = Some rs \<longrightarrow> rs_Replicas rs = Some n \<longrightarrow> 0 < n \<longrightarrow>
          (\<exists>ns x. (UpdateReplicaSet ns x, True) \<in> set h \<and> scales rs 0 (UpdateReplicaSet ns x)))))"
    unfolding abortRollout_def setWeight_def updateRolloutStatus_def
    by (auto split: option.splits sum.splits simp del: scales_simps(1)
        intro!: runs_intros runs_at_scaleReplicaSet)
  from runs_atD [OF this assms] show ?thesis by blast
qed

theorem abortRollout_order_witness:
  "length (new_requests world0 (snd (abortRollout R0 (rollout0 []) (Some router0) None world0))) = 2 \<and>
   after (\<lambda>x. x = (RouterSetWeight 0, True)) (\<lambda>(q, ok). q \<noteq> RouterSetWeight 0)
     (new_requests world0 (snd (abortRollout R0 (rollout0 []) (Some router0) None world0)))"
  using abortRollout_order [of R0 "rollout0 []" router0 None world0, OF prod.collapse [symmetric]]
  by (simp add: abortRollout_def eff_eval new_requests_def R0_def rollout0_defs)

text \<open>
  A Rollout that is gone or being deleted costs one read and nothing else, and a paused one
  is only read: until it is unpaused a reconcile sends no write.
\<close>

lemma Reconcile_quiet:
  assumes "api_GetRollout (rec_env R) ns name (srv s) = (g, v)"
    and "case g of Inl e \<Rightarrow> IsNotFound e | Inr ro \<Rightarrow> meta_DeletionTimestamp (ro_Meta ro) \<noteq> None \<or> spec_Paused (ro_Spec ro)"
    and "Reconcile R ns name s = (r, s')"
  shows "(\<forall>(q, ok) \<in> set (new_requests s s'). is_read q)
     \<and> ((\<forall>ro. g = Inr ro \<longrightarrow> meta_DeletionTimestamp (ro_Meta ro) \<noteq> None) \<longrightarrow>
          r = Inr 0 \<and> new_requests s s' = [(GetRollout ns name, \<not> isl g)])"
proof -
  let ?s1 = "s\<lparr>srv := v, hist := hist s @ [(GetRollout ns name, \<not> isl g)]\<rparr>"
  have get: "getRollout (rec_env R) ns name s = (g, ?s1)"
    using assms(1) by (simp add: getRollout_def callE_def)
  show ?thesis
  proof (cases g)
    case (Inl e)
    then have "\<not> is_panic e" using assms(2) by (cases e) auto
    with Inl get assms(2,3) show ?thesis
      by (auto simp: Reconcile_def bindE_def tryE_def returnE_def new_requests_def)
  next
    case (Inr ro)
    show ?thesis
    proof (cases "meta_DeletionTimestamp (ro_Meta ro) = None")
      case False
      with Inr get assms(3) show ?thesis
        by (auto simp: Reconcile_def bindE_def tryE_def returnE_def new_requests_def)
    next
      case True
      then have paused: "spec_Paused (ro_Spec (applyDefaults ro))"
        using Inr assms(2) by (simp add: applyDefaults_def)
      have run: "bindE (listReplicaSets R (applyDefaults ro)) (syncRollout R (applyDefaults ro)) ?s1 = (r, s')"
        using True Inr get assms(3) by (simp add: Reconcile_def bindE_def tryE_def Let_def)
      have "emits is_read (bindE (listReplicaSets R (applyDefaults ro)) (syncRollout R (applyDefaults ro)))"
        using paused unfolding listReplicaSets_def syncRollout_def apiListReplicaSets_def
        by (auto intro!: emits_intros)
      then obtain h where h: "hist s' = hist ?s1 @ h" "list_all (\<lambda>(q, ok). is_read q) h"
        using run by (metis emitsE snd_conv)
      then have "new_requests s s' = (GetRollout ns name, True) # h"
        by (simp add: new_requests_def Inr)
      with h True Inr show ?thesis by (auto simp: list_all_iff)
    qed
  qed
qed

text \<open>
  The counters settle in one write: when \<open>pushReplicaCounts\<close> returns, the status is the one it
  found or the one it wrote; that status shows the desired count and the generation of the spec, which a
  promotion waits for, and pushing the same counts again sends nothing.
\<close>

lemma pushReplicaCounts_settles:
  assumes "pushReplicaCounts R ro newRS allRSs s = (Inr (), s')"
  shows "\<exists>ro'. (ro' = ro \<and> new_requests s s' = [] \<or> new_requests s s' = [(UpdateRolloutStatus ro', True)])
     \<and> ro_Spec ro' = ro_Spec ro \<and> observedSpecReplicas ro'
     \<and> (\<forall>t. pushReplicaCounts R ro' newRS allRSs t = (Inr (), t))"
proof (cases "countsCurrent ro (computeReplicaCounts newRS allRSs)")
  case True
  then have "observedSpecReplicas ro" by (simp add: countsCurrent_def observedSpecReplicas_def split: prod.splits)
  with True assms show ?thesis by (auto simp: pushReplicaCounts_def returnE_def new_requests_def)
next
  case False
  let ?ro = "withCounts ro (computeReplicaCounts newRS allRSs)"
  have cur: "countsCurrent ?ro (computeReplicaCounts newRS allRSs)"
    by (simp add: countsCurrent_def withCounts_def desiredReplicas_def split: prod.splits)
  have "observedSpecReplicas ?ro" "ro_Spec ?ro = ro_Spec ro"
    by (simp_all add: withCounts_def observedSpecReplicas_def desiredReplicas_def split: prod.splits)
  moreover have "new_requests s s' = [(UpdateRolloutStatus ?ro, True)]"
    using False assms by (auto simp: pushReplicaCounts_def updateRolloutStatus_def callE_def new_requests_def Let_def
        split: prod.splits)
  moreover have "pushReplicaCounts R ?ro newRS allRSs t = (Inr (), t)" for t
    using cur by (simp add: pushReplicaCounts_def returnE_def)
  ultimately show ?thesis by blast
qed

text \<open>
  C17. Ownership as the forked code leaves it: the ReplicaSet it creates for the synthetic
  Deployment is controlled by an owner of kind Deployment with the Rollout's own UID. \<open>ensureOwnedByRollout\<close> takes
  that for its own and never writes the Rollout as owner, so the event of a pod of such a ReplicaSet is mapped to
  no Rollout.
\<close>

theorem created_replicaSet_not_mapped:
  assumes "newReplicaSetObject L (asDeploymentView ro (ro_Spec ro)) = Inr rs"
    and "meta_OwnerReferences (rs_Meta rs') = meta_OwnerReferences (rs_Meta rs)"
    and "api_GetReplicaSet (rec_env R) (meta_Namespace (pod_Meta p)) n (srv s) = (Inr rs', v)"
    and "controllerNamed ''ReplicaSet'' (pod_Meta p) = Some n"
  shows "ensureOwnedByRollout R ro rs' s = (Inr rs', s) \<and> fst (mapPodToRollout R p s) = Inr []"
proof -
  have owners: "meta_OwnerReferences (rs_Meta rs') = [newControllerRef (asDeploymentView ro (ro_Spec ro))]"
    using assms(1,2) by (auto simp: newReplicaSetObject_def Let_def bindR_eq_Inr)
  then have "isOwnedBy (rs_Meta rs') ro"
    by (simp add: isOwnedBy_def newControllerRef_def asDeploymentView_def Let_def)
  moreover have "controllerNamed ''Rollout'' (rs_Meta rs') = None"
    by (simp add: controllerNamed_def owners newControllerRef_def)
  ultimately show ?thesis
    using assms(3,4)
    by (simp add: ensureOwnedByRollout_def mapPodToRollout_def getReplicaSet_def bindE_def tryE_def callE_def returnE_def)
qed

definition createdRS0 :: replicaSet where
  "createdRS0 = (case newReplicaSetObject ref_lib (asDeploymentView (rollout0 []) (spec0 [])) of Inr rs \<Rightarrow> rs | Inl _ \<Rightarrow> rs0 [] 0)"

definition pod0 :: pod where
  "pod0 = \<lparr>pod_Meta = (meta0 ''web-x-1'' ''uid-pod'')\<lparr>meta_OwnerReferences := [\<lparr>owner_APIVersion = ''apps/v1'',
     owner_Kind = ''ReplicaSet'', owner_Name = ''web-x'', owner_UID = ''uid-x'', owner_Controller = Some True,
     owner_BlockOwnerDeletion = Some True\<rparr>]\<rparr>, pod_Phase = ''Running''\<rparr>"

theorem created_replicaSet_not_mapped_witness:
  "fst (mapPodToRollout (R0\<lparr>rec_env := env0\<lparr>api_GetReplicaSet := (\<lambda>_ _. returnE createdRS0)\<rparr>\<rparr>) pod0 world0) = Inr []"
  using created_replicaSet_not_mapped [of ref_lib "rollout0 []" createdRS0 createdRS0
      "R0\<lparr>rec_env := env0\<lparr>api_GetReplicaSet := (\<lambda>_ _. returnE createdRS0)\<rparr>\<rparr>" pod0 "''web-x''" world0 "()"]
  by (simp add: createdRS0_def newReplicaSetObject_def CloneSelectorAndAddLabel_def asDeploymentView_def
      rollout0_def spec0_def pod0_def controllerNamed_def returnE_def Let_def bindR_def)

text \<open>
  C18. The router the manager wires in cannot drive Istio: it is built without a dynamic client,
  so for a Rollout with a complete Istio configuration every attempt to set a weight panics on the nil client.
\<close>

theorem default_istio_router_panics:
  assumes "spec_TrafficRouting (ro_Spec ro) = Some t" and "tr_Provider t = ''istio''" and "tr_Istio t = Some cfg"
    and "istio_VirtualServices cfg \<noteq> []" and "resolveHosts ro = Inr hosts"
  shows "\<exists>P. (defaultResolveRouter U ro :: 'w plugin option res) = Inr (Some P) \<and>
     (\<forall>w v. plug_SetWeight P ro w v = (Inl (NilDereference ''dyn''), v))"
proof -
  obtain vs rest where vss: "istio_VirtualServices cfg = vs # rest"
    using assms(4) by (cases "istio_VirtualServices cfg") auto
  have "istio_SetWeight U None ro w v = (Inl (NilDereference ''dyn''), v)" for w and v :: 'w
    using assms(1,3,5) by (cases hosts) (simp add: istio_SetWeight_def istioConfigOf_def vss
        patchVirtualService_def dynE_def bindE_def wrapE_def wrap_error_def failE_def liftE_def)
  then show ?thesis
    using assms(1,2) by (simp add: defaultResolveRouter_def Resolve_def Lookup_def Global_def istio_New_def)
qed

definition istioRollout0 :: rollout where
  "istioRollout0 = with_Spec (\<lambda>sp. sp\<lparr>
     spec_CanaryServices := [\<lparr>sref_Name = ''web-canary''\<rparr>], spec_StableServices := [\<lparr>sref_Name = ''web''\<rparr>],
     spec_TrafficRouting := Some (routing0\<lparr>tr_Provider := ''istio'',
       tr_Istio := Some \<lparr>istio_VirtualServices = [\<lparr>vsref_Name = ''vs'', vsref_Routes = [], vsref_TLSRoutes = [], vsref_TCPRoutes = []\<rparr>], istio_DestinationRules = []\<rparr>\<rparr>)\<rparr>)
     (rollout0 [])"

theorem default_istio_router_panics_witness:
  "\<exists>P. (defaultResolveRouter ref_unstructured istioRollout0 :: unit plugin option res) = Inr (Some P) \<and>
     (\<forall>w v. plug_SetWeight P istioRollout0 w v = (Inl (NilDereference ''dyn''), v))"
proof (rule default_istio_router_panics)
  show "spec_TrafficRouting (ro_Spec istioRollout0) = Some (the (spec_TrafficRouting (ro_Spec istioRollout0)))"
    and "tr_Provider (the (spec_TrafficRouting (ro_Spec istioRollout0))) = ''istio''"
    and "resolveHosts istioRollout0 = Inr (''web-canary'', ''web'')"
    by (simp_all add: istioRollout0_def resolveHosts_def)
  show "tr_Istio (the (spec_TrafficRouting (ro_Spec istioRollout0))) = Some \<lparr>istio_VirtualServices = [\<lparr>vsref_Name = ''vs'',
      vsref_Routes = [], vsref_TLSRoutes = [], vsref_TCPRoutes = []\<rparr>], istio_DestinationRules = []\<rparr>"
    by (simp add: istioRollout0_def)
qed simp



end
