(* ===== verification/Rollout_Progress.thy ===== *)
theory Rollout_Progress
  imports Rollout_Controller
begin

text \<open>
  What the reconciler of \<open>pkg/controller/rollout/controller.go\<close> and the step handlers of \<open>steps.go\<close> and
  \<open>progression.go\<close> implement together: a small machine on the position of a Rollout among its steps. The theory
  defines the machine, shows handler by handler that every write follows it, and lifts this to a whole reconcile and
  to every sequence of reconciles between two edits of the spec. It adds no operation of its own.
\<close>

section \<open>The abstract machine\<close>

text \<open>
  The steps of a rollout by name, and where it stands: the index of its current step, if the spec has it. A rollout
  that names no step stands at the first one.
\<close>

definition step_names :: "rollout \<Rightarrow> string list" where
  "step_names ro = map step_Name (ro_Steps ro)"

definition position :: "rollout \<Rightarrow> nat option" where
  "position ro = map_option snd (resolveCurrentStep ro)"

inductive walk :: "nat \<Rightarrow> nat option \<Rightarrow> nat option \<Rightarrow> bool" for n where
  stay: "walk n p p"
| go_on: "Suc i < n \<Longrightarrow> walk n (Some i) (Some (Suc i))"
| start_over: "Suc i = n \<Longrightarrow> walk n (Some i) (Some 0)"

inductive_cases walk_SomeE: "walk n (Some i) q"

definition moves :: "rollout \<Rightarrow> rollout \<Rightarrow> bool" where
  "moves ro ro' \<longleftrightarrow> step_names ro' = step_names ro \<and> walk (length (step_names ro)) (position ro) (position ro')"

definition alike :: "rollout \<Rightarrow> rollout \<Rightarrow> bool" where
  "alike ro ro' \<longleftrightarrow> step_names ro' = step_names ro \<and> st_CurrentStep (ro_Status ro') = st_CurrentStep (ro_Status ro)"

lemma findStep_names:
  "map step_Name ss = map step_Name ts \<Longrightarrow> map_option snd (findStep n ss) = map_option snd (findStep n ts)"
proof (induction ss arbitrary: ts)
  case (Cons s ss)
  then obtain t us where ts: "ts = t # us" "step_Name s = step_Name t" "map step_Name ss = map step_Name us"
    by (cases ts) auto
  from Cons.IH [OF ts(3)] show ?case
    by (auto simp: ts(1,2) option.map_comp comp_def case_prod_beta map_option_case split: option.splits)
qed simp

lemma alike_position: "alike ro ro' \<Longrightarrow> position ro' = position ro"
  unfolding alike_def step_names_def position_def resolveCurrentStep_def
  using findStep_names [of "ro_Steps ro'" "ro_Steps ro" "st_CurrentStep (ro_Status ro)"]
  by (cases "ro_Steps ro"; cases "ro_Steps ro'") auto

lemma alike_moves: "alike ro ro' \<Longrightarrow> moves ro ro'"
  using alike_position [of ro ro'] by (simp add: moves_def alike_def stay)

lemma alike_trans: "alike ro ro1 \<Longrightarrow> alike ro1 ro2 \<Longrightarrow> alike ro ro2"
  by (simp add: alike_def)

lemma alike_with_Status:
  "st_CurrentStep (f (ro_Status ro)) = st_CurrentStep (ro_Status ro) \<Longrightarrow> alike ro (with_Status f ro)"
  by (simp add: alike_def step_names_def)

lemma well_named_names: "well_named ro \<longleftrightarrow> distinct (step_names ro) \<and> [] \<notin> set (step_names ro)"
  by (simp add: well_named_def step_names_def)

lemma advanced_moves:
  assumes "well_named ro" and "alike ro ro1" and "position ro = Some idx"
  shows "moves ro (advancedStatus ro1 idx now)"
proof -
  have names: "step_names ro1 = step_names ro" and wn: "well_named ro1" and pos: "position ro1 = Some idx"
    using assms alike_position [OF assms(2)] by (auto simp: alike_def well_named_names)
  have len: "length (ro_Steps ro1) = length (step_names ro)" using names by (metis length_map step_names_def)
  obtain s where s: "resolveCurrentStep ro1 = Some (s, idx)" using pos by (auto simp: position_def)
  then have idx: "idx < length (ro_Steps ro1)" using resolveCurrentStep_nth by blast
  show ?thesis
  proof (cases "Suc idx < length (ro_Steps ro1)")
    case True
    then have "position (advancedStatus ro1 idx now) = Some (Suc idx)"
      using resolve_entered [OF wn True, of now] by (simp add: advancedStatus_def position_def)
    with True assms(3) names len show ?thesis
      by (auto simp: moves_def advancedStatus_def step_names_def intro: go_on)
  next
    case False
    then have "position (advancedStatus ro1 idx now) = Some 0"
      using idx by (auto simp: advancedStatus_def position_def resolveCurrentStep_def completedStatus_def split: list.splits)
    with False idx assms(3) names len show ?thesis
      by (auto simp: moves_def advancedStatus_def step_names_def intro: start_over)
  qed
qed

text \<open>The requests that take the rollout along the machine; all others leave it alone.\<close>

definition progresses :: "rollout \<Rightarrow> request \<Rightarrow> bool" where
  "progresses ro q = (case q of UpdateRolloutStatus ro' \<Rightarrow> moves ro ro' | UpdateRollout ro' \<Rightarrow> moves ro ro' | _ \<Rightarrow> True)"

lemma progresses_simps [simp]:
  "progresses ro (UpdateRolloutStatus ro') = moves ro ro'" "progresses ro (UpdateRollout ro') = moves ro ro'"
  by (simp_all add: progresses_def)

lemma progresses_other: "(\<And>ro'. q \<noteq> UpdateRolloutStatus ro') \<Longrightarrow> (\<And>ro'. q \<noteq> UpdateRollout ro') \<Longrightarrow> progresses ro q"
  by (auto simp: progresses_def split: request.split)

lemma progresses_read: "is_read q \<Longrightarrow> progresses ro q"
  by (cases q) (simp_all add: progresses_def)

lemma progresses_scales: "scales rs n q \<Longrightarrow> progresses ro q"
  by (cases q) (simp_all add: progresses_def)

lemma emits_advance:
  assumes "well_named ro" and "alike ro ro1" and "position ro = Some idx"
  shows "emits (progresses ro) (advanceStep E ro1 idx)"
  using advanced_moves [OF assms] unfolding advanceStep_def call_defs
  by (auto simp: advancedStatus_def intro!: emits_intros split: if_splits)

lemma emits_scale_progresses: "emits (progresses ro) (scaleReplicaSet L V rs n d what)"
  by (rule emits_mono [OF emits_scaleReplicaSet progresses_scales])

lemma emits_cleanup_progresses: "emits (progresses ro) (cleanupDeployment V old d)"
  unfolding cleanupDeployment_def cleanupOne_def Let_def call_defs
  by (intro emits_intros) (auto intro: progresses_other)

lemma emits_stampWeight: "alike ro ro1 \<Longrightarrow> emits (progresses ro) (stampWeight E fmt args ro1 w)"
  unfolding stampWeight_def Let_def call_defs
  by (intro emits_intros) (auto intro!: alike_moves alike_with_Status elim: alike_trans)

lemma returns_stampWeight: "alike ro ro1 \<Longrightarrow> returns (alike ro) (stampWeight E fmt args ro1 w)"
  unfolding stampWeight_def Let_def
  by (intro returns_intros) (auto intro!: alike_with_Status elim: alike_trans)

section \<open>The step handlers follow the machine\<close>

lemma emits_loadTemplates: "emits (progresses ro) (loadTemplates E ro1 refs g)"
  by (induction refs arbitrary: g) (auto simp: call_defs intro!: emits_intros progresses_other)

lemma emits_inconclusivePolicy: "emits (progresses ro) (inconclusivePolicy E ro1 refs)"
proof (induction refs)
  case (Cons ref refs)
  show ?case
    unfolding inconclusivePolicy.simps call_defs by (intro emits_intros Cons.IH progresses_other) simp_all
qed (simp add: emits_returnE)

lemma emits_runSetWeight:
  assumes "well_named ro" and "position ro = Some idx"
  shows "emits (progresses ro) (runSetWeight E ro step sw idx)"
proof -
  have refl: "alike ro ro" by (simp add: alike_def)
  have tail: "emits (progresses ro) (bindE (stampWeight E fmt args ro w) (\<lambda>ro'. bindE (advanceStep E ro' idx) (\<lambda>_. returnE 0)))"
    for fmt args w
    by (rule emits_bind_returns [OF emits_stampWeight [OF refl] returns_stampWeight [OF refl]])
      (intro emits_bindE emits_advance emits_returnE assms)
  show ?thesis
    unfolding runSetWeight_def setWeight_def verifyWeight_def
    by (intro emits_option emits_if emits_failE emits_wrapE emits_callE emits_returnE tail emits_bindE progresses_other) simp_all
qed

lemma emits_runSetCanaryScale:
  assumes "well_named ro" and "position ro = Some idx"
  shows "emits (progresses ro) (runSetCanaryScale E ro step scs idx newRS)"
  unfolding runSetCanaryScale_def
  by (intro emits_intros emits_scale_progresses emits_advance assms) (simp add: alike_def)

lemma emits_runPause:
  assumes "well_named ro" and "position ro = Some idx"
  shows "emits (progresses ro) (runPause E ro p idx)"
proof -
  have "emits (progresses ro) (advanceStep E ro idx)"
    by (rule emits_advance [OF assms(1) _ assms(2)]) (simp add: alike_def)
  moreover have "moves ro (with_Status (pausedStatus now d) ro)" for now d
    by (intro alike_moves alike_with_Status) (simp add: pausedStatus_def)
  ultimately show ?thesis
    unfolding runPause_def Let_def call_defs
    by (auto intro!: emits_intros split: list.split)
qed

lemma emits_runAnalysis:
  assumes "well_named ro" and "position ro = Some idx"
  shows "emits (progresses ro) (runAnalysis E ro step a idx)"
proof -
  have adv: "emits (progresses ro) (advanceStep E ro idx)"
    by (rule emits_advance [OF assms(1) _ assms(2)]) (simp add: alike_def)
  have upd: "moves ro (with_Status (\<lambda>st. st\<lparr>st_AnalysisRunSummaries := f st\<rparr>) ro)" "moves ro (pausedFor reason now msg ro)"
    "moves ro (degradedAndAborting msg ro)" for f reason now msg
    by (auto intro!: alike_moves simp: pausedFor_def degradedAndAborting_def alike_def step_names_def)
  show ?thesis
    unfolding runAnalysis_def getOrCreateAnalysisRun_def materializeTemplates_def recordAnalysisRun_def
      applyAnalysisFailure_def applyAnalysisInconclusive_def Let_def call_defs
    by (intro emits_intros emits_loadTemplates emits_inconclusivePolicy adv) (auto simp: upd intro: progresses_other)
qed

lemma emits_runPromote:
  assumes "well_named ro" and "position ro = Some idx"
  shows "emits (progresses ro) (runPromote E ro step idx newRS oldRSs)"
proof -
  have refl: "alike ro ro" by (simp add: alike_def)
  have upd: "moves ro (pausedFor reason now msg ro)" "moves ro (with_Status (\<lambda>st. st\<lparr>st_Phase := ph\<rparr>) ro)" for reason now msg ph
    by (auto intro!: alike_moves simp: pausedFor_def alike_def step_names_def)
  have svc: "emits (progresses ro) (repointServices E ro1 rs)" for ro1 rs
    by (rule emits_mono [OF emits_repointServices]) (auto intro: progresses_read progresses_other)
  have down: "emits (progresses ro) (scaleDownAfterDelay E ro1 oldRSs)" for ro1
    unfolding scaleDownAfterDelay_def scaleDownOld_def Let_def call_defs
    by (intro emits_intros emits_scale_progresses)
  have tail: "emits (progresses ro) (bindE (stampWeight E fmt args ro 100) (\<lambda>ro'.
        bindE (case newRS of None \<Rightarrow> returnE ()
               | Some rs \<Rightarrow> wrapE f1 a1 (repointServices E ro' rs)) (\<lambda>_.
        if \<not> observedSpecReplicas ro' then returnE (2 * Second)
        else bindE (wrapE f2 a2 (scaleDownAfterDelay E ro' oldRSs)) (\<lambda>requeue.
          if requeue > 0 then returnE requeue
          else bindE (advanceStep E ro' idx) (\<lambda>_. returnE 0)))))" for fmt args f1 a1 f2 a2
    by (rule emits_bind_returns [OF emits_stampWeight [OF refl] returns_stampWeight [OF refl]])
      (intro emits_intros svc down emits_advance assms)
  show ?thesis
    unfolding runPromote_def call_defs
    by (intro emits_if emits_failE emits_option emits_wrapE emits_callE emits_silentE emits_returnE tail emits_bindE)
      (auto simp: upd intro: progresses_other)
qed

lemma emits_finalize: "emits (progresses ro) (finalize E ro newRS oldRSs)"
proof -
  have "moves ro (with_Status f (with_Status g ro))"
    if "\<And>st. st_CurrentStep (f st) = st_CurrentStep st" "\<And>st. st_CurrentStep (g st) = st_CurrentStep st" for f g
    by (rule alike_moves) (simp add: alike_def step_names_def that)
  moreover have "moves ro (with_Status g ro)" if "\<And>st. st_CurrentStep (g st) = st_CurrentStep st" for g
    by (rule alike_moves) (simp add: alike_def step_names_def that)
  ultimately show ?thesis
    unfolding finalize_def Let_def call_defs
    by (intro emits_intros emits_cleanup_progresses) (auto split: option.split)
qed

lemma emits_Execute: "well_named ro \<Longrightarrow> emits (progresses ro) (Execute E ro newRS oldRSs)"
proof (cases "resolveCurrentStep ro")
  case None
  then show ?thesis unfolding Execute_def by (simp add: emits_bindE emits_finalize emits_returnE)
next
  case (Some x)
  assume wn: "well_named ro"
  obtain step idx where x: "x = (step, idx)" by fastforce
  have pos: "position ro = Some idx" by (simp add: position_def Some x)
  have exp: "emits (progresses ro) (runExperiment E ro step idx)"
    unfolding runExperiment_def by (intro emits_intros emits_advance wn pos) (simp add: alike_def)
  show ?thesis
    unfolding Execute_def Some x option.case prod.case
    by (intro emits_option emits_failE exp emits_runSetWeight emits_runSetCanaryScale emits_runPause emits_runAnalysis
        emits_runPromote wn pos)
qed

section \<open>A reconcile follows the machine\<close>

lemma emits_getAll_progresses: "emits (progresses ro) (getAllReplicaSetsAndSyncRevision L V d rsList create)"
  unfolding getAllReplicaSetsAndSyncRevision_def getNewReplicaSet_def syncExistingRS_def createNewRS_def
    finishCreate_def createConflict_def createFailed_def Let_def call_defs
  by (intro emits_intros) (auto intro: progresses_other)

lemma alike_share: "alike ro (shareAnnotations d ro)"
  by (simp add: alike_def step_names_def shareAnnotations_def split: option.split)

lemma emits_reconcileReplicaSets: "emits (progresses ro) (reconcileReplicaSets R ro rsList)"
  unfolding reconcileReplicaSets_def ensureOwnedByRollout_def Let_def updateReplicaSet_def
  by (intro emits_intros emits_getAll_progresses) (auto intro: progresses_other)

lemma returns_reconcileReplicaSets: "returns (\<lambda>(newRS, oldRSs, ro1). alike ro ro1) (reconcileReplicaSets R ro rsList)"
  unfolding reconcileReplicaSets_def Let_def
  by (intro returns_intros) (auto intro: alike_share)

lemma emits_reconcileReplicas: "emits (progresses ro) (reconcileReplicas L V ro1 newRS oldRSs)"
  unfolding reconcileReplicas_def scaleIfNeeded_def Let_def
  by (intro emits_intros emits_scale_progresses)

lemma emits_pushReplicaCounts: "alike ro ro1 \<Longrightarrow> emits (progresses ro) (pushReplicaCounts R ro1 newRS allRSs)"
  unfolding pushReplicaCounts_def Let_def call_defs withCounts_def
  by (intro emits_intros) (auto intro!: alike_moves elim: alike_trans simp: alike_with_Status split: prod.split)

lemma emits_abortRollout: "alike ro ro1 \<Longrightarrow> emits (progresses ro) (abortRollout R ro1 router newRS)"
  unfolding abortRollout_def call_defs
  by (intro emits_intros emits_scale_progresses)
    (auto intro!: alike_moves elim: alike_trans simp: alike_with_Status intro: progresses_other)

lemma moves_alike: "alike ro ro1 \<Longrightarrow> moves ro1 ro2 \<Longrightarrow> moves ro ro2"
  using alike_position [of ro ro1] by (simp add: moves_def alike_def)

lemma progresses_alike: "alike ro ro1 \<Longrightarrow> progresses ro1 q \<Longrightarrow> progresses ro q"
  by (cases q) (auto simp: progresses_def intro: moves_alike)

lemma well_named_alike: "alike ro ro1 \<Longrightarrow> well_named ro \<Longrightarrow> well_named ro1"
  by (simp add: alike_def well_named_names)

lemma first_step_moves:
  assumes "well_named ro" and "st_CurrentStep (ro_Status ro) = []" and "ro_Steps ro \<noteq> []"
  shows "moves ro (with_Status (firstStepStatus (step_Name (hd (ro_Steps ro))) now) ro)"
proof -
  obtain t ts where steps: "ro_Steps ro = t # ts" using assms(3) by (cases "ro_Steps ro") auto
  with assms(1) have "step_Name t \<noteq> []" by (auto simp: well_named_def)
  then have "position (with_Status (firstStepStatus (step_Name t) now) ro) = Some 0"
    by (simp add: position_def resolveCurrentStep_def firstStepStatus_def steps)
  moreover have "position ro = Some 0" using assms(2) by (simp add: position_def resolveCurrentStep_def steps)
  ultimately show ?thesis by (simp add: moves_def step_names_def steps stay)
qed

lemma emits_syncRollout:
  assumes "well_named ro"
  shows "emits (progresses ro) (syncRollout R ro rsList)"
proof -
  have exec: "emits (progresses ro) (Execute E ro1 newRS oldRSs)" if "alike ro ro1" for E ro1 newRS oldRSs
    by (rule emits_mono [OF emits_Execute [OF well_named_alike [OF that assms]] progresses_alike [OF that]])
  have first: "moves ro (with_Status (firstStepStatus (step_Name (hd (ro_Steps ro1))) now) ro1)"
    if "alike ro ro1" "st_CurrentStep (ro_Status ro1) = [] \<and> ro_Steps ro1 \<noteq> []" for ro1 now
    using moves_alike [OF that(1) first_step_moves [OF well_named_alike [OF that(1) assms]]] that(2) by simp
  have tail: "emits (progresses ro) ((\<lambda>(newRS, oldRSs, ro1).
        bindE (wrapE ''reconcile replicas: %w'' []
          (reconcileReplicas (rec_lib R) (rec_env R) ro1 newRS oldRSs)) (\<lambda>_.
        bindE (wrapE ''push replica counts: %w'' []
          (pushReplicaCounts R ro1 newRS (map Some oldRSs @ [newRS]))) (\<lambda>_.
        if spec_Abort (ro_Spec ro1) then abortRollout R ro1 router newRS
        else if st_CurrentStep (ro_Status ro1) = [] \<and> ro_Steps ro1 \<noteq> [] then
          bindE (timeNow (rec_env R)) (\<lambda>now.
          bindE (updateRolloutStatus (rec_env R)
            (with_Status (firstStepStatus (step_Name (hd (ro_Steps ro1))) now) ro1)) (\<lambda>_. returnE 0))
        else Execute (executorOf R router) ro1 newRS oldRSs))) x)"
    if "case x of (newRS, oldRSs, ro1) \<Rightarrow> alike ro ro1" for router x
    using that unfolding updateRolloutStatus_def timeNow_def
    by (cases x) (auto intro!: emits_bindE emits_wrapE emits_reconcileReplicas emits_pushReplicaCounts emits_abortRollout
        emits_silentE emits_callE emits_returnE exec first simp del: hd_conv_nth)
  show ?thesis
    unfolding syncRollout_def
    by (intro emits_if emits_returnE emits_bindE [OF emits_liftE]
        emits_bind_returns [OF emits_wrapE [OF emits_reconcileReplicaSets] returns_wrapE [OF returns_reconcileReplicaSets]] tail)
qed

lemma alike_defaults: "alike ro (applyDefaults ro)"
proof -
  have "step_Name (defaultStep st) = step_Name st" for st by (simp add: defaultStep_def split: option.split)
  then show ?thesis by (simp add: alike_def step_names_def applyDefaults_def with_Spec_def comp_def)
qed

lemma Reconcile_refines:
  assumes "api_GetRollout (rec_env R) ns name (srv s) = (Inr ro, v)" and "well_named ro"
    and "Reconcile R ns name s = (r, s')"
    and "(UpdateRolloutStatus ro', ok) \<in> set (new_requests s s') \<or> (UpdateRollout ro', ok) \<in> set (new_requests s s')"
  shows "step_names ro' = step_names ro \<and> walk (length (step_names ro)) (position ro) (position ro')"
proof -
  let ?s1 = "s\<lparr>srv := v, hist := hist s @ [(GetRollout ns name, True)]\<rparr>"
  let ?ro = "applyDefaults ro"
  have get: "getRollout (rec_env R) ns name s = (Inr ro, ?s1)"
    using assms(1) by (simp add: getRollout_def callE_def)
  have "emits (progresses ro) (syncRollout R ?ro l)" for l
    by (rule emits_mono [OF emits_syncRollout [OF well_named_alike [OF alike_defaults assms(2)]] progresses_alike [OF alike_defaults]])
  then have em: "emits (progresses ro) (bindE (listReplicaSets R ?ro) (syncRollout R ?ro))"
    unfolding listReplicaSets_def apiListReplicaSets_def by (intro emits_intros) (auto intro: progresses_other)
  have "\<forall>(q, ok) \<in> set (new_requests s s'). progresses ro q"
  proof (cases "meta_DeletionTimestamp (ro_Meta ro) = None")
    case True
    have run: "bindE (listReplicaSets R ?ro) (syncRollout R ?ro) ?s1 = (r, s')"
      using assms(3) get True by (simp add: Reconcile_def bindE_def tryE_def Let_def)
    have "hist s' = hist s @ (GetRollout ns name, True) # new_requests ?s1 s'"
      using emits_new_requests(1) [OF em, of ?s1] by (simp add: run)
    from new_requests_append [OF this] have "new_requests s s' = (GetRollout ns name, True) # new_requests ?s1 s'" .
    with emits_new_requests(2) [OF em, of _ _ ?s1] show ?thesis
      by (auto simp: run intro: progresses_other)
  next
    case False
    with assms(3) get show ?thesis
      by (auto simp: Reconcile_def bindE_def tryE_def returnE_def new_requests_def intro: progresses_other)
  qed
  with assms(4) show ?thesis by (auto simp: moves_def)
qed

text \<open>
  C1. The reconciler refines a simple machine: whatever the cluster answers, every status or spec that a reconcile of
  a stored Rollout writes has its step names and stands where the Rollout stood, at the next step, or, from the last
  step, at the first one again. No write skips a step, goes back or names a step that does not exist.
\<close>

theorem Reconcile_refines_walk:
  assumes "api_GetRollout (rec_env R) ns name (srv s) = (Inr ro, v)" and "well_named ro"
    and "Reconcile R ns name s = (r, s')"
    and "(UpdateRolloutStatus ro', ok) \<in> set (new_requests s s') \<or> (UpdateRollout ro', ok) \<in> set (new_requests s s')"
  shows "step_names ro' = step_names ro \<and> walk (length (step_names ro)) (position ro) (position ro')"
  by (rule Reconcile_refines [OF assms])

text \<open>
  A reconcile of a Rollout of two steps that already has its ReplicaSet, with none of its pods: the counters and the
  first step are written.
\<close>

definition walkRollout0 :: rollout where
  "walkRollout0 = rollout0 [step0 ''a'', step0 ''b'']"

definition walkReconciler0 :: "unit reconciler" where
  "walkReconciler0 = R0\<lparr>rec_env := env0\<lparr>api_GetRollout := \<lambda>_ _. returnE walkRollout0,
     api_ListReplicaSets := \<lambda>_ _. returnE [(rs0 ''v2'' 0)\<lparr>rs_Meta := (rs_Meta (rs0 ''v2'' 0))
       \<lparr>meta_OwnerReferences := [rolloutOwnerRef walkRollout0]\<rparr>\<rparr>]\<rparr>\<rparr>"

lemma walk0_writes:
  "list_ex (\<lambda>(q, ok). ok \<and> (case q of UpdateRolloutStatus ro' \<Rightarrow> st_CurrentStep (ro_Status ro') = ''a'' | _ \<Rightarrow> False))
     (new_requests world0 (snd (Reconcile walkReconciler0 ''prod'' ''web'' world0)))"
  by code_simp

lemma walk0_start: "well_named walkRollout0 \<and> step_names walkRollout0 = [''a'', ''b''] \<and> position walkRollout0 = Some 0"
  by code_simp

lemma walk0_read: "api_GetRollout (rec_env walkReconciler0) ns name (srv world0) = (Inr walkRollout0, ())"
  by (simp add: walkReconciler0_def returnE_def)

lemma walk0_write:
  obtains ro' where "(UpdateRolloutStatus ro', True) \<in> set (new_requests world0 (snd (Reconcile walkReconciler0 ''prod'' ''web'' world0)))"
    and "st_CurrentStep (ro_Status ro') = ''a''"
  using walk0_writes by (auto simp: list_ex_iff split: request.splits)

theorem Reconcile_refines_walk_witness:
  "\<exists>ro'. (UpdateRolloutStatus ro', True) \<in> set (new_requests world0 (snd (Reconcile walkReconciler0 ''prod'' ''web'' world0)))
     \<and> step_names ro' = [''a'', ''b''] \<and> walk 2 (Some 0) (position ro')"
proof -
  from walk0_write obtain ro' where w:
    "(UpdateRolloutStatus ro', True) \<in> set (new_requests world0 (snd (Reconcile walkReconciler0 ''prod'' ''web'' world0)))" .
  have "step_names ro' = step_names walkRollout0
     \<and> walk (length (step_names walkRollout0)) (position walkRollout0) (position ro')"
    by (rule Reconcile_refines_walk [OF walk0_read _ prod.collapse [symmetric] disjI1 [OF w]]) (simp add: walk0_start)
  with w show ?thesis by (auto simp: walk0_start numeral_2_eq_2)
qed

text \<open>
  The Rollouts a reconciler can come to from a first one while nobody edits them: each accepted write of a
  reconcile that read one of them is another.
\<close>

inductive stored :: "'w reconciler \<Rightarrow> rollout \<Rightarrow> rollout \<Rightarrow> bool" for R and ro0 where
  first: "stored R ro0 ro0"
| later: "stored R ro0 ro \<Longrightarrow> api_GetRollout (rec_env R) ns name (srv s) = (Inr ro, v) \<Longrightarrow>
    Reconcile R ns name s = (r, s') \<Longrightarrow>
    (UpdateRolloutStatus ro', True) \<in> set (new_requests s s') \<or> (UpdateRollout ro', True) \<in> set (new_requests s s') \<Longrightarrow>
    stored R ro0 ro'"

text \<open>
  C2. Between two edits of its spec a Rollout keeps its steps and its place among them: every Rollout the
  reconciler comes to has the same step names and was reached by moves of the machine, so one that stood at a step of
  its spec always stands at one.
\<close>

theorem stored_stays_on_track:
  assumes "stored R ro0 ro" and "well_named ro0"
  shows "step_names ro = step_names ro0 \<and> (walk (length (step_names ro0)))\<^sup>*\<^sup>* (position ro0) (position ro)
     \<and> (position ro0 \<noteq> None \<longrightarrow> (\<exists>i < length (step_names ro). position ro = Some i))"
proof -
  let ?n = "length (step_names ro0)"
  have chain: "step_names ro = step_names ro0 \<and> (walk ?n)\<^sup>*\<^sup>* (position ro0) (position ro)"
    using assms(1)
  proof induction
    case (later ro ns name s v r s' ro')
    then have "well_named ro" using assms(2) by (simp add: well_named_names)
    from Reconcile_refines [OF later(2) this later(3), of ro' True] later show ?case
      by (auto intro: rtranclp.rtrancl_into_rtrancl)
  qed simp
  have step: "\<exists>i < ?n. q = Some i" if "walk ?n p q" "\<exists>i < ?n. p = Some i" for p q
    using that by cases auto
  have "\<exists>i < ?n. q = Some i" if "(walk ?n)\<^sup>*\<^sup>* p q" "\<exists>i < ?n. p = Some i" for p q
    using that by induction (auto dest: step)
  moreover have "\<exists>i < ?n. position ro0 = Some i" if "position ro0 \<noteq> None"
    using that resolveCurrentStep_nth by (fastforce simp: position_def step_names_def)
  ultimately show ?thesis using chain by metis
qed

theorem stored_stays_on_track_witness:
  "\<exists>ro. stored walkReconciler0 walkRollout0 ro \<and> st_CurrentStep (ro_Status ro) = ''a''
     \<and> step_names ro = [''a'', ''b''] \<and> (walk 2)\<^sup>*\<^sup>* (Some 0) (position ro) \<and> (\<exists>i < 2. position ro = Some i)"
proof -
  from walk0_write obtain ro' where w:
    "(UpdateRolloutStatus ro', True) \<in> set (new_requests world0 (snd (Reconcile walkReconciler0 ''prod'' ''web'' world0)))"
    and a: "st_CurrentStep (ro_Status ro') = ''a''" .
  have "stored walkReconciler0 walkRollout0 ro'"
    by (rule stored.later [OF stored.first walk0_read prod.collapse [symmetric] disjI1 [OF w]])
  from this stored_stays_on_track [OF this] a show ?thesis
    by (auto simp: walk0_start numeral_2_eq_2)
qed

section \<open>A progression of weights completes\<close>

text \<open>
  A cluster that obliges: it takes every status, and the router takes every weight and confirms it. The Rollout the
  server keeps after a run is the one of the last accepted status write, and \<open>rounds\<close> executes the current step
  again and again, each time on the Rollout the server kept.
\<close>

definition obliging :: "'w executor \<Rightarrow> 'w plugin \<Rightarrow> bool" where
  "obliging E router \<longleftrightarrow> ex_router E = Some router
     \<and> (\<forall>ro v. fst (api_UpdateRolloutStatus (ex_env E) ro v) = Inr ())
     \<and> (\<forall>ro w v. fst (plug_SetWeight router ro w v) = Inr ())
     \<and> (\<forall>ro w v. fst (plug_VerifyWeight router ro w v) = Inr True)"

fun kept :: "rollout \<Rightarrow> (request \<times> bool) list \<Rightarrow> rollout" where
  "kept ro [] = ro"
| "kept ro ((UpdateRolloutStatus ro', True) # h) = kept ro' h"
| "kept ro (_ # h) = kept ro h"

fun rounds :: "'w executor \<Rightarrow> nat \<Rightarrow> rollout \<Rightarrow> ('w, request) world \<Rightarrow> rollout" where
  "rounds E 0 ro s = ro"
| "rounds E (Suc n) ro s =
     (let s' = snd (Execute E ro None [] s) in rounds E n (kept ro (new_requests s s')) s')"

lemma kept_last: "kept ro (h @ [(UpdateRolloutStatus ro', True)]) = ro'"
  by (induction ro h rule: kept.induct) auto

lemma runSetWeight_returns:
  assumes "obliging E router"
  shows "fst (runSetWeight E ro step sw idx s) = Inr 0"
proof -
  obtain u where upd: "\<And>r v. api_UpdateRolloutStatus (ex_env E) r v = (Inr (), u r v)"
    using assms that [of "\<lambda>r v. snd (api_UpdateRolloutStatus (ex_env E) r v)"] by (simp add: obliging_def prod_eq_iff)
  obtain f where set: "\<And>r w v. plug_SetWeight router r w v = (Inr (), f r w v)"
    using assms that [of "\<lambda>r w v. snd (plug_SetWeight router r w v)"] by (simp add: obliging_def prod_eq_iff)
  obtain g where ver: "\<And>r w v. plug_VerifyWeight router r w v = (Inr True, g r w v)"
    using assms that [of "\<lambda>r w v. snd (plug_VerifyWeight router r w v)"] by (simp add: obliging_def prod_eq_iff)
  have "ex_router E = Some router" using assms by (simp add: obliging_def)
  then show ?thesis
    by (simp add: runSetWeight_def stampWeight_def advanceStep_def call_defs bindE_def wrapE_def callE_def silentE_def
        returnE_def Let_def upd set ver split: prod.split)
qed

lemma Execute_kept:
  assumes "obliging E router" and "resolveCurrentStep ro = Some (step, i)" and "step_SetWeight step = Some sw"
  shows "\<exists>now. kept ro (new_requests s (snd (Execute E ro None [] s)))
     = advancedStatus (with_Status (\<lambda>st. st\<lparr>st_CurrentWeight := sw_Weight sw\<rparr>) ro) i now"
proof -
  have run: "Execute E ro None [] s = runSetWeight E ro step sw i s" using assms(2,3) by (simp add: Execute_def)
  have "runSetWeight E ro step sw i s = (Inr 0, snd (runSetWeight E ro step sw i s))"
    using runSetWeight_returns [OF assms(1)] by (simp add: prod_eq_iff)
  from runSetWeight_last_write [OF this] show ?thesis by (auto simp: run kept_last)
qed

lemma rounds_complete:
  assumes "obliging E router" and "well_named ro" and "\<forall>st \<in> set (ro_Steps ro). step_SetWeight st \<noteq> None"
    and "resolveCurrentStep ro = Some (step, i)"
  shows "st_Phase (ro_Status (rounds E (length (ro_Steps ro) - i) ro s)) = PhaseHealthy
     \<and> map_option sw_Weight (step_SetWeight (last (ro_Steps ro)))
         = Some (st_CurrentWeight (ro_Status (rounds E (length (ro_Steps ro) - i) ro s)))
     \<and> (\<forall>k < length (ro_Steps ro) - i. position (rounds E k ro s) = Some (i + k))"
  using assms(2-4)
proof (induction "length (ro_Steps ro) - i" arbitrary: ro step i s)
  case 0
  then show ?case using resolveCurrentStep_nth [of ro step i] by simp
next
  case (Suc n)
  have i: "i < length (ro_Steps ro)" "ro_Steps ro ! i = step" using resolveCurrentStep_nth [OF Suc.prems(3)] by simp_all
  then obtain sw where sw: "step_SetWeight step = Some sw" using Suc.prems(2) nth_mem by blast
  let ?s' = "snd (Execute E ro None [] s)" and ?ro = "kept ro (new_requests s (snd (Execute E ro None [] s)))"
  obtain now where ro': "?ro = advancedStatus (with_Status (\<lambda>st. st\<lparr>st_CurrentWeight := sw_Weight sw\<rparr>) ro) i now"
    using Execute_kept [OF assms(1) Suc.prems(3) sw] by blast
  have step: "rounds E (Suc k) ro s = rounds E k ?ro ?s'" for k by (simp add: Let_def)
  have steps: "ro_Steps ?ro = ro_Steps ro" by (simp add: ro')
  show ?case
  proof (cases n)
    case 0
    then have one: "length (ro_Steps ro) - i = Suc 0" using Suc.hyps(2) by simp
    then have "length (ro_Steps ro) - 1 = i" "ro_Steps ro \<noteq> []" using i(1) by auto
    then have "last (ro_Steps ro) = step" using i(2) by (metis last_conv_nth)
    moreover have "length (ro_Steps ro) \<le> i + 1" using one by simp
    ultimately show ?thesis
      using one sw Suc.prems(3)
      by (simp add: step ro' advancedStatus_def completedStatus_def position_def Let_def)
  next
    case (Suc m)
    then have lt: "i + 1 < length (ro_Steps ro)" using Suc.hyps(2) by simp
    then have res: "resolveCurrentStep ?ro = Some (ro_Steps ro ! (i + 1), i + 1)"
      using resolve_entered [of "with_Status (\<lambda>st. st\<lparr>st_CurrentWeight := sw_Weight sw\<rparr>) ro" "i + 1" now] Suc.prems(1)
      by (simp add: ro' advancedStatus_def well_named_def)
    have wn: "well_named ?ro" using Suc.prems(1) by (simp add: well_named_def steps)
    have n: "n = length (ro_Steps ?ro) - (i + 1)" using Suc.hyps(2) steps by simp
    have "\<forall>st \<in> set (ro_Steps ?ro). step_SetWeight st \<noteq> None" using Suc.prems(2) by (simp only: steps)
    from Suc.hyps(1) [OF n wn this res, of ?s', folded n, unfolded steps]
    have IH: "st_Phase (ro_Status (rounds E n ?ro ?s')) = PhaseHealthy"
      "map_option sw_Weight (step_SetWeight (last (ro_Steps ro))) = Some (st_CurrentWeight (ro_Status (rounds E n ?ro ?s')))"
      "\<forall>k < n. position (rounds E k ?ro ?s') = Some (i + 1 + k)" by blast+
    have "position (rounds E k ro s) = Some (i + k)" if "k < Suc n" for k
      using that IH(3) Suc.prems(3) by (cases k) (auto simp: position_def Let_def)
    with IH(1,2) show ?thesis by (simp only: Suc.hyps(2) [symmetric] step) blast
  qed
qed


definition weightStep0 :: "string \<Rightarrow> int \<Rightarrow> step" where
  "weightStep0 name w = (step0 name)\<lparr>step_SetWeight := Some \<lparr>sw_Weight = w, sw_Matches = []\<rparr>\<rparr>"


end
