(* ===== verification/Deployment_Rollout.thy ===== *)
theory Deployment_Rollout
  imports Deployment_Sync
begin

text \<open>
  The strategies of the forked Deployment controller: \<open>rolling.go\<close>, \<open>recreate.go\<close>, \<open>progress.go\<close> and
  \<open>rollback.go\<close>, with the three \<open>enqueue\<close> helpers of \<open>deployment_controller.go\<close> they call. A loop that
  replaces entries of its slice returns the slice; a map of pods is a list of pairs, of which the sources ask
  nothing that depends on the order.
\<close>

abbreviation TimedOutReason :: string where "TimedOutReason \<equiv> ''ProgressDeadlineExceeded''"
abbreviation NewRSAvailableReason :: string where "NewRSAvailableReason \<equiv> ''NewReplicaSetAvailable''"
abbreviation ReplicaSetUpdatedReason :: string where "ReplicaSetUpdatedReason \<equiv> ''ReplicaSetUpdated''"

section \<open>The work queue\<close>

text \<open>An object without a key is reported to the log and not queued.\<close>

definition enqueue :: "lib \<Rightarrow> deployment \<Rightarrow> ('w, unit) io" where
  "enqueue L d = (case lib_KeyFunc L (dep_Meta d) of
     Inl err \<Rightarrow> returnE () | Inr key \<Rightarrow> queueWrite (QueueAdd key))"

definition enqueueRateLimited :: "lib \<Rightarrow> deployment \<Rightarrow> ('w, unit) io" where
  "enqueueRateLimited L d = (case lib_KeyFunc L (dep_Meta d) of
     Inl err \<Rightarrow> returnE () | Inr key \<Rightarrow> queueWrite (QueueAddRateLimited key))"

definition enqueueAfter :: "lib \<Rightarrow> deployment \<Rightarrow> duration \<Rightarrow> ('w, unit) io" where
  "enqueueAfter L d wait = (case lib_KeyFunc L (dep_Meta d) of
     Inl err \<Rightarrow> returnE () | Inr key \<Rightarrow> queueWrite (QueueAddAfter key wait))"

section \<open>Progress\<close>

definition requeueStuckDeployment ::
    "lib \<Rightarrow> 'w env \<Rightarrow> deployment \<Rightarrow> deploymentStatus \<Rightarrow> ('w, duration) io" where
  "requeueStuckDeployment L V d newStatus =
     (case (dep_ProgressDeadlineSeconds d, GetDeploymentCondition (dep_Status d) DeploymentProgressingType) of
        (Some deadline, Some currentCond) \<Rightarrow>
          (if \<not> HasProgressDeadline d then returnE (- 1)
           else bindE (liftE (DeploymentComplete d newStatus)) (\<lambda>complete.
             if complete \<or> dcond_Reason currentCond = TimedOutReason then returnE (- 1)
             else bindE (timeNow V) (\<lambda>now.
               let wait = time_Sub (dcond_LastUpdateTime currentCond + deadline * Second) now
               in if wait < Second then bindE (enqueueRateLimited L d) (\<lambda>_. returnE 0)
                  else bindE (enqueueAfter L d (wrap64 (wait + Second))) (\<lambda>_. returnE wait))))
      | _ \<Rightarrow> returnE (- 1))"

definition failureConditions :: "replicaSet \<Rightarrow> deploymentCondition list" where
  "failureConditions rs = map ReplicaSetToDeploymentCondition
     (filter (\<lambda>c. rsc_Type c = DeploymentReplicaFailureType) (rs_Conditions rs))"

definition getReplicaFailures :: "replicaSet option list \<Rightarrow> replicaSet option \<Rightarrow> deploymentCondition list" where
  "getReplicaFailures allRSs newRS =
     (let conditions = (case newRS of None \<Rightarrow> [] | Some rs \<Rightarrow> failureConditions rs)
      in if conditions \<noteq> [] then conditions
         else concat (map failureConditions (non_nil allRSs)))"

definition progressMessage :: "string \<Rightarrow> deployment \<Rightarrow> replicaSet option \<Rightarrow> string" where
  "progressMessage what d newRS = (case newRS of
     None \<Rightarrow> sprintf (''Deployment %q '' @ what) [dep_Name d]
   | Some rs \<Rightarrow> sprintf (''ReplicaSet %q '' @ what) [rs_Name rs])"

text \<open>The three cases of the progress estimate: complete, progressing, timed out.\<close>

definition estimateProgress ::
    "'w env \<Rightarrow> deployment \<Rightarrow> replicaSet option \<Rightarrow> deploymentStatus \<Rightarrow> ('w, deploymentStatus) io" where
  "estimateProgress V d newRS newStatus =
     bindE (liftE (DeploymentComplete d newStatus)) (\<lambda>complete.
     bindE (timeNow V) (\<lambda>now.
     if complete then
       returnE (SetDeploymentCondition newStatus (NewDeploymentCondition now DeploymentProgressingType ''True''
         NewRSAvailableReason (progressMessage ''has successfully progressed.'' d newRS)))
     else if DeploymentProgressing d newStatus then
       let condition = NewDeploymentCondition now DeploymentProgressingType ''True''
             ReplicaSetUpdatedReason (progressMessage ''is progressing.'' d newRS)
       in case GetDeploymentCondition (dep_Status d) DeploymentProgressingType of
            None \<Rightarrow> returnE (SetDeploymentCondition newStatus condition)
          | Some currentCond \<Rightarrow>
              returnE (SetDeploymentCondition (RemoveDeploymentCondition newStatus DeploymentProgressingType)
                (if dcond_Status currentCond = ''True''
                 then condition\<lparr>dcond_LastTransitionTime := dcond_LastTransitionTime currentCond\<rparr>
                 else condition))
     else if DeploymentTimedOut now d newStatus then
       bindE (timeNow V) (\<lambda>now'.
       returnE (SetDeploymentCondition newStatus (NewDeploymentCondition now' DeploymentProgressingType ''False''
         TimedOutReason (progressMessage ''has timed out progressing.'' d newRS))))
     else returnE newStatus))"

definition isCompleteDeployment :: "deployment \<Rightarrow> deploymentStatus \<Rightarrow> bool" where
  "isCompleteDeployment d newStatus \<longleftrightarrow> ds_Replicas newStatus = ds_UpdatedReplicas newStatus \<and>
     (case GetDeploymentCondition (dep_Status d) DeploymentProgressingType of
        None \<Rightarrow> False | Some c \<Rightarrow> dcond_Reason c = NewRSAvailableReason)"

definition moveFailures :: "replicaSet option list \<Rightarrow> replicaSet option \<Rightarrow> deploymentStatus \<Rightarrow> deploymentStatus" where
  "moveFailures allRSs newRS status = (case getReplicaFailures allRSs newRS of
     c # _ \<Rightarrow> SetDeploymentCondition status c
   | [] \<Rightarrow> RemoveDeploymentCondition status DeploymentReplicaFailureType)"

definition rolloutStatus ::
    "lib \<Rightarrow> 'w env \<Rightarrow> replicaSet option list \<Rightarrow> replicaSet option \<Rightarrow> deployment \<Rightarrow> ('w, deploymentStatus) io" where
  "rolloutStatus L V allRSs newRS d =
     bindE (timeNow V) (\<lambda>now.
     bindE (liftE (calculateStatus L now allRSs newRS d)) (\<lambda>status.
     let st1 = (if HasProgressDeadline d then status
                else RemoveDeploymentCondition status DeploymentProgressingType)
     in bindE (if HasProgressDeadline d \<and> \<not> isCompleteDeployment d st1
               then estimateProgress V d newRS st1 else returnE st1) (\<lambda>st2.
        returnE (moveFailures allRSs newRS st2))))"

definition syncRolloutStatus ::
    "lib \<Rightarrow> 'w env \<Rightarrow> replicaSet option list \<Rightarrow> replicaSet option \<Rightarrow> deployment \<Rightarrow> ('w, unit) io" where
  "syncRolloutStatus L V allRSs newRS d =
     bindE (rolloutStatus L V allRSs newRS d) (\<lambda>newStatus.
     if dep_Status d = newStatus then
       bindE (requeueStuckDeployment L V d newStatus) (\<lambda>_. returnE ())
     else updateDeploymentStatus V (dep_Namespace d) (d\<lparr>dep_Status := newStatus\<rparr>))"

section \<open>Rolling update\<close>

definition reconcileNewReplicaSet ::
    "lib \<Rightarrow> 'w env \<Rightarrow> replicaSet option list \<Rightarrow> replicaSet \<Rightarrow> deployment \<Rightarrow> ('w, bool) io" where
  "reconcileNewReplicaSet L V allRSs newRS d =
     bindE (liftE (deref ''rs.Spec.Replicas'' (rs_Replicas newRS))) (\<lambda>size.
     bindE (liftE (deref ''Replicas'' (dep_Replicas d))) (\<lambda>replicas.
     if size = replicas then returnE False
     else if size > replicas then
       bindE (scaleReplicaSetAndRecordEvent L V newRS replicas d) (\<lambda>(scaled, rs). returnE scaled)
     else
       bindE (liftE (NewRSNewReplicas L d allRSs newRS)) (\<lambda>newReplicasCount.
       bindE (scaleReplicaSetAndRecordEvent L V newRS newReplicasCount d) (\<lambda>(scaled, rs). returnE scaled))))"

text \<open>
  The two loops over the old ReplicaSets. The first carries the number of replicas taken so far and returns the
  slice with the updated ReplicaSets in place.
\<close>

fun cleanupUnhealthy_from ::
    "lib \<Rightarrow> 'w env \<Rightarrow> deployment \<Rightarrow> int \<Rightarrow> int \<Rightarrow> replicaSet list \<Rightarrow> ('w, replicaSet list \<times> int) io" where
  "cleanupUnhealthy_from L V d maxCleanupCount totalScaledDown [] = returnE ([], totalScaledDown)"
| "cleanupUnhealthy_from L V d maxCleanupCount totalScaledDown (targetRS # rest) =
     (if totalScaledDown \<ge> maxCleanupCount then returnE (targetRS # rest, totalScaledDown)
      else bindE (liftE (deref ''rs.Spec.Replicas'' (rs_Replicas targetRS))) (\<lambda>size.
        if size = 0 \<or> size = rs_AvailableReplicas targetRS then
          bindE (cleanupUnhealthy_from L V d maxCleanupCount totalScaledDown rest) (\<lambda>(l, t).
          returnE (targetRS # l, t))
        else
          let scaledDownCount = min (wrap32 (maxCleanupCount - totalScaledDown))
                                    (wrap32 (size - rs_AvailableReplicas targetRS));
              newReplicasCount = wrap32 (size - scaledDownCount)
          in if newReplicasCount > size then
               failE (Errorf ''when cleaning up unhealthy replicas, got invalid request to scale down %s/%s %d -> %d''
                 [meta_Namespace (rs_Meta targetRS), rs_Name targetRS, FormatInt size, FormatInt newReplicasCount])
             else
               bindE (scaleReplicaSetAndRecordEvent L V targetRS newReplicasCount d) (\<lambda>(b, updatedOldRS).
               bindE (cleanupUnhealthy_from L V d maxCleanupCount (wrap32 (totalScaledDown + scaledDownCount)) rest)
                 (\<lambda>(l, t). returnE (updatedOldRS # l, t)))))"

definition cleanupUnhealthyReplicas ::
    "lib \<Rightarrow> 'w env \<Rightarrow> replicaSet list \<Rightarrow> deployment \<Rightarrow> int \<Rightarrow> ('w, replicaSet list \<times> int) io" where
  "cleanupUnhealthyReplicas L V oldRSs d maxCleanupCount =
     cleanupUnhealthy_from L V d maxCleanupCount 0 (Sort ReplicaSetsByCreationTimestamp oldRSs)"

fun scaleDownOld_from ::
    "lib \<Rightarrow> 'w env \<Rightarrow> deployment \<Rightarrow> int \<Rightarrow> int \<Rightarrow> replicaSet list \<Rightarrow> ('w, int) io" where
  "scaleDownOld_from L V d totalScaleDownCount totalScaledDown [] = returnE totalScaledDown"
| "scaleDownOld_from L V d totalScaleDownCount totalScaledDown (targetRS # rest) =
     (if totalScaledDown \<ge> totalScaleDownCount then returnE totalScaledDown
      else bindE (liftE (deref ''rs.Spec.Replicas'' (rs_Replicas targetRS))) (\<lambda>size.
        if size = 0 then scaleDownOld_from L V d totalScaleDownCount totalScaledDown rest
        else
          let scaleDownCount = min size (wrap32 (totalScaleDownCount - totalScaledDown));
              newReplicasCount = wrap32 (size - scaleDownCount)
          in if newReplicasCount > size then
               failE (Errorf ''when scaling down old RS, got invalid request to scale down %s/%s %d -> %d''
                 [meta_Namespace (rs_Meta targetRS), rs_Name targetRS, FormatInt size, FormatInt newReplicasCount])
             else
               bindE (scaleReplicaSetAndRecordEvent L V targetRS newReplicasCount d) (\<lambda>_.
               scaleDownOld_from L V d totalScaleDownCount (wrap32 (totalScaledDown + scaleDownCount)) rest)))"

definition scaleDownOldReplicaSetsForRollingUpdate ::
    "lib \<Rightarrow> 'w env \<Rightarrow> replicaSet option list \<Rightarrow> replicaSet list \<Rightarrow> deployment \<Rightarrow> ('w, int) io" where
  "scaleDownOldReplicaSetsForRollingUpdate L V allRSs oldRSs d =
     bindE (liftE (MaxUnavailable L d)) (\<lambda>maxUnavailable.
     bindE (liftE (deref ''Replicas'' (dep_Replicas d))) (\<lambda>replicas.
     let minAvailable = wrap32 (replicas - maxUnavailable);
         availablePodCount = GetAvailableReplicaCountForReplicaSets allRSs
     in if availablePodCount \<le> minAvailable then returnE 0
        else scaleDownOld_from L V d (wrap32 (availablePodCount - minAvailable)) 0
               (Sort ReplicaSetsByCreationTimestamp oldRSs)))"

text \<open>An error of either loop is swallowed: the answer is then \<open>false\<close> without an error.\<close>

definition reconcileOldReplicaSets ::
    "lib \<Rightarrow> 'w env \<Rightarrow> replicaSet option list \<Rightarrow> replicaSet list \<Rightarrow> replicaSet \<Rightarrow> deployment \<Rightarrow> ('w, bool) io" where
  "reconcileOldReplicaSets L V allRSs oldRSs newRS d =
     bindE (liftE (GetReplicaCountForReplicaSets (map Some oldRSs))) (\<lambda>oldPodsCount.
     if oldPodsCount = 0 then returnE False
     else
       bindE (liftE (GetReplicaCountForReplicaSets allRSs)) (\<lambda>allPodsCount.
       bindE (liftE (MaxUnavailable L d)) (\<lambda>maxUnavailable.
       bindE (liftE (deref ''Replicas'' (dep_Replicas d))) (\<lambda>replicas.
       bindE (liftE (deref ''rs.Spec.Replicas'' (rs_Replicas newRS))) (\<lambda>newSize.
       let minAvailable = wrap32 (replicas - maxUnavailable);
           newRSUnavailablePodCount = wrap32 (newSize - rs_AvailableReplicas newRS);
           maxScaledDown = wrap32 (wrap32 (allPodsCount - minAvailable) - newRSUnavailablePodCount)
       in if maxScaledDown \<le> 0 then returnE False
          else
            bindE (tryE (cleanupUnhealthyReplicas L V oldRSs d maxScaledDown)) (\<lambda>r. case r of
              Inl err \<Rightarrow> returnE False
            | Inr (oldRSs', cleanupCount) \<Rightarrow>
                bindE (tryE (scaleDownOldReplicaSetsForRollingUpdate L V (map Some oldRSs' @ [Some newRS]) oldRSs' d))
                  (\<lambda>r'. case r' of
                    Inl err \<Rightarrow> returnE False
                  | Inr scaledDownCount \<Rightarrow> returnE (wrap32 (cleanupCount + scaledDownCount) > 0))))))))"

definition rolloutRolling :: "lib \<Rightarrow> 'w env \<Rightarrow> deployment \<Rightarrow> replicaSet list \<Rightarrow> ('w, unit) io" where
  "rolloutRolling L V d0 rsList =
     bindE (getAllReplicaSetsAndSyncRevision L V d0 rsList True) (\<lambda>(newRS, oldRSs, d).
     let allRSs = map Some oldRSs @ [newRS] in
     bindE (liftE (deref ''newRS'' newRS)) (\<lambda>rs.
     bindE (reconcileNewReplicaSet L V allRSs rs d) (\<lambda>scaledUp.
     if scaledUp then syncRolloutStatus L V allRSs newRS d
     else
       bindE (reconcileOldReplicaSets L V allRSs (FilterActiveReplicaSets (map Some oldRSs)) rs d) (\<lambda>scaledDown.
       if scaledDown then syncRolloutStatus L V allRSs newRS d
       else
         bindE (liftE (DeploymentComplete d (dep_Status d))) (\<lambda>complete.
         bindE (if complete then cleanupDeployment V oldRSs d else returnE ()) (\<lambda>_.
         syncRolloutStatus L V allRSs newRS d))))))"

section \<open>Recreate\<close>

fun scaleDownRecreate_from :: "lib \<Rightarrow> 'w env \<Rightarrow> deployment \<Rightarrow> bool \<Rightarrow> replicaSet list \<Rightarrow> ('w, bool) io" where
  "scaleDownRecreate_from L V d scaled [] = returnE scaled"
| "scaleDownRecreate_from L V d scaled (rs # rest) =
     bindE (liftE (deref ''rs.Spec.Replicas'' (rs_Replicas rs))) (\<lambda>size.
     if size = 0 then scaleDownRecreate_from L V d scaled rest
     else bindE (scaleReplicaSetAndRecordEvent L V rs 0 d) (\<lambda>(scaledRS, updatedRS).
       scaleDownRecreate_from L V d (scaled \<or> scaledRS) rest))"

definition scaleDownOldReplicaSetsForRecreate ::
    "lib \<Rightarrow> 'w env \<Rightarrow> replicaSet list \<Rightarrow> deployment \<Rightarrow> ('w, bool) io" where
  "scaleDownOldReplicaSetsForRecreate L V oldRSs d = scaleDownRecreate_from L V d False oldRSs"

definition oldPodsRunning ::
    "replicaSet option \<Rightarrow> replicaSet list \<Rightarrow> (string \<times> pod list) list \<Rightarrow> bool" where
  "oldPodsRunning newRS oldRSs podMap \<longleftrightarrow>
     GetActualReplicaCountForReplicaSets (map Some oldRSs) > 0 \<or>
     list_ex (\<lambda>(rsUID, podList).
       \<not> (case newRS of None \<Rightarrow> False | Some rs \<Rightarrow> rs_UID rs = rsUID) \<and>
       list_ex (\<lambda>pod. pod_Phase pod \<noteq> ''Failed'' \<and> pod_Phase pod \<noteq> ''Succeeded'') podList) podMap"

definition scaleUpNewReplicaSetForRecreate ::
    "lib \<Rightarrow> 'w env \<Rightarrow> replicaSet option \<Rightarrow> deployment \<Rightarrow> ('w, bool) io" where
  "scaleUpNewReplicaSetForRecreate L V newRS d =
     bindE (liftE (deref ''Replicas'' (dep_Replicas d))) (\<lambda>replicas.
     bindE (liftE (deref ''newRS'' newRS)) (\<lambda>rs.
     bindE (scaleReplicaSetAndRecordEvent L V rs replicas d) (\<lambda>(scaled, rs'). returnE scaled)))"

definition rolloutRecreate ::
    "lib \<Rightarrow> 'w env \<Rightarrow> deployment \<Rightarrow> replicaSet list \<Rightarrow> (string \<times> pod list) list \<Rightarrow> ('w, unit) io" where
  "rolloutRecreate L V d0 rsList podMap =
     bindE (getAllReplicaSetsAndSyncRevision L V d0 rsList False) (\<lambda>(newRS, oldRSs, d).
     let allRSs = map Some oldRSs @ [newRS] in
     bindE (scaleDownOldReplicaSetsForRecreate L V (FilterActiveReplicaSets (map Some oldRSs)) d) (\<lambda>scaledDown.
     if scaledDown \<or> oldPodsRunning newRS oldRSs podMap then syncRolloutStatus L V allRSs newRS d
     else
       bindE (if newRS = None then getAllReplicaSetsAndSyncRevision L V d rsList True
              else returnE (newRS, oldRSs, d)) (\<lambda>(newRS', oldRSs', d').
       bindE (scaleUpNewReplicaSetForRecreate L V newRS' d') (\<lambda>_.
       bindE (liftE (DeploymentComplete d' (dep_Status d'))) (\<lambda>complete.
       bindE (if complete then cleanupDeployment V oldRSs' d' else returnE ()) (\<lambda>_.
       syncRolloutStatus L V (map Some oldRSs' @ [newRS']) newRS' d'))))))"

section \<open>Rollback\<close>

definition emitRollbackWarningEvent :: "string \<Rightarrow> string \<Rightarrow> ('w, unit) io" where
  "emitRollbackWarningEvent reason message = eventf ''Warning'' reason message"

definition emitRollbackNormalEvent :: "string \<Rightarrow> ('w, unit) io" where
  "emitRollbackNormalEvent message = eventf ''Normal'' ''DeploymentRollback'' message"

definition updateDeploymentAndClearRollbackTo :: "'w env \<Rightarrow> deployment \<Rightarrow> ('w, unit) io" where
  "updateDeploymentAndClearRollbackTo V d = updateDeployment V (dep_Namespace d) (setRollbackTo d None)"

definition rollbackToTemplate :: "lib \<Rightarrow> 'w env \<Rightarrow> deployment \<Rightarrow> replicaSet \<Rightarrow> ('w, bool) io" where
  "rollbackToTemplate L V d rs =
     (if \<not> EqualIgnoreHash L (dep_Template d) (rs_Template rs) then
        bindE (updateDeploymentAndClearRollbackTo V
          (SetDeploymentAnnotationsTo (SetFromReplicaSetTemplate d (rs_Template rs)) rs)) (\<lambda>_. returnE True)
      else
        bindE (emitRollbackWarningEvent ''DeploymentRollbackTemplateUnchanged''
          (sprintf ''The rollback revision contains the same template as current deployment %q'' [dep_Name d])) (\<lambda>_.
        bindE (updateDeploymentAndClearRollbackTo V d) (\<lambda>_. returnE False)))"

definition rollback :: "lib \<Rightarrow> 'w env \<Rightarrow> deployment \<Rightarrow> replicaSet list \<Rightarrow> ('w, unit) io" where
  "rollback L V d0 rsList =
     bindE (getAllReplicaSetsAndSyncRevision L V d0 rsList True) (\<lambda>(newRS, allOldRSs, d).
     bindE (liftE (deref ''newRS'' newRS)) (\<lambda>rs.
     let allRSs = allOldRSs @ [rs] in
     bindE (liftE (deref ''rollbackTo'' (getRollbackTo d))) (\<lambda>requested.
     let revision = (if requested = 0 then LastRevision allRSs else requested) in
     if revision = 0 then
       bindE (emitRollbackWarningEvent ''DeploymentRollbackRevisionNotFound'' ''Unable to find last revision.'') (\<lambda>_.
       updateDeploymentAndClearRollbackTo V d)
     else case find (\<lambda>r. Revision r = Some revision) allRSs of
         Some target \<Rightarrow>
           bindE (rollbackToTemplate L V d target) (\<lambda>performedRollback.
           if performedRollback then
             emitRollbackNormalEvent (sprintf ''Rolled back deployment %q to revision %d'' [dep_Name d, FormatInt revision])
           else returnE ())
       | None \<Rightarrow>
           bindE (emitRollbackWarningEvent ''DeploymentRollbackRevisionNotFound''
             ''Unable to find the revision to rollback to.'') (\<lambda>_.
           updateDeploymentAndClearRollbackTo V d))))"

section \<open>Availability during a rolling update\<close>

text \<open>
  The size of a ReplicaSet after the accepted updates of a history, by namespace and name. An accepted update of a
  ReplicaSet returns the object with the size that was sent and its observed availability: an update does not
  write the status.
\<close>

definition rs_key :: "replicaSet \<Rightarrow> string \<times> string" where
  "rs_key rs = (meta_Namespace (rs_Meta rs), rs_Name rs)"

definition resized :: "string \<times> string \<Rightarrow> int \<Rightarrow> request \<times> bool \<Rightarrow> int" where
  "resized k n = (\<lambda>(q, ok). case q of
     UpdateReplicaSet ns x \<Rightarrow> (if ok \<and> (ns, rs_Name x) = k then rs_size x else n)
   | _ \<Rightarrow> n)"

definition sizeAfter :: "replicaSet \<Rightarrow> (request \<times> bool) list \<Rightarrow> int" where
  "sizeAfter rs h = foldl (resized (rs_key rs)) (rs_size rs) h"

definition update_echoes :: "'w env \<Rightarrow> bool" where
  "update_echoes V \<longleftrightarrow> (\<forall>ns rs v rs' v'. api_UpdateReplicaSet V ns rs v = (Inr rs', v') \<longrightarrow>
     rs_key rs' = rs_key rs \<and> rs_Replicas rs' = rs_Replicas rs \<and> rs_AvailableReplicas rs' = rs_AvailableReplicas rs)"

lemma sizeAfter_Nil [simp]: "sizeAfter rs [] = rs_size rs"
  by (simp add: sizeAfter_def)

lemma resized_simps:
  "resized k n (UpdateReplicaSet ns x, True) = (if (ns, rs_Name x) = k then rs_size x else n)"
  "resized k n (UpdateReplicaSet ns x, False) = n" "resized k n (Event a b c, ok) = n"
  by (simp_all add: resized_def)

lemma sizeAfter_cong: "rs_key a = rs_key b \<Longrightarrow> rs_size a = rs_size b \<Longrightarrow> sizeAfter a h = sizeAfter b h"
  by (simp add: sizeAfter_def)

lemma sizeAfter_append:
  "rs_key b = rs_key a \<Longrightarrow> rs_size b = sizeAfter a h \<Longrightarrow> sizeAfter a (h @ g) = sizeAfter b g"
  by (simp add: sizeAfter_def)

text \<open>What one scaling call adds: at most one accepted update, of this ReplicaSet, to the new size.\<close>

definition rescales :: "replicaSet \<Rightarrow> int \<Rightarrow> (request \<times> bool) list \<Rightarrow> bool" where
  "rescales rs n g \<longleftrightarrow> (\<forall>k m. foldl (resized k) m g = m \<or> k = rs_key rs \<and> foldl (resized k) m g = n)"

definition set_to :: "replicaSet \<Rightarrow> int \<Rightarrow> (request \<times> bool) list \<Rightarrow> bool" where
  "set_to rs n g \<longleftrightarrow> (\<forall>k m. foldl (resized k) m g = (if k = rs_key rs then n else m))"

lemma scaled_update:
  assumes "scales rs n (UpdateReplicaSet ns x)"
  shows "ns = meta_Namespace (rs_Meta rs) \<and> rs_Name x = rs_Name rs \<and> meta_Namespace (rs_Meta x) = meta_Namespace (rs_Meta rs)
    \<and> rs_size x = n \<and> rs_AvailableReplicas x = rs_AvailableReplicas rs \<and> rs_Replicas x = Some n"
proof -
  have eq: "rs_set_Annotations None x = rs_set_Annotations None (rs\<lparr>rs_Replicas := Some n\<rparr>)" and ns: "ns = meta_Namespace (rs_Meta rs)"
    using assms by simp_all
  have "rs_Name x = rs_Name rs" "meta_Namespace (rs_Meta x) = meta_Namespace (rs_Meta rs)"
      "rs_Replicas x = Some n" "rs_AvailableReplicas x = rs_AvailableReplicas rs"
    using eq by (cases x; cases rs; cases "rs_Meta x"; cases "rs_Meta rs"; simp add: rs_set_Annotations_def)+
  with ns show ?thesis by (simp add: rs_size_def)
qed

lemma rescales_Nil: "rescales rs n []"
  by (simp add: rescales_def)

lemma set_to_Event: "set_to rs n g \<Longrightarrow> set_to rs n (g @ [(Event a b c, ok)])"
  by (simp add: set_to_def resized_simps)

lemma rescales_Event: "set_to rs n g \<Longrightarrow> rescales rs n (g @ [(Event a b c, ok)])"
  by (simp add: set_to_def rescales_def resized_simps)

definition same_but_size :: "replicaSet \<Rightarrow> int \<Rightarrow> replicaSet \<Rightarrow> bool" where
  "same_but_size rs n rs' \<longleftrightarrow> rs_key rs' = rs_key rs \<and> rs_Replicas rs' = Some n
     \<and> rs_AvailableReplicas rs' = rs_AvailableReplicas rs"

lemma runs_at_update_sized:
  assumes "update_echoes V" and "scales rs n (UpdateReplicaSet ns x)"
  shows "runs_at (updateReplicaSet V ns x) [] s (\<lambda>r g. case r of
      Inl e \<Rightarrow> rescales rs n g | Inr rs' \<Rightarrow> set_to rs n g \<and> same_but_size rs n rs')"
  unfolding updateReplicaSet_def
proof (rule runs_at_callE_op, goal_cases)
  case (1 rs' v v')
  have "rs_key rs' = rs_key x \<and> rs_Replicas rs' = rs_Replicas x \<and> rs_AvailableReplicas rs' = rs_AvailableReplicas x"
    using assms(1) 1 unfolding update_echoes_def by blast
  with scaled_update [OF assms(2)] show ?case
    by (simp add: set_to_def same_but_size_def resized_simps rs_key_def)
next
  case (2 e)
  then show ?case by (simp add: rescales_def resized_simps)
qed

lemma runs_at_scale_sized:
  assumes echo: "update_echoes V" and size: "rs_Replicas rs = Some m" "n \<noteq> m"
  shows "runs_at (scaleReplicaSetAndRecordEvent L V rs n d) [] s (\<lambda>r g. case r of
      Inl e \<Rightarrow> rescales rs n g | Inr (b, rs') \<Rightarrow> set_to rs n g \<and> same_but_size rs n rs')"
proof -
  have upd: "scales rs n (UpdateReplicaSet (meta_Namespace (rs_Meta rs))
      (snd (SetReplicasAnnotations (rs\<lparr>rs_Replicas := Some n\<rparr>) a c)))" for a c
    by (simp add: SetReplicasAnnotations_only)
  have main: "runs_at (scaleReplicaSet L V rs n d what) [] s (\<lambda>r g. case r of
      Inl e \<Rightarrow> rescales rs n g | Inr (b, rs') \<Rightarrow> set_to rs n g \<and> same_but_size rs n rs')" for what s
    using size(2)
    unfolding scaleReplicaSet_def Let_def eventf_def size(1)
    by (intro runs_intros) (auto simp: deref_def rescales_Nil split: option.split sum.split
      intro!: runs_at_liftE runs_at_bindE runs_at_returnE runs_at_callE runs_at_mono [OF runs_at_update_sized [OF echo upd]]
      set_to_Event rescales_Event)
  show ?thesis
    using size(2) unfolding scaleReplicaSetAndRecordEvent_def size(1)
    by (auto intro!: runs_at_bindE runs_at_liftE main)
qed

text \<open>
  \<open>shrinks lo rss g\<close>: the requests \<open>g\<close> resize no ReplicaSet outside \<open>rss\<close>, and those inside to something between
  \<open>lo\<close> and their size. \<open>shape\<close> is what the loops assume of the list: names are unique and sizes are sane.
\<close>

definition shrinks :: "(replicaSet \<Rightarrow> int) \<Rightarrow> replicaSet list \<Rightarrow> (request \<times> bool) list \<Rightarrow> bool" where
  "shrinks lo rss g \<longleftrightarrow> (\<forall>k m. k \<notin> rs_key ` set rss \<longrightarrow> foldl (resized k) m g = m)
     \<and> (\<forall>rs \<in> set rss. lo rs \<le> sizeAfter rs g \<and> sizeAfter rs g \<le> rs_size rs)"

definition shape :: "replicaSet list \<Rightarrow> bool" where
  "shape rss \<longleftrightarrow> distinct (map rs_key rss) \<and> (\<forall>rs \<in> set rss. \<exists>n. rs_Replicas rs = Some n \<and>
     0 \<le> rs_AvailableReplicas rs \<and> rs_AvailableReplicas rs \<le> n \<and> in_i32 n)"

lemma shape_Cons:
  "shape (rs # rss) \<longleftrightarrow> (\<exists>n. rs_Replicas rs = Some n \<and> 0 \<le> rs_AvailableReplicas rs
     \<and> rs_AvailableReplicas rs \<le> n \<and> in_i32 n) \<and> rs_key rs \<notin> rs_key ` set rss \<and> shape rss"
  by (auto simp: shape_def)

lemma shrinks_Nil: "(\<And>rs. rs \<in> set rss \<Longrightarrow> lo rs \<le> rs_size rs) \<Longrightarrow> shrinks lo rss []"
  by (simp add: shrinks_def)

lemma shrinks_keep: "shrinks lo rss g \<Longrightarrow> k \<notin> rs_key ` set rss \<Longrightarrow> foldl (resized k) m g = m"
  unfolding shrinks_def by blast

lemma set_toD: "set_to rs n g \<Longrightarrow> foldl (resized k) m g = (if k = rs_key rs then n else m)"
  unfolding set_to_def by blast

lemma shrinks_skip:
  assumes "shrinks lo rss g" and "rs_key rs \<notin> rs_key ` set rss" and "lo rs \<le> rs_size rs"
  shows "shrinks lo (rs # rss) g" and "sizeAfter rs g = rs_size rs"
proof -
  show keep: "sizeAfter rs g = rs_size rs"
    unfolding sizeAfter_def by (rule shrinks_keep [OF assms(1,2)])
  show "shrinks lo (rs # rss) g"
    using assms keep by (simp add: shrinks_def del: split_paired_All)
qed

lemma shrinks_Cons:
  assumes "rescales rs n g1" and "shrinks lo rss g2" and "rs_key rs \<notin> rs_key ` set rss"
    and "lo rs \<le> n" and "n \<le> rs_size rs"
  shows "shrinks lo (rs # rss) (g1 @ g2)"
proof -
  have other: "foldl (resized k) m g1 = m" if "k \<noteq> rs_key rs" for k m
    using assms(1) that unfolding rescales_def by blast
  have own: "foldl (resized (rs_key rs)) m g1 \<in> {m, n}" for m
    using assms(1) unfolding rescales_def by blast
  have keep: "foldl (resized (rs_key rs)) m g2 = m" for m
    by (rule shrinks_keep [OF assms(2,3)])
  have "sizeAfter x (g1 @ g2) = sizeAfter x g2" if "x \<in> set rss" for x
  proof -
    have "rs_key x \<noteq> rs_key rs" using that assms(3) by (auto simp: image_iff)
    then show ?thesis by (simp only: sizeAfter_def foldl_append other not_False_eq_True)
  qed
  moreover have "sizeAfter rs (g1 @ g2) \<in> {rs_size rs, n}"
    unfolding sizeAfter_def foldl_append keep by (rule own)
  ultimately show ?thesis
    using assms(2,4,5) other by (auto simp: shrinks_def simp del: split_paired_All)
qed

lemma set_to_rescales: "set_to rs n g \<Longrightarrow> rescales rs n g"
  by (simp add: set_to_def rescales_def)

lemma set_to_Cons:
  assumes "set_to rs n g1" and "shrinks lo rss g2" and "rs_key rs \<notin> rs_key ` set rss"
  shows "sizeAfter rs (g1 @ g2) = n" and "x \<in> set rss \<Longrightarrow> sizeAfter x (g1 @ g2) = sizeAfter x g2"
proof -
  have keep: "foldl (resized (rs_key rs)) m g2 = m" for m
    by (rule shrinks_keep [OF assms(2,3)])
  show "sizeAfter rs (g1 @ g2) = n"
    unfolding sizeAfter_def foldl_append keep by (simp add: set_toD [OF assms(1)])
  assume "x \<in> set rss"
  then have "rs_key x \<noteq> rs_key rs" using assms(3) by (auto simp: image_iff)
  then show "sizeAfter x (g1 @ g2) = sizeAfter x g2"
    unfolding sizeAfter_def foldl_append by (simp add: set_toD [OF assms(1)])
qed

lemma shrinks_available_Nil: "shape rss \<Longrightarrow> shrinks rs_AvailableReplicas rss []"
  by (rule shrinks_Nil) (auto simp: shape_def rs_size_def)

definition leaves :: "replicaSet list \<Rightarrow> replicaSet list \<Rightarrow> (request \<times> bool) list \<Rightarrow> bool" where
  "leaves rss l g \<longleftrightarrow> list_all2 (\<lambda>rs x. same_but_size rs (sizeAfter rs g) x) rss l"

lemma leaves_refl: "shape rss \<Longrightarrow> leaves rss rss []"
  by (induction rss) (auto simp: leaves_def shape_Cons same_but_size_def rs_size_def)

lemma leaves_skip: "leaves rss l g \<Longrightarrow> rs_Replicas rs = Some (sizeAfter rs g) \<Longrightarrow> leaves (rs # rss) (rs # l) g"
  by (simp add: leaves_def same_but_size_def)

lemma leaves_Cons:
  assumes "set_to rs n g1" and "shrinks lo rss g2" and "rs_key rs \<notin> rs_key ` set rss"
    and "leaves rss l g2" and "same_but_size rs n x"
  shows "leaves (rs # rss) (x # l) (g1 @ g2)"
  using assms(4,5) unfolding leaves_def
  by (auto simp: set_to_Cons [OF assms(1-3)] elim!: list_all2_mono [rotated] cong: list.rel_cong)

definition cleaned :: "replicaSet list \<Rightarrow> error + (replicaSet list \<times> int) \<Rightarrow> (request \<times> bool) list \<Rightarrow> bool" where
  "cleaned rss r g \<longleftrightarrow> shrinks rs_AvailableReplicas rss g \<and> (\<forall>l t. r = Inr (l, t) \<longrightarrow> leaves rss l g)"

lemma runs_at_cleanup:
  assumes "update_echoes V" and "shape rss" and "0 \<le> tot" and "in_i32 mx"
  shows "runs_at (cleanupUnhealthy_from L V d mx tot rss) [] s (cleaned rss)"
  using assms(2,3)
proof (induction rss arbitrary: tot s)
  case Nil
  then show ?case by (auto intro!: runs_at_returnE shrinks_Nil simp: leaves_def cleaned_def)
next
  case (Cons rs rss)
  obtain n where n: "rs_Replicas rs = Some n" "0 \<le> rs_AvailableReplicas rs" "rs_AvailableReplicas rs \<le> n" "in_i32 n"
    and key: "rs_key rs \<notin> rs_key ` set rss" and sh: "shape rss"
    using Cons.prems(1) by (auto simp: shape_Cons)
  have sz: "rs_size rs = n" using n by (simp add: rs_size_def)
  have stop: "shrinks rs_AvailableReplicas (rs # rss) []"
    by (rule shrinks_available_Nil [OF Cons.prems(1)])
  have same: "cleaned (rs # rss) (Inr (rs # rss, tot)) []"
    using stop leaves_refl [OF Cons.prems(1)] by (simp add: cleaned_def)
  have skip: "runs_at (bindE (cleanupUnhealthy_from L V d mx tot rss) (\<lambda>(l, t). returnE (rs # l, t))) [] s
      (cleaned (rs # rss))" for s
    by (rule runs_at_bindE, rule runs_at_mono [OF Cons.IH [OF sh Cons.prems(2)]])
      (auto split: sum.split intro!: runs_at_returnE leaves_skip shrinks_skip(1) [OF _ key]
        simp: sz n cleaned_def shrinks_skip(2) [OF _ key])
  define c where "c = min (wrap32 (mx - tot)) (wrap32 (n - rs_AvailableReplicas rs))"
  have c: "0 < c \<and> c \<le> n - rs_AvailableReplicas rs \<and> wrap32 (n - c) = n - c \<and> 0 \<le> wrap32 (tot + c)"
    if "tot < mx" "n \<noteq> rs_AvailableReplicas rs"
  proof -
    have w: "wrap32 (mx - tot) = mx - tot" "wrap32 (n - rs_AvailableReplicas rs) = n - rs_AvailableReplicas rs"
      using assms(4) Cons.prems(2) that n by (auto simp: in_i32_def intro!: wrap32_id)
    then have "0 < c" "c \<le> n - rs_AvailableReplicas rs" "tot + c \<le> mx" using that n unfolding c_def by auto
    moreover from this have "wrap32 (n - c) = n - c" "wrap32 (tot + c) = tot + c"
      using n assms(4) Cons.prems(2) by (auto simp: in_i32_def intro!: wrap32_id)
    ultimately show ?thesis using Cons.prems(2) by simp
  qed
  have rest: "runs_at (bindE (cleanupUnhealthy_from L V d mx (wrap32 (tot + c)) rss) (\<lambda>(l, t). returnE (x # l, t))) g1 s'
      (cleaned (rs # rss))"
    if "tot < mx" "n \<noteq> rs_AvailableReplicas rs" "set_to rs (n - c) g1" "same_but_size rs (n - c) x" for x g1 s'
    by (rule runs_at_bindE, rule runs_at_suffix [OF Cons.IH [OF sh]])
      (use c [OF that(1,2)] that in \<open>auto split: sum.split intro!: runs_at_returnE leaves_Cons [OF that(3) _ key _ that(4)]
        shrinks_Cons [OF set_to_rescales [OF that(3)] _ key] simp: sz cleaned_def\<close>)
  show ?case
  proof (cases "mx \<le> tot \<or> n = 0 \<or> n = rs_AvailableReplicas rs")
    case True
    then show ?thesis
      using skip same by (auto simp: n(1) bind_lift intro!: runs_at_returnE)
  next
    case False
    have stopped: "cleaned (rs # rss) (Inl e) h" if "rescales rs (n - c) h" for e h
      using shrinks_Cons [OF that shrinks_available_Nil [OF sh] key] c False sz by (simp add: cleaned_def)
    have step: "runs_at (scaleReplicaSetAndRecordEvent L V rs (n - c) d) [] s' (\<lambda>r h. case r of
        Inl e \<Rightarrow> cleaned (rs # rss) (Inl e) h
      | Inr (b, x) \<Rightarrow> (\<forall>s'. runs_at (bindE (cleanupUnhealthy_from L V d mx (wrap32 (tot + c)) rss)
          (\<lambda>(l, t). returnE (x # l, t))) h s' (cleaned (rs # rss))))" for s'
      by (rule runs_at_mono [OF runs_at_scale_sized [OF assms(1) n(1)]])
        (use c False stopped sz in
          \<open>auto split: sum.splits intro!: rest stopped\<close>)
    have "runs_at (bindE (scaleReplicaSetAndRecordEvent L V rs (n - c) d) (\<lambda>(b, x).
        bindE (cleanupUnhealthy_from L V d mx (wrap32 (tot + c)) rss) (\<lambda>(l, t). returnE (x # l, t)))) [] s (cleaned (rs # rss))"
      by (rule runs_at_bindE, rule runs_at_mono [OF step]) (auto split: sum.splits)
    with c False show ?thesis
      unfolding cleanupUnhealthy_from.simps Let_def n(1) deref_simps bind_lift c_def [symmetric] by auto
  qed
qed

text \<open>The second loop takes at most its budget.\<close>

definition taken :: "replicaSet list \<Rightarrow> (request \<times> bool) list \<Rightarrow> int" where
  "taken rss g = (\<Sum>rs \<leftarrow> rss. rs_size rs - sizeAfter rs g)"

definition drained :: "int \<Rightarrow> replicaSet list \<Rightarrow> error + int \<Rightarrow> (request \<times> bool) list \<Rightarrow> bool" where
  "drained b rss r g \<longleftrightarrow> shrinks (\<lambda>_. 0) rss g \<and> taken rss g \<le> max 0 b"

lemma drained_Nil: "shape rss \<Longrightarrow> drained b rss r []"
  by (auto simp: drained_def taken_def shape_def rs_size_def intro!: shrinks_Nil)

lemma taken_skip: "sizeAfter rs g = rs_size rs \<Longrightarrow> taken (rs # rss) g = taken rss g"
  by (simp add: taken_def)

lemma drained_skip:
  "drained b rss r g \<Longrightarrow> rs_key rs \<notin> rs_key ` set rss \<Longrightarrow> 0 \<le> rs_size rs \<Longrightarrow> drained b (rs # rss) r' g"
  unfolding drained_def using shrinks_skip [of "\<lambda>_. 0" rss g rs] by (simp add: taken_skip)

lemma taken_set_to:
  assumes "set_to rs n g1" and "shrinks lo rss g2" and "rs_key rs \<notin> rs_key ` set rss"
  shows "taken (rs # rss) (g1 @ g2) = rs_size rs - n + taken rss g2"
  using set_to_Cons [OF assms] by (simp add: taken_def cong: map_cong)

lemma drained_Cons:
  assumes "set_to rs (rs_size rs - c) g1" and "drained b rss r g2" and "rs_key rs \<notin> rs_key ` set rss"
    and "0 \<le> c" and "c \<le> rs_size rs" and "0 \<le> b"
  shows "drained (b + c) (rs # rss) r' (g1 @ g2)"
proof -
  have sh: "shrinks (\<lambda>_. 0) rss g2" and "taken rss g2 \<le> b" using assms(2,6) by (auto simp: drained_def)
  then show ?thesis
    using assms(4-6) taken_set_to [OF assms(1) sh assms(3)]
      shrinks_Cons [OF set_to_rescales [OF assms(1)] sh assms(3)] by (simp add: drained_def)
qed

lemma drained_failed:
  assumes "rescales rs (rs_size rs - c) g" and "shape (rs # rss)" and "0 \<le> c" and "c \<le> rs_size rs" and "c \<le> b"
  shows "drained b (rs # rss) r g"
proof -
  have key: "rs_key rs \<notin> rs_key ` set rss" and sh: "shape rss" using assms(2) by (auto simp: shape_Cons)
  have none: "shrinks (\<lambda>_. 0) rss []" using sh by (auto simp: shape_def rs_size_def intro!: shrinks_Nil)
  have "sizeAfter x g = rs_size x" if "x \<in> set rss" for x
  proof -
    have "rs_key x \<noteq> rs_key rs" using that key by (auto simp: image_iff)
    with assms(1) show ?thesis unfolding rescales_def sizeAfter_def by blast
  qed
  then have "taken rss g = 0" by (simp add: taken_def cong: map_cong)
  moreover have "sizeAfter rs g \<in> {rs_size rs, rs_size rs - c}"
    using assms(1) unfolding rescales_def sizeAfter_def by blast
  ultimately have "taken (rs # rss) g \<le> b" using assms(3,5) by (auto simp: taken_def)
  with shrinks_Cons [OF assms(1) none key] assms(3,4,5) show ?thesis by (simp add: drained_def)
qed

lemma runs_at_drain:
  assumes "update_echoes V" and "shape rss" and "0 \<le> tot" and "in_i32 b"
  shows "runs_at (scaleDownOld_from L V d b tot rss) [] s (drained (b - tot) rss)"
  using assms(2,3)
proof (induction rss arbitrary: tot s)
  case Nil
  then show ?case by (auto intro!: runs_at_returnE drained_Nil)
next
  case (Cons rs rss)
  obtain n where n: "rs_Replicas rs = Some n" "0 \<le> n" "in_i32 n"
    and key: "rs_key rs \<notin> rs_key ` set rss" and sh: "shape rss"
    using Cons.prems(1) by (auto simp: shape_Cons)
  have sz: "rs_size rs = n" using n by (simp add: rs_size_def)
  show ?case
  proof (cases "b \<le> tot \<or> n = 0")
    case True
    have "runs_at (scaleDownOld_from L V d b tot rss) [] s (drained (b - tot) (rs # rss))" for s
      by (rule runs_at_mono [OF Cons.IH [OF sh Cons.prems(2)]]) (use key n sz in \<open>auto intro: drained_skip\<close>)
    with True show ?thesis
      using drained_Nil [OF Cons.prems(1)] by (auto simp: n(1) bind_lift intro!: runs_at_returnE)
  next
    case False
    define c where "c = min n (wrap32 (b - tot))"
    have w: "wrap32 (b - tot) = b - tot" using False Cons.prems(2) assms(4) by (auto simp: in_i32_def intro!: wrap32_id)
    then have c: "0 < c" "c \<le> n" "c \<le> b - tot" using False n unfolding c_def by auto
    then have eqs: "wrap32 (n - c) = n - c" "wrap32 (tot + c) = tot + c"
      using n assms(4) Cons.prems(2) by (auto simp: in_i32_def intro!: wrap32_id)
    have rest: "runs_at (scaleDownOld_from L V d b (tot + c) rss) g1 s' (drained (b - tot) (rs # rss))"
      if "set_to rs (n - c) g1" for g1 s'
      by (rule runs_at_suffix [OF Cons.IH [OF sh, of "tot + c"]])
        (use drained_Cons [of rs c g1 "b - (tot + c)" rss] that key sz c Cons.prems(2) in auto)
    have "runs_at (scaleReplicaSetAndRecordEvent L V rs (n - c) d) [] s' (\<lambda>r h. case r of
        Inl e \<Rightarrow> drained (b - tot) (rs # rss) (Inl e) h
      | Inr x \<Rightarrow> (\<forall>s'. runs_at (scaleDownOld_from L V d b (tot + c) rss) h s' (drained (b - tot) (rs # rss))))" for s'
      by (rule runs_at_mono [OF runs_at_scale_sized [OF assms(1) n(1)]])
        (use c drained_failed [OF _ Cons.prems(1), of c _ "b - tot"] sz in \<open>auto split: sum.splits intro!: rest\<close>)
    with c False show ?thesis
      unfolding scaleDownOld_from.simps Let_def n(1) deref_simps bind_lift c_def [symmetric] eqs
      by (auto intro!: runs_at_bindE)
  qed
qed

text \<open>
  The pods that stay available: of the available pods of a ReplicaSet as many survive as the new size allows, since
  the ReplicaSet controller removes unhealthy pods first.
\<close>

definition staying :: "replicaSet list \<Rightarrow> (request \<times> bool) list \<Rightarrow> int" where
  "staying rss g = (\<Sum>rs \<leftarrow> rss. min (rs_AvailableReplicas rs) (sizeAfter rs g))"

abbreviation available :: "replicaSet list \<Rightarrow> int" where
  "available rss \<equiv> sum_list (map rs_AvailableReplicas rss)"

lemma staying_cleaned: "shrinks rs_AvailableReplicas rss g \<Longrightarrow> staying rss g = available rss"
  unfolding staying_def shrinks_def by (intro arg_cong [where f = sum_list] map_cong) auto

lemma staying_drained:
  assumes "shrinks rs_AvailableReplicas rss g1" and "leaves rss l g1" and "shrinks lo l g2"
  shows "available rss - taken l g2 \<le> staying rss (g1 @ g2)" and "available l = available rss"
proof -
  note assms(2) [unfolded leaves_def]
  moreover have "\<forall>rs \<in> set rss. rs_AvailableReplicas rs \<le> sizeAfter rs g1" using assms(1) by (auto simp: shrinks_def)
  moreover have "\<forall>x \<in> set l. sizeAfter x g2 \<le> rs_size x" using assms(3) by (auto simp: shrinks_def)
  ultimately have "available rss - taken l g2 \<le> staying rss (g1 @ g2) \<and> available l = available rss"
    unfolding taken_def staying_def
  proof (induction rss l rule: list_all2_induct)
    case (Cons rs rss x l)
    have "rs_size x = sizeAfter rs g1" "rs_key x = rs_key rs" "rs_AvailableReplicas x = rs_AvailableReplicas rs"
      using Cons.hyps(1) by (auto simp: same_but_size_def rs_size_def)
    with Cons.IH Cons.prems sizeAfter_append [of x rs g1 g2] show ?case by auto
  qed simp
  then show "available rss - taken l g2 \<le> staying rss (g1 @ g2)" "available l = available rss" by simp_all
qed

lemma leaves_members:
  assumes "leaves rss l g"
  shows "x \<in> set l \<Longrightarrow> \<exists>rs \<in> set rss. same_but_size rs (sizeAfter rs g) x"
    and "rs \<in> set rss \<Longrightarrow> \<exists>x \<in> set l. same_but_size rs (sizeAfter rs g) x"
  using assms unfolding leaves_def by (induction rss l rule: list_all2_induct) auto

lemma leaves_shape:
  assumes "shape rss" and "shrinks rs_AvailableReplicas rss g" and "leaves rss l g"
  shows "shape l"
proof -
  have "map rs_key l = map rs_key rss"
    using assms(3) unfolding leaves_def by (induction rule: list_all2_induct) (auto simp: same_but_size_def)
  moreover have "\<exists>n. rs_Replicas x = Some n \<and> 0 \<le> rs_AvailableReplicas x \<and> rs_AvailableReplicas x \<le> n \<and> in_i32 n"
    if "x \<in> set l" for x
  proof -
    obtain rs where rs: "rs \<in> set rss" "same_but_size rs (sizeAfter rs g) x"
      using leaves_members(1) [OF assms(3) \<open>x \<in> set l\<close>] by blast
    obtain n where "rs_Replicas rs = Some n" "0 \<le> rs_AvailableReplicas rs" "in_i32 n"
      using assms(1) rs(1) unfolding shape_def by blast
    moreover have "rs_AvailableReplicas rs \<le> sizeAfter rs g" "sizeAfter rs g \<le> rs_size rs"
      using assms(2) rs(1) unfolding shrinks_def by blast+
    ultimately show ?thesis
      using rs(2) by (auto simp: same_but_size_def rs_size_def in_i32_def)
  qed
  ultimately show ?thesis using assms(1) unfolding shape_def by simp
qed

lemma shape_Sort [simp]: "shape (Sort lt rss) \<longleftrightarrow> shape rss"
proof -
  have "mset (map rs_key (Sort lt rss)) = mset (map rs_key rss)" by simp
  from mset_eq_imp_distinct_iff [OF this] show ?thesis by (simp add: shape_def)
qed

lemma sum_Sort: "sum_list (map f (Sort lt rss)) = (sum_list (map f rss) :: int)"
  by (metis mset_Sort mset_map sum_mset_sum_list)

lemma staying_Sort [simp]: "staying (Sort lt rss) g = staying rss g" "taken (Sort lt rss) g = taken rss g"
  by (simp_all add: staying_def taken_def sum_Sort)

lemma shrinks_Sort [simp]: "shrinks lo (Sort lt rss) g \<longleftrightarrow> shrinks lo rss g"
  by (simp add: shrinks_def)

lemma MaxUnavailable_le: "MaxUnavailable L d = Inr mu \<Longrightarrow> dep_Replicas d = Some n \<Longrightarrow> 0 \<le> n \<Longrightarrow> mu \<le> n"
  by (auto simp: MaxUnavailable_def bindR_eq_Inr split: if_splits)

text \<open>What the two loops keep together.\<close>

definition keeps_available :: "replicaSet list \<Rightarrow> replicaSet \<Rightarrow> int \<Rightarrow> (request \<times> bool) list \<Rightarrow> bool" where
  "keeps_available oldRSs newRS least g \<longleftrightarrow>
     (\<forall>rs \<in> set oldRSs. 0 \<le> sizeAfter rs g \<and> sizeAfter rs g \<le> rs_size rs)
     \<and> min (available oldRSs + rs_AvailableReplicas newRS) least \<le> staying oldRSs g + rs_AvailableReplicas newRS"

lemma keeps_available_cleaned:
  assumes "shape oldRSs" and "shrinks rs_AvailableReplicas oldRSs g"
  shows "keeps_available oldRSs newRS least g"
  using assms staying_cleaned [OF assms(2)] unfolding keeps_available_def shape_def shrinks_def by fastforce

lemma keeps_available_drained:
  assumes "shape oldRSs" and g1: "shrinks rs_AvailableReplicas oldRSs g1" and l: "leaves oldRSs l g1"
    and g2: "drained (available l + rs_AvailableReplicas newRS - least) l r g2"
  shows "keeps_available oldRSs newRS least (g1 @ g2)"
proof -
  have sh: "shrinks (\<lambda>_. 0) l g2" using g2 by (simp add: drained_def)
  have "0 \<le> sizeAfter rs (g1 @ g2) \<and> sizeAfter rs (g1 @ g2) \<le> rs_size rs" if "rs \<in> set oldRSs" for rs
  proof -
    obtain x where x: "x \<in> set l" "same_but_size rs (sizeAfter rs g1) x"
      using leaves_members(2) [OF l \<open>rs \<in> set oldRSs\<close>] by blast
    then have "sizeAfter rs (g1 @ g2) = sizeAfter x g2" "rs_size x = sizeAfter rs g1"
      using sizeAfter_append [of x rs g1 g2] by (auto simp: same_but_size_def rs_size_def)
    moreover have "0 \<le> sizeAfter x g2" "sizeAfter x g2 \<le> rs_size x" "sizeAfter rs g1 \<le> rs_size rs"
      using sh g1 x(1) that unfolding shrinks_def by blast+
    ultimately show ?thesis by simp
  qed
  moreover have "min (available oldRSs + rs_AvailableReplicas newRS) least
      \<le> staying oldRSs (g1 @ g2) + rs_AvailableReplicas newRS"
    using staying_drained [OF g1 l sh] g2 unfolding drained_def by linarith
  ultimately show ?thesis unfolding keeps_available_def by blast
qed

lemma keeps_available_Sort: "keeps_available (Sort lt rss) newRS least g \<longleftrightarrow> keeps_available rss newRS least g"
  by (simp add: keeps_available_def sum_Sort)

lemma GetAvailable_exact:
  "in_i32 (available rss + rs_AvailableReplicas rs) \<Longrightarrow>
   GetAvailableReplicaCountForReplicaSets (map Some rss @ [Some rs]) = available rss + rs_AvailableReplicas rs"
  by (simp add: GetAvailableReplicaCountForReplicaSets_def sum32_exact)

lemma runs_at_scaleDownRolling:
  assumes "update_echoes V" and "shape l" and "MaxUnavailable L d = Inr mu" and "dep_Replicas d = Some n"
    and "0 \<le> mu" and "0 \<le> n" and "in_i32 n" and "in_i32 (available l + rs_AvailableReplicas newRS)"
  shows "runs_at (scaleDownOldReplicaSetsForRollingUpdate L V (map Some l @ [Some newRS]) l d) [] s
     (drained (available l + rs_AvailableReplicas newRS - (n - mu)) l)"
proof -
  define avail where "avail = available l + rs_AvailableReplicas newRS"
  have mu: "mu \<le> n" by (rule MaxUnavailable_le [OF assms(3,4,6)])
  have w: "wrap32 (n - mu) = n - mu" using mu assms by (auto simp: in_i32_def intro!: wrap32_id)
  have b: "wrap32 (avail - (n - mu)) = avail - (n - mu)" if "\<not> avail \<le> n - mu"
    using that mu assms(5,8) unfolding avail_def by (auto simp: in_i32_def intro!: wrap32_id)
  have "runs_at (scaleDownOld_from L V d (avail - (n - mu)) 0 (Sort ReplicaSetsByCreationTimestamp l)) [] s
      (drained (avail - (n - mu)) l)" if "\<not> avail \<le> n - mu" for s
    by (rule runs_at_mono [OF runs_at_drain [OF assms(1)]])
      (use assms(2) b [OF that] in \<open>auto simp: drained_def, metis wrap32_range\<close>)
  with drained_Nil [OF assms(2)] b show ?thesis
    unfolding scaleDownOldReplicaSetsForRollingUpdate_def Let_def assms(3,4) deref_simps bind_lift w
      GetAvailable_exact [OF assms(8)] avail_def [symmetric]
    by (auto intro!: runs_at_returnE)
qed


definition oldSets0 :: "replicaSet list" where
  "oldSets0 = [(rs0 ''v1'' 8)\<lparr>rs_AvailableReplicas := 7\<rparr>, (rs0 ''v2'' 4)\<lparr>rs_AvailableReplicas := 4\<rparr>]"

definition newSet0 :: replicaSet where
  "newSet0 = (rs0 ''v3'' 2)\<lparr>rs_AvailableReplicas := 2\<rparr>"

lemma env0_echoes: "update_echoes env0"
  by (simp add: update_echoes_def env0_def returnE_def)


section \<open>Recreate\<close>

definition statusOrQueue :: "deployment \<Rightarrow> request \<Rightarrow> bool" where
  "statusOrQueue d q = (case q of
     UpdateDeploymentStatus ns d' \<Rightarrow> ns = dep_Namespace d \<and> d'\<lparr>dep_Status := dep_Status d\<rparr> = d
   | QueueAddRateLimited k \<Rightarrow> True | QueueAddAfter k w \<Rightarrow> True | _ \<Rightarrow> False)"

lemma emits_syncRolloutStatus: "emits (statusOrQueue d) (syncRolloutStatus L V allRSs newRS d)"
  unfolding syncRolloutStatus_def rolloutStatus_def estimateProgress_def requeueStuckDeployment_def
    enqueueRateLimited_def enqueueAfter_def Let_def call_defs
  by (intro emits_intros) (auto simp: statusOrQueue_def intro!: emits_intros split: option.splits)

lemma getAll_absent:
  assumes "FindNewReplicaSet L d rsList = None" and "FindOldReplicaSets L d rsList = Inr (required, oldRSs)"
  shows "getAllReplicaSetsAndSyncRevision L V d rsList False = returnE (None, oldRSs, d)"
  by (simp add: getAllReplicaSetsAndSyncRevision_def getNewReplicaSet_def assms bind_lift bind_return Let_def)

lemma runs_at_scaled_flag:
  assumes "rs_Replicas rs = Some m" and "m \<noteq> n"
  shows "runs_at (scaleReplicaSetAndRecordEvent L V rs n d) h0 s (\<lambda>r h. \<forall>b rs'. r = Inr (b, rs') \<longrightarrow> b)"
  unfolding scaleReplicaSetAndRecordEvent_def scaleReplicaSet_def assms(1) deref_simps bind_lift Let_def call_defs
  using assms(2) by (intro runs_intros impI) (auto split: sum.split intro!: runs_intros)

lemma runs_at_scaleDownRecreate:
  "runs_at (scaleDownRecreate_from L V d scaled rss) h0 s (\<lambda>r h. \<forall>b. r = Inr b \<longrightarrow>
     scaled \<or> (\<exists>rs \<in> set rss. rs_Replicas rs \<noteq> Some 0) \<longrightarrow> b)"
proof (induction rss arbitrary: scaled h0 s)
  case (Cons rs rss)
  show ?case
  proof (cases "rs_Replicas rs")
    case (Some n)
    show ?thesis
    proof (cases "n = 0")
      case True
      with Some Cons.IH show ?thesis by (simp add: bind_lift)
    next
      case False
      show ?thesis
        unfolding scaleDownRecreate_from.simps Some deref_simps bind_lift using False
        by (simp, intro runs_at_bindE, intro runs_at_mono [OF runs_at_scaled_flag [OF Some False]])
          (auto split: sum.split intro!: runs_at_mono [OF Cons.IH])
    qed
  qed (auto simp: bind_lift intro!: runs_at_failE)
qed (auto intro!: runs_at_returnE)

lemma emits_scaleDownRecreate:
  "emits (\<lambda>q. \<exists>rs \<in> set rss. scales rs 0 q) (scaleDownRecreate_from L V d scaled rss)"
proof (induction rss arbitrary: scaled)
  case (Cons rs rss)
  have "emits (\<lambda>q. \<exists>rs \<in> set (rs # rss). scales rs 0 q) (scaleDownRecreate_from L V d b rss)" for b
    by (rule emits_mono [OF Cons.IH]) auto
  moreover have "emits (\<lambda>q. \<exists>rs \<in> set (rs # rss). scales rs 0 q) (scaleReplicaSetAndRecordEvent L V rs 0 d)"
    by (rule emits_mono [OF emits_scaleReplicaSetAndRecordEvent]) auto
  ultimately show ?case
    unfolding scaleDownRecreate_from.simps by (intro emits_intros)
qed (simp add: emits_returnE)

definition creates :: "(request \<times> bool) list \<Rightarrow> bool" where
  "creates h \<longleftrightarrow> (\<exists>ns rs ok. (CreateReplicaSet ns rs, ok) \<in> set h)"

lemma creates_append: "creates h \<Longrightarrow> creates (h @ g)" "creates (h @ [(CreateReplicaSet ns rs, ok)])"
  by (auto simp: creates_def)

lemma runs_at_createNewRS: "runs_at (createNewRS L V d oldRSs revision) h0 s (\<lambda>r h. \<not> isl r \<longrightarrow> creates h)"
proof -
  have call: "runs_at (tryE (createReplicaSet V ns rs)) h s' (\<lambda>r h. \<not> isl r \<longrightarrow> creates h)" for ns rs h s'
    unfolding createReplicaSet_def by (intro runs_intros) (simp_all add: creates_append)
  have rest: "emits (\<lambda>_. True) (case r of
         Inr createdRS \<Rightarrow> finishCreate V d createdRS False n revision
       | Inl err \<Rightarrow>
          (if IsAlreadyExists err then createConflict L V d newRS err n revision
           else if ''NamespaceTerminating'' \<in> set (error_causes err) then failE err
           else createFailed V d newRS err))" for r n newRS
    unfolding finishCreate_def createConflict_def createFailed_def Let_def call_defs
    by (intro emits_intros TrueI)
  show ?thesis
    unfolding createNewRS_def
    by (intro runs_at_bindE runs_at_liftE)
      (auto split: sum.split prod.split intro!: runs_at_bindE runs_at_liftE runs_at_bind_keep [OF call rest] creates_append)
qed

lemma emits_any:
  "emits (\<lambda>_. True) (syncRolloutStatus L V allRSs newRS d)"
  "emits (\<lambda>_. True) (cleanupDeployment V oldRSs d)"
  "emits (\<lambda>_. True) (scaleUpNewReplicaSetForRecreate L V new d)"
  by (auto simp: cleanupDeployment_def cleanupOne_def scaleUpNewReplicaSetForRecreate_def Let_def call_defs
      intro!: emits_intros emits_mono [OF emits_syncRolloutStatus] emits_mono [OF emits_scaleReplicaSetAndRecordEvent])


definition pods0 :: "(string \<times> pod list) list" where
  "pods0 = [(''uid-v1'', [\<lparr>pod_Meta = meta0 ''web-1'' ''uid-p'', pod_Phase = ''Running''\<rparr>])]"


section \<open>Rollback\<close>

text \<open>The synchronisation of revisions changes the status and annotations of its Deployment, and not the request to roll back.\<close>

definition same_spec :: "deployment \<Rightarrow> deployment \<Rightarrow> bool" where
  "same_spec d d' \<longleftrightarrow> dep_set_Annotations None (d'\<lparr>dep_Status := dep_Status d\<rparr>) = dep_set_Annotations None d
     \<and> getRollbackTo d' = getRollbackTo d"

lemma same_spec_refl: "same_spec d d"
  by (simp add: same_spec_def)

lemma dep_set_Annotations_simps [simp]:
  "dep_Annotations (dep_set_Annotations a d) = a"
  "dep_set_Annotations b (dep_set_Annotations a d) = dep_set_Annotations b d"
  "dep_Status (dep_set_Annotations a d) = dep_Status d"
  "dep_Template (dep_set_Annotations a d) = dep_Template d"
  "(dep_set_Annotations a d)\<lparr>dep_Status := st\<rparr> = dep_set_Annotations a (d\<lparr>dep_Status := st\<rparr>)"
  "(dep_set_Annotations a d)\<lparr>dep_Template := t\<rparr> = dep_set_Annotations a (d\<lparr>dep_Template := t\<rparr>)"
  by (simp_all add: dep_set_Annotations_def)

lemma same_spec_revision: "same_spec d (snd (SetDeploymentRevision d r))"
  by (simp add: same_spec_def SetDeploymentRevision_def Let_def getRollbackTo_def)

lemma same_spec_progressing: "same_spec d d' \<Longrightarrow> same_spec d (setProgressing now st reason msg d')"
  by (simp add: same_spec_def setProgressing_def getRollbackTo_def)

lemma same_spec_template: "same_spec d d' \<Longrightarrow> dep_Template d' = dep_Template d \<and> dep_Namespace d' = dep_Namespace d"
  unfolding same_spec_def dep_set_Annotations_def
  by (cases d; cases d'; cases "dep_Meta d"; cases "dep_Meta d'"; simp)

lemma returns_finishCreate: "returns (\<lambda>(rs, d'). same_spec d d') (finishCreate V d rs exists n revision)"
proof -
  have "returns (\<lambda>(rs, d'). same_spec d d') (finishCreate V d rs exists n revision)"
    if "SetDeploymentRevision d revision = (b, d1)" for b d1
  proof -
    have "same_spec d d1" using same_spec_revision [of d revision] that by simp
    then have prog: "returns (same_spec d) (if c then bindE (timeNow V) (\<lambda>now. returnE (setProgressing now st reason msg d1))
        else returnE d1)" for c st reason msg
      by (auto intro!: returns_intros same_spec_progressing)
    show ?thesis
      unfolding finishCreate_def Let_def that prod.case
      by (rule returns_bind_any, rule returns_bindE [OF prog]) (auto intro!: returns_intros)
  qed
  then show ?thesis by (metis prod.exhaust)
qed

lemma returns_syncExistingRS: "returns (\<lambda>(rs, d'). same_spec d d') (syncExistingRS L V d rs revision)"
proof -
  have step: "returns (\<lambda>(rs, d'). same_spec d d') (let (needsUpdate, d1) = SetDeploymentRevision d rev1;
           estimate = (HasProgressDeadline d1 \<and>
             GetDeploymentCondition (dep_Status d1) DeploymentProgressingType = None)
       in bindE (if estimate then
                   bindE (timeNow V) (\<lambda>now. returnE (setProgressing now ''True'' ''FoundNewReplicaSet''
                     (sprintf ''Found new replica set %q'' [rs_Name x]) d1))
                 else returnE d1) (\<lambda>d2.
          if needsUpdate \<or> estimate then
            bindE (updateDeploymentStatus V (dep_Namespace d2) d2) (\<lambda>_. returnE (x, d2))
          else returnE (x, d2)))" for rev1 x
  proof -
    obtain b d1 where eq: "SetDeploymentRevision d rev1 = (b, d1)" by fastforce
    then have "same_spec d d1" using same_spec_revision [of d rev1] by simp
    then have prog: "returns (same_spec d) (if c then bindE (timeNow V) (\<lambda>now. returnE (setProgressing now st reason msg d1))
        else returnE d1)" for c st reason msg
      by (auto intro!: returns_intros same_spec_progressing)
    show ?thesis
      unfolding eq Let_def prod.case by (rule returns_bindE [OF prog]) (auto intro!: returns_intros)
  qed
  show ?thesis
    unfolding syncExistingRS_def
    by (intro returns_bind_any returns_prod returns_if step) (auto intro!: returns_intros same_spec_refl)
qed

lemma returns_createNewRS: "returns (\<lambda>(rs, d'). same_spec d d') (createNewRS L V d oldRSs revision)"
  unfolding createNewRS_def createConflict_def createFailed_def Let_def
  by (intro returns_intros returns_finishCreate)

lemma returns_getAll:
  "returns (\<lambda>(newRS, old, d'). same_spec d d' \<and> (\<exists>req. FindOldReplicaSets L d rsList = Inr (req, old)))
     (getAllReplicaSetsAndSyncRevision L V d rsList create)"
proof -
  have new: "returns (\<lambda>(rs, d'). same_spec d d') (getNewReplicaSet L V d rsList old create)" for old
    unfolding getNewReplicaSet_def Let_def
    by (intro returns_option returns_if returns_returnE returns_bindE [OF returns_syncExistingRS]
        returns_bindE [OF returns_createNewRS]) (auto intro!: returns_intros same_spec_refl)
  show ?thesis
    unfolding getAllReplicaSetsAndSyncRevision_def
    by (rule returns_bindE [OF returns_liftE], assumption)
      (auto intro!: returns_intros returns_bindE [OF new])
qed

abbreviation noDeploymentUpdate :: "request \<Rightarrow> bool" where
  "noDeploymentUpdate q \<equiv> \<forall>ns d. q \<noteq> UpdateDeployment ns d"

lemma emits_getAll: "emits noDeploymentUpdate (getAllReplicaSetsAndSyncRevision L V d rsList create)"
  unfolding getAllReplicaSetsAndSyncRevision_def getNewReplicaSet_def syncExistingRS_def createNewRS_def
    finishCreate_def createConflict_def createFailed_def Let_def call_defs
  by (intro emits_intros) simp_all

lemma getRollbackTo_set:
  "in_i64 v \<Longrightarrow> getRollbackTo (setRollbackTo d (Some v)) = Some v" "getRollbackTo (setRollbackTo d None) = None"
proof -
  show "getRollbackTo (setRollbackTo d None) = None"
    by (cases "dep_Annotations d") (simp_all add: getRollbackTo_def setRollbackTo_def Let_def, simp add: smap_get_def)
  assume "in_i64 v"
  then have "ParseInt64 (FormatInt v) = Some v" by (rule parse_format)
  moreover from this have "FormatInt v \<noteq> []" by (auto simp: ParseInt64_def)
  ultimately show "getRollbackTo (setRollbackTo d (Some v)) = Some v"
    by (simp add: getRollbackTo_def setRollbackTo_def Let_def)
qed

definition rolledBack :: "lib \<Rightarrow> deployment \<Rightarrow> replicaSet \<Rightarrow> deployment \<Rightarrow> bool" where
  "rolledBack L d rs d' \<longleftrightarrow> EqualIgnoreHash L (rs_Template rs) (dep_Template d') \<and> getRollbackTo d' = None
     \<and> dep_set_Annotations None (d'\<lparr>dep_Template := dep_Template d, dep_Status := dep_Status d\<rparr>) = dep_set_Annotations None d"

lemma rolledBack_target:
  assumes "semantic_equal_spec (lib_SemanticDeepEqual L)" and "same_spec d d1"
  shows "rolledBack L d rs (setRollbackTo (SetDeploymentAnnotationsTo (SetFromReplicaSetTemplate d1 (rs_Template rs)) rs) None)"
proof -
  let ?t = "dep_Template (SetFromReplicaSetTemplate d1 (rs_Template rs))"
  have "template_same ((rs_Template rs)\<lparr>pt_Labels := smap_del DefaultDeploymentUniqueLabelKey (pt_Labels (rs_Template rs))\<rparr>)
      (?t\<lparr>pt_Labels := smap_del DefaultDeploymentUniqueLabelKey (pt_Labels ?t)\<rparr>)"
    by (simp add: template_same_def SetFromReplicaSetTemplate_def CloneAndRemoveLabel_def smap_eq_iff smap_del_def delete_conv')
  then have "EqualIgnoreHash L (rs_Template rs) ?t"
    using assms(1) unfolding semantic_equal_spec_def EqualIgnoreHash_def by blast
  then show ?thesis
    using same_spec_template [OF assms(2)] assms(2)
    by (simp add: rolledBack_def setRollbackTo_def SetDeploymentAnnotationsTo_def SetFromReplicaSetTemplate_def
        same_spec_def getRollbackTo_def) (metis deployment.surjective deployment.update_convs(4))
qed

definition onlyRolledBack :: "lib \<Rightarrow> deployment \<Rightarrow> replicaSet \<Rightarrow> (request \<times> bool) list \<Rightarrow> bool" where
  "onlyRolledBack L d rs h \<longleftrightarrow> (\<forall>(q, ok) \<in> set h. \<forall>ns d'. q = UpdateDeployment ns d' \<longrightarrow> rolledBack L d rs d')"

definition deploymentUpdated :: "(request \<times> bool) list \<Rightarrow> bool" where
  "deploymentUpdated h \<longleftrightarrow> (\<exists>ns d'. (UpdateDeployment ns d', True) \<in> set h)"

lemma onlyRolledBack_intros:
  "list_all (\<lambda>(q, ok). noDeploymentUpdate q) h \<Longrightarrow> onlyRolledBack L d rs h"
  "onlyRolledBack L d rs h \<Longrightarrow> rolledBack L d rs d' \<Longrightarrow> onlyRolledBack L d rs (h @ [(UpdateDeployment ns d', ok)])"
  "onlyRolledBack L d rs h \<Longrightarrow> onlyRolledBack L d rs (h @ [(Event a b c, ok)])"
  by (auto simp: onlyRolledBack_def list_all_iff)

lemma deploymentUpdated_intros:
  "deploymentUpdated (h @ [(UpdateDeployment ns d', True)])" "deploymentUpdated h \<Longrightarrow> deploymentUpdated (h @ g)"
  by (auto simp: deploymentUpdated_def)

text \<open>
  C35. A rollback restores the requested revision: if exactly one old ReplicaSet has it and its template differs
  from the Deployment's, every update of the Deployment that is sent has that ReplicaSet's template (so the next
  sync takes it for the new one), clears the request to roll back and changes nothing else of the spec; a rollback
  that returns has had its update accepted.
\<close>

theorem rollback_restores:
  assumes "semantic_equal_spec (lib_SemanticDeepEqual L)"
    and "getRollbackTo d = Some v" and "v \<noteq> 0" and "FindOldReplicaSets L d rsList = Inr (required, oldRSs)"
    and "rs \<in> set oldRSs" and "Revision rs = Some v" and "\<forall>x \<in> set oldRSs. Revision x = Some v \<longrightarrow> x = rs"
    and "\<not> EqualIgnoreHash L (dep_Template d) (rs_Template rs)"
    and "rollback L V d rsList s = (r, s')"
  shows "onlyRolledBack L d rs (new_requests s s') \<and> (r = Inr () \<longrightarrow> deploymentUpdated (new_requests s s'))"
proof -
  let ?Q = "\<lambda>r h. onlyRolledBack L d rs h \<and> (r = Inr () \<longrightarrow> deploymentUpdated h)"
  have found: "find (\<lambda>x. Revision x = Some v) (oldRSs @ [n]) = Some rs" for n
  proof -
    have "find (\<lambda>x. Revision x = Some v) oldRSs = Some rs"
      using assms(5,6,7) by (metis (mono_tags, lifting) find_None_iff find_Some_iff nth_mem option.exhaust)
    then show ?thesis by (induction oldRSs) (auto split: if_splits)
  qed
  have upd: "runs_at (bindE (rollbackToTemplate L V d1 rs) (\<lambda>performedRollback.
      if performedRollback then emitRollbackNormalEvent msg else returnE ())) h s ?Q"
    if "same_spec d d1" "list_all (\<lambda>(q, ok). noDeploymentUpdate q) h" for d1 h s msg
    unfolding rollbackToTemplate_def updateDeploymentAndClearRollbackTo_def emitRollbackNormalEvent_def call_defs
    using assms(8) rolledBack_target [OF assms(1) that(1)] onlyRolledBack_intros(1) [OF that(2)]
    by (simp add: same_spec_template [OF that(1)], intro runs_intros)
      (auto split: sum.split intro!: runs_intros onlyRolledBack_intros(2,3) deploymentUpdated_intros)
  have "runs_at (rollback L V d rsList) [] s ?Q"
    unfolding rollback_def
  proof (rule runs_at_bindE, rule runs_at_mono [OF runs_at_emits_returns [OF emits_getAll returns_getAll]], goal_cases)
    case (1 r h)
    show ?case
    proof (cases r)
      case (Inl e)
      with 1 show ?thesis by (auto intro: onlyRolledBack_intros(1))
    next
      case (Inr x)
      obtain newRS old d1 where x: "x = (newRS, old, d1)" by (metis prod.exhaust)
      with 1 Inr assms(4) have d1: "same_spec d d1" "old = oldRSs" "list_all (\<lambda>(q, ok). noDeploymentUpdate q) h"
        by auto
      have to: "getRollbackTo d1 = Some v" using d1(1) assms(2) by (simp add: same_spec_def)
      show ?thesis
        unfolding Inr x sum.case prod.case d1(2) Let_def to deref_simps bind_lift
        using assms(3) upd [OF d1(1,3)] onlyRolledBack_intros(1) [OF d1(3)]
        by (cases newRS) (auto simp: bind_lift found intro!: runs_at_failE)
    qed
  qed
  from runs_atD [OF this assms(9)] show ?thesis by simp
qed

definition revisionOne0 :: replicaSet where
  "revisionOne0 = rs_set_Annotations (Some [(RevisionAnnotation, ''1'')]) (rs0 ''v1'' 3)"

definition rollbackDep0 :: deployment where
  "rollbackDep0 = setRollbackTo selectorDep0 (Some 1)"

theorem rollback_restores_witness:
  "onlyRolledBack ref_lib rollbackDep0 revisionOne0
     (new_requests world0 (snd (rollback ref_lib env0 rollbackDep0 [revisionOne0] world0)))"
proof -
  have spec: "semantic_equal_spec (lib_SemanticDeepEqual ref_lib)"
    by (simp add: ref_lib_def template_same_spec)
  have to: "getRollbackTo rollbackDep0 = Some 1"
    by (simp add: rollbackDep0_def getRollbackTo_set in_i64_def)
  have old: "FindOldReplicaSets ref_lib rollbackDep0 [revisionOne0] = Inr ([revisionOne0], [revisionOne0])"
    and new: "Revision revisionOne0 = Some 1"
    and differ: "\<not> EqualIgnoreHash ref_lib (dep_Template rollbackDep0) (rs_Template revisionOne0)"
    by code_simp+
  show ?thesis
    using rollback_restores [OF spec to _ old, of revisionOne0 env0 world0, OF _ _ _ _ differ prod.collapse [symmetric]] new
    by simp
qed

section \<open>Progress\<close>

lemma DeploymentProgressing_same: "\<not> DeploymentProgressing d (dep_Status d)"
  by (simp add: DeploymentProgressing_def Let_def)

text \<open>
  C36. A stuck rollout is noticed: when its status has not changed and its deadline has not been reported,
  the Deployment is queued once, at once if less than a second is left and otherwise a second after the deadline;
  a check at that time counts as no progress and finds the deadline exceeded.
\<close>

theorem requeueStuckDeployment_notices:
  assumes "HasProgressDeadline d" and "dep_ProgressDeadlineSeconds d = Some deadline"
    and "GetDeploymentCondition (dep_Status d) DeploymentProgressingType = Some c"
    and "DeploymentComplete d (dep_Status d) = Inr False" and "dcond_Reason c \<noteq> TimedOutReason"
    and "lib_KeyFunc L (dep_Meta d) = Inr key" and "clock_Now V (srv s) = (now, v)"
    and "left = dcond_LastUpdateTime c + deadline * Second - now"
    and "- 9223372036854775808 \<le> left" and "left < 9223372035854775808"
  shows "\<exists>w s'. requeueStuckDeployment L V d (dep_Status d) s = (Inr w, s') \<and>
     (if left < Second then w = 0 \<and> new_requests s s' = [(QueueAddRateLimited key, True)]
      else w = left \<and> new_requests s s' = [(QueueAddAfter key (left + Second), True)]
        \<and> \<not> DeploymentProgressing d (dep_Status d)
        \<and> (dcond_Reason c \<noteq> NewRSAvailableReason \<longrightarrow> DeploymentTimedOut (now + (left + Second)) d (dep_Status d)))"
proof -
  have sub: "time_Sub (dcond_LastUpdateTime c + deadline * Second) now = left"
    using assms(8-10) by (simp add: time_Sub_def)
  have w: "wrap64 (left + Second) = left + Second" using assms(9,10) by (auto simp: in_i64_def intro!: wrap64_id)
  have out: "DeploymentTimedOut (now + (left + Second)) d (dep_Status d)" if "dcond_Reason c \<noteq> NewRSAvailableReason"
    using assms(1,2,3,8) that by (simp add: DeploymentTimedOut_def HasProgressDeadline_def)
  have run: "requeueStuckDeployment L V d (dep_Status d) s = (if left < Second
      then (Inr 0, s\<lparr>srv := v, hist := hist s @ [(QueueAddRateLimited key, True)]\<rparr>)
      else (Inr left, s\<lparr>srv := v, hist := hist s @ [(QueueAddAfter key (left + Second), True)]\<rparr>))"
    using assms(1,5)
    by (simp add: requeueStuckDeployment_def assms(2,3,4,6,7) bind_lift sub w Let_def enqueueRateLimited_def
        enqueueAfter_def timeNow_def silentE_def queueWrite_def callE_def bindE_def liftE_def returnE_def)
  show ?thesis
    using out DeploymentProgressing_same [of d] by (simp add: run new_requests_def)
qed

definition stuckDep0 :: deployment where
  "stuckDep0 = dep0\<lparr>dep_Status := empty_deploymentStatus\<lparr>ds_Conditions :=
     [NewDeploymentCondition 0 DeploymentProgressingType ''True'' ReplicaSetUpdatedReason []]\<rparr>\<rparr>"

theorem requeueStuckDeployment_notices_witness:
  "\<exists>w s'. requeueStuckDeployment ref_lib env0 stuckDep0 (dep_Status stuckDep0) world0 = (Inr w, s')
     \<and> w = 600 * Second \<and> DeploymentTimedOut (601 * Second) stuckDep0 (dep_Status stuckDep0)"
proof -
  let ?c = "NewDeploymentCondition 0 DeploymentProgressingType ''True'' ReplicaSetUpdatedReason []"
  have deadline: "HasProgressDeadline stuckDep0" "dep_ProgressDeadlineSeconds stuckDep0 = Some 600"
    and cond: "GetDeploymentCondition (dep_Status stuckDep0) DeploymentProgressingType = Some ?c"
    and busy: "DeploymentComplete stuckDep0 (dep_Status stuckDep0) = Inr False" "dcond_Reason ?c \<noteq> TimedOutReason"
    and key: "lib_KeyFunc ref_lib (dep_Meta stuckDep0) = Inr ''prod/web''"
    and clock: "clock_Now env0 (srv world0) = (0, ())"
    and reason: "dcond_Reason ?c \<noteq> NewRSAvailableReason" and last: "dcond_LastUpdateTime ?c = 0"
    by code_simp+
  show ?thesis
    using requeueStuckDeployment_notices [OF deadline cond busy key clock, of "600 * Second"] reason last by auto
qed

end
