(* ===== verification/Controller_Refs.thy ===== *)
theory Controller_Refs
  imports K8s_Controller
begin

text \<open>
  Adoption and release of ReplicaSets, \<open>pkg/internal/k8scontroller/controller_ref_manager.go\<close>. The receiver
  with its configuration is the record \<open>refManager\<close>; the two fields of it that change, the \<open>sync.Once\<close> and the
  remembered answer of the adoption check, are the state \<open>adoptState\<close> that the operations pass on.
\<close>

record 'w refManager =
  rm_Controller :: objectMeta
  rm_Selector :: selector
  rm_CanAdoptFunc :: "('w, unit) io option"
  rm_controllerKind :: "string \<times> string"
  rm_env :: "'w env"
  rm_lib :: lib

text \<open>\<open>None\<close>: the check has not run; \<open>Some e\<close>: it ran, \<open>e\<close> is its error if it had one.\<close>

type_synonym adoptState = "error option option"

definition NewReplicaSetControllerRefManager ::
    "lib \<Rightarrow> 'w env \<Rightarrow> objectMeta \<Rightarrow> selector \<Rightarrow> string \<times> string \<Rightarrow> ('w, unit) io \<Rightarrow> 'w refManager" where
  "NewReplicaSetControllerRefManager L V controller selector kind canAdopt = \<lparr>rm_Controller = controller, rm_Selector = selector,
     rm_CanAdoptFunc = Some canAdopt, rm_controllerKind = kind, rm_env = V, rm_lib = L\<rparr>"

definition failure :: "error + 'a \<Rightarrow> error option" where
  "failure r = (case r of Inl e \<Rightarrow> Some e | Inr _ \<Rightarrow> None)"

definition CanAdopt :: "'w refManager \<Rightarrow> adoptState \<Rightarrow> ('w, error option \<times> adoptState) io" where
  "CanAdopt m st = (case st of
     Some err \<Rightarrow> returnE (err, st)
   | None \<Rightarrow>
      (case rm_CanAdoptFunc m of
         None \<Rightarrow> returnE (None, Some None)
       | Some f \<Rightarrow> bindE (tryE f) (\<lambda>r. returnE (failure r, Some (failure r)))))"

text \<open>
  The claim of one object, with its matching, adoption and release passed in. The answer is the error of a failed
  reconciliation or whether the object is now owned.
\<close>

definition ClaimObject ::
    "'w refManager \<Rightarrow> objectMeta \<Rightarrow> (objectMeta \<Rightarrow> bool) \<Rightarrow> (adoptState \<Rightarrow> ('w, error option \<times> adoptState) io) \<Rightarrow>
     ('w, error option) io \<Rightarrow> adoptState \<Rightarrow> ('w, bool res \<times> adoptState) io" where
  "ClaimObject m obj match adopt release st =
     (case GetControllerOf obj of
        Some controllerRef \<Rightarrow>
          (if owner_UID controllerRef \<noteq> meta_UID (rm_Controller m) then returnE (Inr False, st)
           else if match obj then returnE (Inr True, st)
           else if meta_DeletionTimestamp (rm_Controller m) \<noteq> None then returnE (Inr False, st)
           else bindE release (\<lambda>err. case err of
               Some e \<Rightarrow> returnE (if IsNotFound e then Inr False else Inl e, st)
             | None \<Rightarrow> returnE (Inr False, st)))
      | None \<Rightarrow>
          (if meta_DeletionTimestamp (rm_Controller m) \<noteq> None \<or> \<not> match obj then returnE (Inr False, st)
           else if meta_DeletionTimestamp obj \<noteq> None then returnE (Inr False, st)
           else if meta_Namespace (rm_Controller m) \<noteq> [] \<and> meta_Namespace (rm_Controller m) \<noteq> meta_Namespace obj
           then returnE (Inr False, st)
           else bindE (adopt st) (\<lambda>(err, st'). case err of
               Some e \<Rightarrow> returnE (if IsNotFound e then Inr False else Inl e, st')
             | None \<Rightarrow> returnE (Inr True, st'))))"

definition ownerRefControllerPatch ::
    "objectMeta \<Rightarrow> string \<times> string \<Rightarrow> string \<Rightarrow> string list \<Rightarrow> ownerPatch" where
  "ownerRefControllerPatch controller kind uid finalizers = AddOwnerRef \<lparr>add_Metadata =
     \<lparr>omfp_OwnerReferences = [\<lparr>owner_APIVersion = fst kind, owner_Kind = snd kind,
        owner_Name = meta_Name controller, owner_UID = meta_UID controller,
        owner_Controller = Some True, owner_BlockOwnerDeletion = Some True\<rparr>],
      omfp_UID = uid, omfp_Finalizers = finalizers\<rparr>\<rparr>"

definition ownerReferencePatch :: "string \<Rightarrow> string \<Rightarrow> smap" where
  "ownerReferencePatch uid patchType = [(''$patch'', patchType), (''uid'', uid)]"

definition GenerateDeleteOwnerRefStrategicMergeBytes :: "string \<Rightarrow> string list \<Rightarrow> string list \<Rightarrow> ownerPatch" where
  "GenerateDeleteOwnerRefStrategicMergeBytes dependentUID ownerUIDs finalizers = DeleteOwnerRef \<lparr>del_Metadata =
     \<lparr>omfm_UID = dependentUID, omfm_OwnerReferences = map (\<lambda>uid. ownerReferencePatch uid ''delete'') ownerUIDs,
      omfm_DeleteFinalizers = finalizers\<rparr>\<rparr>"

definition adoptPatch :: "'w refManager \<Rightarrow> replicaSet \<Rightarrow> ownerPatch" where
  "adoptPatch m rs = ownerRefControllerPatch (rm_Controller m) (rm_controllerKind m) (rs_UID rs) []"

definition releasePatch :: "'w refManager \<Rightarrow> replicaSet \<Rightarrow> ownerPatch" where
  "releasePatch m rs = GenerateDeleteOwnerRefStrategicMergeBytes (rs_UID rs) [meta_UID (rm_Controller m)] []"

definition AdoptReplicaSet ::
    "'w refManager \<Rightarrow> replicaSet \<Rightarrow> adoptState \<Rightarrow> ('w, error option \<times> adoptState) io" where
  "AdoptReplicaSet m rs st =
     bindE (CanAdopt m st) (\<lambda>(err, st'). case err of
       Some e \<Rightarrow> returnE (Some (Errorf ''can't adopt ReplicaSet %v/%v (%v): %v''
           [meta_Namespace (rs_Meta rs), rs_Name rs, rs_UID rs, error_text e]), st')
     | None \<Rightarrow>
         bindE (tryE (patchReplicaSet (rm_env m) (meta_Namespace (rs_Meta rs)) (rs_Name rs) (adoptPatch m rs)))
           (\<lambda>r. returnE (failure r, st')))"

definition ReleaseReplicaSet :: "'w refManager \<Rightarrow> replicaSet \<Rightarrow> ('w, error option) io" where
  "ReleaseReplicaSet m rs =
     bindE (tryE (patchReplicaSet (rm_env m) (meta_Namespace (rs_Meta rs)) (rs_Name rs) (releasePatch m rs))) (\<lambda>r.
     returnE (case failure r of
       Some e \<Rightarrow> (if IsNotFound e \<or> IsInvalid e then None else Some e)
     | None \<Rightarrow> None))"

definition claims :: "'w refManager \<Rightarrow> objectMeta \<Rightarrow> bool" where
  "claims m obj = sel_Matches (rm_Selector m) (meta_Labels obj)"

fun claimAll ::
    "'w refManager \<Rightarrow> replicaSet list \<Rightarrow> error list \<Rightarrow> adoptState \<Rightarrow> replicaSet list \<Rightarrow>
     ('w, replicaSet list \<times> error list) io" where
  "claimAll m claimed errlist st [] = returnE (claimed, errlist)"
| "claimAll m claimed errlist st (rs # sets) =
     bindE (ClaimObject m (rs_Meta rs) (claims m) (AdoptReplicaSet m rs) (ReleaseReplicaSet m rs) st) (\<lambda>(r, st').
     case r of
       Inl err \<Rightarrow> claimAll m claimed (errlist @ [err]) st' sets
     | Inr ok \<Rightarrow> claimAll m (if ok then claimed @ [rs] else claimed) errlist st' sets)"

definition ClaimReplicaSets :: "'w refManager \<Rightarrow> replicaSet list \<Rightarrow> ('w, replicaSet list) io" where
  "ClaimReplicaSets m sets =
     bindE (claimAll m [] [] None sets) (\<lambda>(claimed, errlist).
     case lib_NewAggregate (rm_lib m) errlist of
       None \<Rightarrow> returnE claimed
     | Some err \<Rightarrow> failE err)"

definition RecheckDeletionTimestamp :: "lib \<Rightarrow> ('w, objectMeta) io \<Rightarrow> ('w, unit) io" where
  "RecheckDeletionTimestamp L getObject =
     bindE (tryE getObject) (\<lambda>r. case r of
       Inl err \<Rightarrow> failE (Errorf ''can't recheck DeletionTimestamp: %v'' [error_text err])
     | Inr obj \<Rightarrow>
        (case meta_DeletionTimestamp obj of
           Some t \<Rightarrow> failE (Errorf ''%v/%v has just been deleted at %v''
             [meta_Namespace obj, meta_Name obj, lib_TimeString L t])
         | None \<Rightarrow> returnE ()))"

section \<open>What a claim may do\<close>

definition owned :: "'w refManager \<Rightarrow> replicaSet \<Rightarrow> bool" where
  "owned m rs \<longleftrightarrow> (case GetControllerOf (rs_Meta rs) of None \<Rightarrow> False
     | Some ref \<Rightarrow> owner_UID ref = meta_UID (rm_Controller m))"

definition adoptable :: "'w refManager \<Rightarrow> replicaSet \<Rightarrow> bool" where
  "adoptable m rs \<longleftrightarrow> GetControllerOf (rs_Meta rs) = None \<and> claims m (rs_Meta rs)
     \<and> meta_DeletionTimestamp (rm_Controller m) = None \<and> meta_DeletionTimestamp (rs_Meta rs) = None
     \<and> (meta_Namespace (rm_Controller m) = [] \<or> meta_Namespace (rm_Controller m) = meta_Namespace (rs_Meta rs))"

definition releasable :: "'w refManager \<Rightarrow> replicaSet \<Rightarrow> bool" where
  "releasable m rs \<longleftrightarrow> owned m rs \<and> \<not> claims m (rs_Meta rs) \<and> meta_DeletionTimestamp (rm_Controller m) = None"

definition adoptRequest :: "'w refManager \<Rightarrow> replicaSet \<Rightarrow> request" where
  "adoptRequest m rs = PatchReplicaSet (meta_Namespace (rs_Meta rs)) (rs_Name rs) (adoptPatch m rs)"

definition releaseRequest :: "'w refManager \<Rightarrow> replicaSet \<Rightarrow> request" where
  "releaseRequest m rs = PatchReplicaSet (meta_Namespace (rs_Meta rs)) (rs_Name rs) (releasePatch m rs)"

definition claimRequest :: "'w refManager \<Rightarrow> replicaSet list \<Rightarrow> request \<Rightarrow> bool" where
  "claimRequest m sets q \<longleftrightarrow> is_read q \<or> (\<exists>rs \<in> set sets. adoptable m rs \<and> q = adoptRequest m rs)
     \<or> (\<exists>rs \<in> set sets. releasable m rs \<and> q = releaseRequest m rs)"

definition adoption :: "request \<times> bool \<Rightarrow> bool" where
  "adoption x \<longleftrightarrow> (case fst x of PatchReplicaSet ns name (AddOwnerRef p) \<Rightarrow> True | _ \<Rightarrow> False)"

lemma adoption_simps [simp]:
  "adoption (adoptRequest m rs, ok)" "\<not> adoption (releaseRequest m rs, ok)"
  "is_read q \<Longrightarrow> \<not> adoption (q, ok)"
  by (auto simp: adoption_def adoptRequest_def adoptPatch_def ownerRefControllerPatch_def releaseRequest_def
      releasePatch_def GenerateDeleteOwnerRefStrategicMergeBytes_def split: request.splits ownerPatch.splits)

text \<open>
  The contract of an adoption check: it only reads, and it passes only after a read that \<open>A\<close> recognises. Under it the
  claims adopt only after such a read.
\<close>

locale adoption_check =
  fixes m :: "'w refManager" and f :: "('w, unit) io" and A :: "request \<times> bool \<Rightarrow> bool"
  assumes check_func: "rm_CanAdoptFunc m = Some f"
    and check_reads: "emits is_read f"
    and check_passes: "runs_at f h s (\<lambda>r h'. r = Inr () \<longrightarrow> (\<exists>x \<in> set h'. A x))"
begin

definition ready :: "adoptState \<Rightarrow> (request \<times> bool) list \<Rightarrow> bool" where
  "ready st h \<longleftrightarrow> after A adoption h \<and> (st = Some None \<longrightarrow> (\<exists>x \<in> set h. A x))"

lemma runs_at_CanAdopt:
  assumes "ready st h"
  shows "runs_at (CanAdopt m st) h s (\<lambda>r h'. after A adoption h' \<and>
     (\<forall>e st'. r = Inr (e, st') \<longrightarrow> ready st' h' \<and> st' = Some e))"
proof -
  have keep: "after A adoption (h @ g)" if "list_all (\<lambda>(q, ok). is_read q) g" for g
  proof -
    have "after A adoption g" using that by (induction g) auto
    then show ?thesis using assms by (simp add: ready_def after_append)
  qed
  have chk: "runs_at f h s (\<lambda>r h'. after A adoption h' \<and> (r = Inr () \<longrightarrow> (\<exists>x \<in> set h'. A x)))" for s
    by (rule runs_at_mono [OF runs_at_and_emits [OF check_reads check_passes]]) (use keep in auto)
  show ?thesis
  proof (cases st)
    case None
    show ?thesis
      unfolding CanAdopt_def check_func None option.case
      by (rule runs_at_bindE, rule runs_at_tryE, rule runs_at_mono [OF chk])
        (auto split: sum.split intro!: runs_at_returnE simp: ready_def failure_def)
  next
    case (Some e)
    with assms show ?thesis
      by (auto simp: CanAdopt_def ready_def intro!: runs_at_returnE)
  qed
qed

definition got :: "replicaSet \<Rightarrow> (request \<times> bool) list \<Rightarrow> bool" where
  "got rs h \<longleftrightarrow> owned m rs \<and> claims m (rs_Meta rs) \<or> adoptable m rs \<and> (adoptRequest m rs, True) \<in> set h"

lemma got_append: "got rs h \<Longrightarrow> got rs (h @ g)"
  by (auto simp: got_def)

lemma ready_append:
  "ready st h \<Longrightarrow> st = Some None \<Longrightarrow> ready st (h @ [(adoptRequest m rs, ok)])"
  "ready st h \<Longrightarrow> ready st (h @ [(releaseRequest m rs, ok)])"
  by (auto simp: ready_def after_snoc)

lemma runs_at_Adopt:
  assumes "ready st h" and "adoptable m rs"
  shows "runs_at (AdoptReplicaSet m rs st) h s (\<lambda>r h'. after A adoption h' \<and>
     (\<forall>e st'. r = Inr (e, st') \<longrightarrow> ready st' h' \<and> (e = None \<longrightarrow> got rs h')))"
proof -
  have patch: "runs_at (bindE (tryE (patchReplicaSet (rm_env m) (meta_Namespace (rs_Meta rs)) (rs_Name rs) (adoptPatch m rs)))
      (\<lambda>r. returnE (failure r, st'))) h' s' (\<lambda>r h'. after A adoption h' \<and>
     (\<forall>e st'. r = Inr (e, st') \<longrightarrow> ready st' h' \<and> (e = None \<longrightarrow> got rs h')))"
    if "ready st' h'" "st' = Some None" for st' h' s'
  proof -
    have "ready st' (h' @ [(adoptRequest m rs, ok)])" "after A adoption (h' @ [(adoptRequest m rs, ok)])" for ok
      using ready_append(1) [OF that] by (auto simp: ready_def)
    then show ?thesis
      unfolding patchReplicaSet_def adoptRequest_def [symmetric]
      by (intro runs_at_bindE runs_at_tryE runs_at_callE)
        (auto intro!: runs_at_returnE simp: failure_def got_def assms(2))
  qed
  show ?thesis
    unfolding AdoptReplicaSet_def
    by (rule runs_at_bindE, rule runs_at_mono [OF runs_at_CanAdopt [OF assms(1)]])
      (auto split: sum.split option.split intro!: runs_at_returnE patch)
qed

lemma runs_at_Release:
  assumes "ready st h"
  shows "runs_at (ReleaseReplicaSet m rs) h s (\<lambda>r h'. after A adoption h' \<and> ready st h')"
proof -
  have "ready st (h @ [(releaseRequest m rs, ok)])" "after A adoption (h @ [(releaseRequest m rs, ok)])" for ok
    using ready_append(2) [OF assms] by (auto simp: ready_def)
  then show ?thesis
    unfolding ReleaseReplicaSet_def patchReplicaSet_def releaseRequest_def [symmetric]
    by (intro runs_at_bindE runs_at_tryE runs_at_callE) (auto intro!: runs_at_returnE)
qed

lemma runs_at_ClaimObject:
  assumes "ready st h"
  shows "runs_at (ClaimObject m (rs_Meta rs) (claims m) (AdoptReplicaSet m rs) (ReleaseReplicaSet m rs) st) h s
    (\<lambda>r h'. after A adoption h' \<and> (\<forall>b st'. r = Inr (b, st') \<longrightarrow> ready st' h' \<and> (b = Inr True \<longrightarrow> got rs h')
       \<and> (owned m rs \<and> claims m (rs_Meta rs) \<longrightarrow> b = Inr True)))"
proof -
  have now: "after A adoption h" using assms by (simp add: ready_def)
  show ?thesis
  proof (cases "GetControllerOf (rs_Meta rs)")
    case None
    have "runs_at (bindE (AdoptReplicaSet m rs st) (\<lambda>(err, st'). case err of
          Some e \<Rightarrow> returnE (if IsNotFound e then Inr False else Inl e, st') | None \<Rightarrow> returnE (Inr True, st'))) h s
        (\<lambda>r h'. after A adoption h' \<and> (\<forall>b st'. r = Inr (b, st') \<longrightarrow> ready st' h' \<and> (b = Inr True \<longrightarrow> got rs h')))"
      if "adoptable m rs"
      by (rule runs_at_bindE, rule runs_at_mono [OF runs_at_Adopt [OF assms that]])
        (auto split: sum.split option.split intro!: runs_at_returnE)
    with None assms now show ?thesis
      unfolding ClaimObject_def by (auto simp: adoptable_def owned_def intro!: runs_at_returnE)
  next
    case (Some ref)
    have "runs_at (bindE (ReleaseReplicaSet m rs) (\<lambda>err. case err of
          Some e \<Rightarrow> returnE (if IsNotFound e then Inr False else Inl e, st) | None \<Rightarrow> returnE (Inr False, st))) h s
        (\<lambda>r h'. after A adoption h' \<and> (\<forall>b st'. r = Inr (b, st') \<longrightarrow> ready st' h' \<and> b \<noteq> Inr True))"
      by (rule runs_at_bindE, rule runs_at_mono [OF runs_at_Release [OF assms]])
        (auto split: sum.split option.split intro!: runs_at_returnE)
    from runs_at_mono [OF this, of "\<lambda>r h'. after A adoption h' \<and> (\<forall>b st'. r = Inr (b, st') \<longrightarrow> ready st' h' \<and> (b = Inr True \<longrightarrow> got rs h'))"]
    show ?thesis
      using Some assms now
      unfolding ClaimObject_def by (auto simp: owned_def got_def intro!: runs_at_returnE)
  qed
qed

definition claimed_all :: "replicaSet list \<Rightarrow> replicaSet list \<Rightarrow> (request \<times> bool) list \<Rightarrow> bool" where
  "claimed_all sets new h \<longleftrightarrow> (\<forall>rs \<in> set new. rs \<in> set sets \<and> got rs h)
     \<and> (\<forall>rs \<in> set sets. owned m rs \<and> claims m (rs_Meta rs) \<longrightarrow> rs \<in> set new)"

lemma claimed_all_Cons:
  "claimed_all sets new (h @ g) \<Longrightarrow> b = Inr True \<longrightarrow> got rs h \<Longrightarrow> owned m rs \<and> claims m (rs_Meta rs) \<longrightarrow> b = Inr True \<Longrightarrow>
   claimed_all (rs # sets) (if b = Inr True then rs # new else new) (h @ g)"
  by (auto simp: claimed_all_def dest: got_append)

lemma runs_at_claimAll:
  assumes "ready st h"
  shows "runs_at (claimAll m claimed errs st sets) h s (\<lambda>r h'. after A adoption h' \<and>
     (\<forall>c e. r = Inr (c, e) \<longrightarrow> (\<exists>new. c = claimed @ new \<and> claimed_all sets new h')))"
  using assms
proof (induction sets arbitrary: claimed errs st h s)
  case Nil
  then show ?case by (auto intro!: runs_at_returnE simp: claimed_all_def ready_def)
next
  case (Cons rs sets)
  let ?Q = "\<lambda>r h'. after A adoption h' \<and> (\<forall>c e. r = Inr (c, e) \<longrightarrow> (\<exists>new. c = claimed @ new \<and> claimed_all (rs # sets) new h'))"
  have rest: "runs_at (claimAll m (if b = Inr True then claimed @ [rs] else claimed) errs' st' sets) h' s' ?Q"
    if "ready st' h'" "b = Inr True \<longrightarrow> got rs h'" "owned m rs \<and> claims m (rs_Meta rs) \<longrightarrow> b = Inr True" for b st' h' s' errs'
  proof (rule runs_at_mono [OF runs_at_grows [OF Cons.IH [OF that(1)]]], goal_cases)
    case (1 r h2)
    then obtain g where g: "h2 = h' @ g" by blast
    have "\<exists>new. c = claimed @ new \<and> claimed_all (rs # sets) new h2" if "r = Inr (c, e)" for c e
    proof -
      obtain new where "c = (if b = Inr True then claimed @ [rs] else claimed) @ new" "claimed_all sets new h2"
        using 1 \<open>r = Inr (c, e)\<close> by blast
      then show ?thesis
        using claimed_all_Cons [of sets new h' g b rs] \<open>b = Inr True \<longrightarrow> got rs h'\<close>
          \<open>owned m rs \<and> claims m (rs_Meta rs) \<longrightarrow> b = Inr True\<close> g
        by (intro exI [of _ "if b = Inr True then rs # new else new"]) auto
    qed
    with 1 show ?case by blast
  qed
  show ?case
    unfolding claimAll.simps
  proof (rule runs_at_bindE, rule runs_at_mono [OF runs_at_ClaimObject [OF Cons.prems]], goal_cases)
    case (1 r h')
    show ?case
    proof (cases r)
      case (Inr x)
      obtain b st' where x: "x = (b, st')" by fastforce
      have b: "ready st' h'" "b = Inr True \<longrightarrow> got rs h'" "owned m rs \<and> claims m (rs_Meta rs) \<longrightarrow> b = Inr True"
        using 1 Inr x by blast+
      show ?thesis
      proof (cases b)
        case (Inl e)
        with rest [OF b, of "errs @ [e]"] Inr x show ?thesis by simp
      next
        case (Inr ok)
        with rest [OF b, of errs] \<open>r = Inr x\<close> x show ?thesis by (cases ok) simp_all
      qed
    qed (use 1 in auto)
  qed
qed

lemma ClaimReplicaSets_claimed:
  assumes "aggregate_spec (rm_lib m)" and "ClaimReplicaSets m sets s = (r, s')"
  shows "after A adoption (new_requests s s')
     \<and> (\<forall>claimed. r = Inr claimed \<longrightarrow> claimed_all sets claimed (new_requests s s'))"
proof -
  have "ready None []" by (simp add: ready_def)
  then have "runs_at (ClaimReplicaSets m sets) [] s (\<lambda>r h. after A adoption h
      \<and> (\<forall>claimed. r = Inr claimed \<longrightarrow> claimed_all sets claimed h))"
    unfolding ClaimReplicaSets_def
    by (intro runs_at_bindE, intro runs_at_mono [OF runs_at_claimAll])
      (auto split: sum.split option.split intro!: runs_at_returnE runs_at_failE)
  from runs_atD [OF this assms(2)] show ?thesis by blast
qed

lemma emits_claimAll: "emits (claimRequest m (done @ sets)) (claimAll m claimed errs st sets)"
proof (induction sets arbitrary: claimed errs st "done")
  case Nil
  show ?case by (simp add: emits_returnE)
next
  case (Cons rs sets)
  have func: "emits (claimRequest m (done @ rs # sets)) f"
    by (rule emits_mono [OF check_reads]) (simp add: claimRequest_def)
  have rest: "emits (claimRequest m (done @ rs # sets)) (claimAll m c e st' sets)" for c e st'
    using Cons.IH [of "done @ [rs]"] by simp
  show ?case
    unfolding claimAll.simps ClaimObject_def AdoptReplicaSet_def ReleaseReplicaSet_def CanAdopt_def check_func option.case(2) patchReplicaSet_def
    by (intro emits_intros func rest)
      (auto simp: claimRequest_def adoptable_def releasable_def owned_def adoptRequest_def releaseRequest_def)
qed

lemma emits_ClaimReplicaSets: "emits (claimRequest m sets) (ClaimReplicaSets m sets)"
  unfolding ClaimReplicaSets_def
  by (intro emits_intros emits_claimAll [where ?done = "[]", simplified])

end

end
