(* ===== verification/Deployment_Controller.thy ===== *)
theory Deployment_Controller
  imports Deployment_Rollout Controller_Refs
begin

text \<open>
  The forked Deployment controller itself, \<open>_forkedfrom_k8s/deployment_controller.go\<close>: its event
  handlers, the work item loop with its error handling, the listing of ReplicaSets and pods, and the dispatch of a
  sync. The caches of the informers and the work queue belong to the client library; they are operations of the
  record \<open>deploymentController\<close> over the server state. A write to the queue is an entry of the history.
\<close>

record 'w deploymentController =
  dc_lib :: lib
  dc_env :: "'w env"
  dc_dLister_Get :: "string \<Rightarrow> string \<Rightarrow> ('w, deployment) eff"
  dc_dLister_List :: "string \<Rightarrow> ('w, deployment list) eff"
  dc_rsLister_List :: "string \<Rightarrow> ('w, replicaSet list) eff"
  dc_rsLister_Get :: "string \<Rightarrow> string \<Rightarrow> ('w, replicaSet) eff"
  dc_podLister_List :: "string \<Rightarrow> selector \<Rightarrow> ('w, pod list) eff"
  dc_queue_Get :: "'w \<Rightarrow> string option \<times> 'w"
  dc_queue_NumRequeues :: "string \<Rightarrow> 'w \<Rightarrow> int \<times> 'w"

abbreviation maxRetries :: int where "maxRetries \<equiv> 15"

abbreviation controllerKind :: "string \<times> string" where
  "controllerKind \<equiv> (''apps/v1'', ''Deployment'')"

text \<open>What an event handler is given: an object, a tombstone of one (or of something else), or something else.\<close>

datatype 'a event = Obj 'a | DeletedFinalStateUnknown "'a option" | OtherObject

definition eventObject :: "'a event \<Rightarrow> 'a option" where
  "eventObject ev = (case ev of Obj x \<Rightarrow> Some x | DeletedFinalStateUnknown t \<Rightarrow> t | OtherObject \<Rightarrow> None)"

section \<open>Owners\<close>

definition resolveControllerRef ::
    "'w deploymentController \<Rightarrow> string \<Rightarrow> ownerReference \<Rightarrow> ('w, deployment option) io" where
  "resolveControllerRef dc namespace controllerRef =
     (if owner_Kind controllerRef \<noteq> snd controllerKind then returnE None
      else bindE (tryE (silentE (dc_dLister_Get dc namespace (owner_Name controllerRef)))) (\<lambda>r. case r of
          Inl err \<Rightarrow> returnE None
        | Inr d \<Rightarrow> returnE (if meta_UID (dep_Meta d) \<noteq> owner_UID controllerRef then None else Some d)))"

definition getDeploymentsForReplicaSet ::
    "'w deploymentController \<Rightarrow> replicaSet \<Rightarrow> ('w, deployment list) io" where
  "getDeploymentsForReplicaSet dc rs =
     bindE (tryE (silentE (dc_dLister_List dc (meta_Namespace (rs_Meta rs))))) (\<lambda>dList.
     returnE (case GetDeploymentsForReplicaSet (dc_lib dc) dList rs of
       Inl err \<Rightarrow> [] | Inr deployments \<Rightarrow> deployments))"

definition getDeploymentForPod :: "'w deploymentController \<Rightarrow> pod \<Rightarrow> ('w, deployment option) io" where
  "getDeploymentForPod dc pod =
     (case GetControllerOf (pod_Meta pod) of
        None \<Rightarrow> returnE None
      | Some controllerRef \<Rightarrow>
         (if owner_Kind controllerRef \<noteq> ''ReplicaSet'' then returnE None
          else bindE (tryE (silentE (dc_rsLister_Get dc (meta_Namespace (pod_Meta pod)) (owner_Name controllerRef)))) (\<lambda>r.
            case r of
              Inl err \<Rightarrow> returnE None
            | Inr rs \<Rightarrow>
               (if rs_UID rs \<noteq> owner_UID controllerRef then returnE None
                else case GetControllerOf (rs_Meta rs) of
                    None \<Rightarrow> returnE None
                  | Some ref \<Rightarrow> resolveControllerRef dc (meta_Namespace (rs_Meta rs)) ref))))"

section \<open>Event handlers\<close>

definition enqueueFound :: "'w deploymentController \<Rightarrow> deployment option \<Rightarrow> ('w, unit) io" where
  "enqueueFound dc found = (case found of None \<Rightarrow> returnE () | Some d \<Rightarrow> enqueue (dc_lib dc) d)"

definition addDeploymentEvent :: "'w deploymentController \<Rightarrow> deployment \<Rightarrow> ('w, unit) io" where
  "addDeploymentEvent dc d = enqueue (dc_lib dc) d"

definition updateDeploymentEvent :: "'w deploymentController \<Rightarrow> deployment \<Rightarrow> deployment \<Rightarrow> ('w, unit) io" where
  "updateDeploymentEvent dc oldD curD = enqueue (dc_lib dc) curD"

definition deleteDeploymentEvent :: "'w deploymentController \<Rightarrow> deployment event \<Rightarrow> ('w, unit) io" where
  "deleteDeploymentEvent dc obj = enqueueFound dc (eventObject obj)"

definition deleteReplicaSetEvent :: "'w deploymentController \<Rightarrow> replicaSet event \<Rightarrow> ('w, unit) io" where
  "deleteReplicaSetEvent dc obj = (case eventObject obj of
     None \<Rightarrow> returnE ()
   | Some rs \<Rightarrow>
      (case GetControllerOf (rs_Meta rs) of
         None \<Rightarrow> returnE ()
       | Some controllerRef \<Rightarrow>
           bindE (resolveControllerRef dc (meta_Namespace (rs_Meta rs)) controllerRef) (enqueueFound dc)))"

definition addReplicaSetEvent :: "'w deploymentController \<Rightarrow> replicaSet \<Rightarrow> ('w, unit) io" where
  "addReplicaSetEvent dc rs =
     (if meta_DeletionTimestamp (rs_Meta rs) \<noteq> None then deleteReplicaSetEvent dc (Obj rs)
      else case GetControllerOf (rs_Meta rs) of
          Some controllerRef \<Rightarrow>
            bindE (resolveControllerRef dc (meta_Namespace (rs_Meta rs)) controllerRef) (enqueueFound dc)
        | None \<Rightarrow>
            bindE (getDeploymentsForReplicaSet dc rs) (\<lambda>ds. forE ds (enqueue (dc_lib dc))))"

definition updateReplicaSetEvent :: "'w deploymentController \<Rightarrow> replicaSet \<Rightarrow> replicaSet \<Rightarrow> ('w, unit) io" where
  "updateReplicaSetEvent dc oldRS curRS =
     (if meta_ResourceVersion (rs_Meta curRS) = meta_ResourceVersion (rs_Meta oldRS) then returnE ()
      else
        let curControllerRef = GetControllerOf (rs_Meta curRS);
            oldControllerRef = GetControllerOf (rs_Meta oldRS);
            controllerRefChanged = (curControllerRef \<noteq> oldControllerRef)
        in bindE (case oldControllerRef of
              Some ref \<Rightarrow>
                (if controllerRefChanged
                 then bindE (resolveControllerRef dc (meta_Namespace (rs_Meta oldRS)) ref) (enqueueFound dc)
                 else returnE ())
            | None \<Rightarrow> returnE ()) (\<lambda>_.
           case curControllerRef of
             Some ref \<Rightarrow> bindE (resolveControllerRef dc (meta_Namespace (rs_Meta curRS)) ref) (enqueueFound dc)
           | None \<Rightarrow>
               (if \<not> smap_eq (rs_Labels curRS) (rs_Labels oldRS) \<or> controllerRefChanged
                then bindE (getDeploymentsForReplicaSet dc curRS) (\<lambda>ds. forE ds (enqueue (dc_lib dc)))
                else returnE ())))"

definition getPodMapForDeployment ::
    "'w deploymentController \<Rightarrow> deployment \<Rightarrow> replicaSet list \<Rightarrow> ('w, (string \<times> pod list) list) io" where
  "getPodMapForDeployment dc d rsList =
     bindE (liftE (lib_LabelSelectorAsSelector (dc_lib dc) (dep_Selector d))) (\<lambda>selector.
     bindE (silentE (dc_podLister_List dc (dep_Namespace d) selector)) (\<lambda>pods.
     returnE (foldl (\<lambda>podMap pod. case GetControllerOf (pod_Meta pod) of
           None \<Rightarrow> podMap
         | Some ref \<Rightarrow>
            (case map_of podMap (owner_UID ref) of
               None \<Rightarrow> podMap
             | Some l \<Rightarrow> AList.update (owner_UID ref) (l @ [pod]) podMap))
       (foldl (\<lambda>podMap rs. AList.update (rs_UID rs) [] podMap) [] rsList) pods)))"

definition deletePodEvent :: "'w deploymentController \<Rightarrow> pod event \<Rightarrow> ('w, unit) io" where
  "deletePodEvent dc obj = (case eventObject obj of
     None \<Rightarrow> returnE ()
   | Some pod \<Rightarrow>
       bindE (getDeploymentForPod dc pod) (\<lambda>found. case found of
         None \<Rightarrow> returnE ()
       | Some d \<Rightarrow>
          (if dep_StrategyType d \<noteq> RecreateDeploymentStrategyType then returnE ()
           else bindE (tryE (deploymentListReplicaSets (dc_lib dc) d (apiListReplicaSets (dc_env dc)))) (\<lambda>r. case r of
               Inl err \<Rightarrow> returnE ()
             | Inr rsList \<Rightarrow>
                 bindE (tryE (getPodMapForDeployment dc d rsList)) (\<lambda>r'. case r' of
                   Inl err \<Rightarrow> returnE ()
                 | Inr podMap \<Rightarrow>
                    (if sum_list (map (\<lambda>(uid, podList). length podList) podMap) = 0
                     then enqueue (dc_lib dc) d else returnE ()))))))"

section \<open>The ReplicaSets of a Deployment\<close>

definition freshDeployment :: "'w deploymentController \<Rightarrow> deployment \<Rightarrow> ('w, objectMeta) io" where
  "freshDeployment dc d =
     bindE (getDeployment (dc_env dc) (dep_Namespace d) (dep_Name d)) (\<lambda>fresh.
     if meta_UID (dep_Meta fresh) \<noteq> meta_UID (dep_Meta d) then
       failE (Errorf ''original Deployment %v/%v is gone: got uid %v, wanted %v''
         [dep_Namespace d, dep_Name d, meta_UID (dep_Meta fresh), meta_UID (dep_Meta d)])
     else returnE (dep_Meta fresh))"

definition refManagerFor :: "'w deploymentController \<Rightarrow> deployment \<Rightarrow> selector \<Rightarrow> 'w refManager" where
  "refManagerFor dc d selector = NewReplicaSetControllerRefManager (dc_lib dc) (dc_env dc) (dep_Meta d) selector controllerKind
     (RecheckDeletionTimestamp (dc_lib dc) (freshDeployment dc d))"

definition getReplicaSetsForDeployment ::
    "'w deploymentController \<Rightarrow> deployment \<Rightarrow> ('w, replicaSet list) io" where
  "getReplicaSetsForDeployment dc d =
     bindE (silentE (dc_rsLister_List dc (dep_Namespace d))) (\<lambda>rsList.
     case lib_LabelSelectorAsSelector (dc_lib dc) (dep_Selector d) of
       Inl err \<Rightarrow> failE (Errorf ''deployment %s/%s has invalid label selector: %v''
         [dep_Namespace d, dep_Name d, error_text err])
     | Inr selector \<Rightarrow> ClaimReplicaSets (refManagerFor dc d selector) rsList)"

section \<open>The sync of one key\<close>

definition selectsAll :: "deployment \<Rightarrow> bool" where
  "selectsAll d \<longleftrightarrow> dep_Selector d = Some \<lparr>sel_MatchLabels = [], sel_MatchExpressions = []\<rparr>"

definition syncSelectingAll :: "'w deploymentController \<Rightarrow> deployment \<Rightarrow> ('w, unit) io" where
  "syncSelectingAll dc d =
     bindE (eventf ''Warning'' ''SelectingAll''
       ''This deployment is selecting all pods. A non-empty selector is required.'') (\<lambda>_.
     if ds_ObservedGeneration (dep_Status d) < meta_Generation (dep_Meta d) then
       bindE (tryE (updateDeploymentStatus (dc_env dc) (dep_Namespace d)
         (d\<lparr>dep_Status := (dep_Status d)\<lparr>ds_ObservedGeneration := meta_Generation (dep_Meta d)\<rparr>\<rparr>))) (\<lambda>_. returnE ())
     else returnE ())"

definition syncStrategy ::
    "'w deploymentController \<Rightarrow> deployment \<Rightarrow> replicaSet list \<Rightarrow> (string \<times> pod list) list \<Rightarrow> ('w, unit) io" where
  "syncStrategy dc d rsList podMap =
     (if dep_StrategyType d = RecreateDeploymentStrategyType then rolloutRecreate (dc_lib dc) (dc_env dc) d rsList podMap
      else if dep_StrategyType d = RollingUpdateDeploymentStrategyType then rolloutRolling (dc_lib dc) (dc_env dc) d rsList
      else failE (Errorf ''unexpected deployment strategy type: %s'' [dep_StrategyType d]))"

text \<open>The part of a sync behind the selector check.\<close>

definition syncOwned :: "'w deploymentController \<Rightarrow> deployment \<Rightarrow> ('w, unit) io" where
  "syncOwned dc d0 =
     bindE (getReplicaSetsForDeployment dc d0) (\<lambda>rsList.
     bindE (getPodMapForDeployment dc d0 rsList) (\<lambda>podMap.
     if meta_DeletionTimestamp (dep_Meta d0) \<noteq> None then syncStatusOnly (dc_lib dc) (dc_env dc) d0 rsList
     else
       bindE (checkPausedConditions (dc_env dc) d0) (\<lambda>d.
       if dep_Paused d then sync (dc_lib dc) (dc_env dc) d rsList
       else if getRollbackTo d \<noteq> None then rollback (dc_lib dc) (dc_env dc) d rsList
       else
         bindE (isScalingEvent (dc_lib dc) (dc_env dc) d rsList) (\<lambda>(scalingEvent, d').
         if scalingEvent then sync (dc_lib dc) (dc_env dc) d' rsList
         else syncStrategy dc d' rsList podMap))))"

definition syncDeployment :: "'w deploymentController \<Rightarrow> string \<Rightarrow> ('w, unit) io" where
  "syncDeployment dc key =
     bindE (liftE (lib_SplitMetaNamespaceKey (dc_lib dc) key)) (\<lambda>(namespace, name).
     bindE (tryE (silentE (dc_dLister_Get dc namespace name))) (\<lambda>r. case r of
       Inl err \<Rightarrow> (if IsNotFound err then returnE () else failE err)
     | Inr d \<Rightarrow> (if selectsAll d then syncSelectingAll dc d else syncOwned dc d)))"

section \<open>The worker\<close>

definition handleErr :: "'w deploymentController \<Rightarrow> error option \<Rightarrow> string \<Rightarrow> ('w, unit) io" where
  "handleErr dc err key = (case err of
     None \<Rightarrow> queueWrite (QueueForget key)
   | Some e \<Rightarrow>
      (if ''NamespaceTerminating'' \<in> set (error_causes e) then queueWrite (QueueForget key)
       else bindE (silentE (\<lambda>v. case dc_queue_NumRequeues dc key v of (n, v') \<Rightarrow> (Inr n, v'))) (\<lambda>numRequeues.
         if numRequeues < maxRetries then queueWrite (QueueAddRateLimited key)
         else queueWrite (QueueForget key))))"

text \<open>A deferred call: it runs after the body, also when that panics.\<close>

definition deferE :: "('s, 'a) eff \<Rightarrow> ('s, unit) eff \<Rightarrow> ('s, 'a) eff" where
  "deferE m fin = (\<lambda>s. case m s of (r, s1) \<Rightarrow> (case fin s1 of (Inl e, s2) \<Rightarrow> (Inl e, s2) | (Inr _, s2) \<Rightarrow> (r, s2)))"

definition processNextWorkItem :: "'w deploymentController \<Rightarrow> ('w, bool) io" where
  "processNextWorkItem dc =
     bindE (silentE (\<lambda>v. case dc_queue_Get dc v of (k, v') \<Rightarrow> (Inr k, v'))) (\<lambda>item. case item of
       None \<Rightarrow> returnE False
     | Some key \<Rightarrow>
         deferE (bindE (tryE (syncDeployment dc key)) (\<lambda>r.
           bindE (handleErr dc (failure r) key) (\<lambda>_. returnE True)))
           (queueWrite (QueueDone key)))"

text \<open>The worker processes items until the queue shuts down; the fuel bounds how many are looked at.\<close>

fun worker :: "nat \<Rightarrow> 'w deploymentController \<Rightarrow> ('w, bool) io" where
  "worker 0 dc = returnE True"
| "worker (Suc n) dc = bindE (processNextWorkItem dc) (\<lambda>more. if more then worker n dc else returnE False)"

section \<open>Claiming the ReplicaSets of a Deployment\<close>

abbreviation rechecked :: "deployment \<Rightarrow> request \<times> bool \<Rightarrow> bool" where
  "rechecked d x \<equiv> x = (GetDeployment (dep_Namespace d) (dep_Name d), True)"

interpretation recheck: adoption_check "refManagerFor dc d selector"
  "RecheckDeletionTimestamp (dc_lib dc) (freshDeployment dc d)" "rechecked d" for dc d selector
proof unfold_locales
  show "rm_CanAdoptFunc (refManagerFor dc d selector) = Some (RecheckDeletionTimestamp (dc_lib dc) (freshDeployment dc d))"
    by (simp add: refManagerFor_def NewReplicaSetControllerRefManager_def)
  show "emits is_read (RecheckDeletionTimestamp (dc_lib dc) (freshDeployment dc d))"
    unfolding RecheckDeletionTimestamp_def freshDeployment_def getDeployment_def by (intro emits_intros) simp
  show "runs_at (RecheckDeletionTimestamp (dc_lib dc) (freshDeployment dc d)) h s
      (\<lambda>r h'. r = Inr () \<longrightarrow> (\<exists>x \<in> set h'. rechecked d x))" for h s
    unfolding RecheckDeletionTimestamp_def freshDeployment_def getDeployment_def
    by (intro runs_intros) (auto split: sum.splits intro!: runs_intros)
qed


definition dc0 :: "deployment \<Rightarrow> replicaSet list \<Rightarrow> unit deploymentController" where
  "dc0 d rss = \<lparr>dc_lib = ref_lib, dc_env = env0\<lparr>api_GetDeployment := \<lambda>_ _. returnE d\<rparr>,
     dc_dLister_Get = \<lambda>_ _. returnE d, dc_dLister_List = \<lambda>_. returnE [d], dc_rsLister_List = \<lambda>_. returnE rss,
     dc_rsLister_Get = \<lambda>_ _. failE not_found, dc_podLister_List = \<lambda>_ _. returnE [],
     dc_queue_Get = \<lambda>v. (None, v), dc_queue_NumRequeues = \<lambda>_ v. (0, v)\<rparr>"

definition orphan0 :: replicaSet where
  "orphan0 = (rs0 ''v1'' 3)\<lparr>rs_Meta := (rs_Meta (rs0 ''v1'' 3))\<lparr>meta_Labels := [(''app'', ''web'')]\<rparr>\<rparr>"


section \<open>A Deployment that is being deleted\<close>

text \<open>The requests of a status sync: reads, status writes, and updates of a known ReplicaSet that keep its size.\<close>

definition statusRequest :: "replicaSet list \<Rightarrow> request \<Rightarrow> bool" where
  "statusRequest rsList q = (case q of
     UpdateReplicaSet ns x \<Rightarrow> (\<exists>rs \<in> set rsList. rs_set_Annotations None x
        = rs_set_Annotations None (rs\<lparr>rs_MinReadySeconds := rs_MinReadySeconds x\<rparr>))
   | UpdateDeploymentStatus ns d \<Rightarrow> True
   | _ \<Rightarrow> is_read q)"

lemma statusRequest_status: "statusRequest rsList (UpdateDeploymentStatus ns d)"
  by (simp add: statusRequest_def)

lemma SetNewReplicaSetAnnotations_existing:
  assumes "SetNewReplicaSetAnnotations L d rs revision True limit = Inr (c, rs')"
  shows "rs_set_Annotations None rs' = rs_set_Annotations None rs"
  using assms copyAnnotations(1) [of d rs]
  by (auto simp: SetNewReplicaSetAnnotations_def Let_def split: option.splits prod.splits if_splits)

lemma emits_syncStatusOnly: "emits (statusRequest rsList) (syncStatusOnly L V d rsList)"
proof -
  have upd: "statusRequest rsList (UpdateReplicaSet ns (x\<lparr>rs_MinReadySeconds := n\<rparr>))"
    if "FindNewReplicaSet L d rsList = Some rs" "SetNewReplicaSetAnnotations L d rs revision True limit = Inr (c, x)"
    for ns x n rs revision limit c
  proof -
    have "rs \<in> set rsList" using that(1) unfolding FindNewReplicaSet_def by (metis find_Some_iff nth_mem set_Sort)
    moreover have "rs_set_Annotations None (x\<lparr>rs_MinReadySeconds := n\<rparr>) = rs_set_Annotations None (rs\<lparr>rs_MinReadySeconds := n\<rparr>)"
      using SetNewReplicaSetAnnotations_existing [OF that(2)]
      by (cases x; cases rs; cases "rs_Meta x"; cases "rs_Meta rs"; simp add: rs_set_Annotations_def)
    ultimately show ?thesis by (auto simp: statusRequest_def)
  qed
  have exists: "emits (statusRequest rsList) (syncExistingRS L V d rs revision)"
    if "FindNewReplicaSet L d rsList = Some rs" for rs revision
    unfolding syncExistingRS_def Let_def call_defs
    by (intro emits_bind_liftE emits_intros) (use upd [OF that] in \<open>auto simp: statusRequest_status\<close>)
  show ?thesis
    unfolding syncStatusOnly_def getAllReplicaSetsAndSyncRevision_def getNewReplicaSet_def syncDeploymentStatus_def
      Let_def call_defs if_not_P [OF not_False_eq_True [THEN iffD2, OF TrueI]]
    by (intro emits_intros exists) (auto simp: statusRequest_def intro: emits_intros)
qed

lemma claimRequest_deleting:
  "meta_DeletionTimestamp (rm_Controller m) \<noteq> None \<Longrightarrow> claimRequest m sets q \<Longrightarrow> is_read q"
  by (auto simp: claimRequest_def adoptable_def releasable_def)

lemma runs_at_getReplicaSets_deleting:
  assumes "aggregate_spec (dc_lib dc)" and "meta_DeletionTimestamp (dep_Meta d) \<noteq> None"
    and "dc_rsLister_List dc (dep_Namespace d) (srv s) = (Inr rsList, v)"
  shows "runs_at (getReplicaSetsForDeployment dc d) [] s (\<lambda>r h. list_all (\<lambda>(q, ok). is_read q) h
     \<and> (\<forall>l. r = Inr l \<longrightarrow> set l \<subseteq> set rsList))"
proof (cases "lib_LabelSelectorAsSelector (dc_lib dc) (dep_Selector d)")
  case (Inl e)
  with assms(3) show ?thesis
    by (simp add: getReplicaSetsForDeployment_def runs_at_iff bindE_def silentE_def failE_def)
next
  case (Inr selector)
  let ?m = "refManagerFor dc d selector" and ?s = "s\<lparr>srv := v\<rparr>"
  obtain r s' where run: "ClaimReplicaSets ?m rsList ?s = (r, s')" by fastforce
  have all: "getReplicaSetsForDeployment dc d s = (r, s')"
    using run assms(3) Inr by (simp add: getReplicaSetsForDeployment_def bindE_def silentE_def)
  have lib: "aggregate_spec (rm_lib ?m)" using assms(1) by (simp add: refManagerFor_def NewReplicaSetControllerRefManager_def)
  have del: "meta_DeletionTimestamp (rm_Controller ?m) \<noteq> None" using assms(2) by (simp add: refManagerFor_def NewReplicaSetControllerRefManager_def)
  note em = emits_new_requests(1) [OF recheck.emits_ClaimReplicaSets [of dc d selector rsList], of ?s, unfolded run snd_conv]
    emits_new_requests(2) [OF recheck.emits_ClaimReplicaSets [of dc d selector rsList], of _ _ ?s, unfolded run snd_conv]
  have "set l \<subseteq> set rsList" if "r = Inr l" for l
    using recheck.ClaimReplicaSets_claimed [OF lib run] that unfolding recheck.claimed_all_def by blast
  moreover have "list_all (\<lambda>(q, ok). is_read q) (new_requests ?s s')"
    using em(2) claimRequest_deleting [OF del] by (auto simp: list_all_iff)
  moreover have "hist s' = hist s @ new_requests ?s s'" using em(1) by simp
  ultimately show ?thesis by (simp add: runs_at_iff all)
qed

text \<open>
  C40. A Deployment that is being deleted is left alone: whatever its strategy, spec and rollback request, a sync
  of it only reads, writes its status and updates annotations (or the readiness delay) of ReplicaSets it owns; nothing
  is created, adopted, released or deleted, and no replica count changes.
\<close>

theorem syncDeployment_deleting:
  assumes "aggregate_spec (dc_lib dc)" and "lib_SplitMetaNamespaceKey (dc_lib dc) key = Inr (ns, name)"
    and "dc_dLister_Get dc ns name (srv s) = (Inr d, v)" and "meta_DeletionTimestamp (dep_Meta d) \<noteq> None"
    and "\<not> selectsAll d" and "dc_rsLister_List dc (dep_Namespace d) v = (Inr rsList, v')"
    and "syncDeployment dc key s = (r, s')"
  shows "\<forall>(q, ok) \<in> set (new_requests s s'). statusRequest rsList q"
proof -
  let ?s = "s\<lparr>srv := v\<rparr>"
  have run: "syncOwned dc d ?s = (r, s')"
    using assms(2,3,5,7) by (simp add: syncDeployment_def liftE_def tryE_def silentE_def bindE_def)
  have status: "runs_at (syncStatusOnly (dc_lib dc) (dc_env dc) d l) h t (\<lambda>r h. list_all (\<lambda>(q, ok). statusRequest rsList q) h)"
    if "set l \<subseteq> set rsList" "list_all (\<lambda>(q, ok). is_read q) h" for l h t
  proof (rule runs_at_emits [OF emits_syncStatusOnly], goal_cases)
    case (1 r g)
    have "list_all (\<lambda>(q, ok). statusRequest rsList q) g"
      using 1 that(1) by (fastforce simp: list_all_iff statusRequest_def split: request.splits)
    moreover have "list_all (\<lambda>(q, ok). statusRequest rsList q) h"
      using that(2) by (fastforce simp: list_all_iff statusRequest_def split: request.splits)
    ultimately show ?case by simp
  qed
  have lister: "dc_rsLister_List dc (dep_Namespace d) (srv ?s) = (Inr rsList, v')" using assms(6) by simp
  have "runs_at (syncOwned dc d) [] ?s (\<lambda>r h. list_all (\<lambda>(q, ok). statusRequest rsList q) h)"
    unfolding syncOwned_def if_P [OF assms(4)]
  proof (rule runs_at_bindE, rule runs_at_mono [OF runs_at_getReplicaSets_deleting [OF assms(1,4) lister]], goal_cases)
    case (1 r h)
    have "list_all (\<lambda>(q, ok). statusRequest rsList q) h"
      using 1 by (fastforce simp: list_all_iff statusRequest_def split: request.splits)
    with 1 status show ?case
      unfolding getPodMapForDeployment_def
      by (auto split: sum.split intro!: runs_at_bindE runs_at_liftE runs_at_silentE runs_at_returnE)
  qed
  from runs_atD [OF this run] show ?thesis by (simp add: list_all_iff new_requests_def)
qed

definition deletedDep0 :: deployment where
  "deletedDep0 = selectorDep0\<lparr>dep_Meta := (dep_Meta selectorDep0)\<lparr>meta_DeletionTimestamp := Some 0\<rparr>\<rparr>"

theorem syncDeployment_deleting_witness:
  "list_all (\<lambda>(q, ok). statusRequest [orphan0] q)
     (new_requests world0 (snd (syncDeployment (dc0 deletedDep0 [orphan0]) ''prod/web'' world0)))"
proof -
  let ?dc = "dc0 deletedDep0 [orphan0]"
  have agg: "aggregate_spec (dc_lib ?dc)" by (simp add: dc0_def ref_lib_aggregate)
  have key: "lib_SplitMetaNamespaceKey (dc_lib ?dc) ''prod/web'' = Inr (''prod'', ''web'')" by code_simp
  have get: "dc_dLister_Get ?dc ''prod'' ''web'' (srv world0) = (Inr deletedDep0, ())"
    and list: "dc_rsLister_List ?dc (dep_Namespace deletedDep0) () = (Inr [orphan0], ())"
    by (simp_all add: dc0_def returnE_def)
  have del: "meta_DeletionTimestamp (dep_Meta deletedDep0) \<noteq> None" by (simp add: deletedDep0_def)
  have sel: "\<not> selectsAll deletedDep0" by (simp add: selectsAll_def deletedDep0_def selectorDep0_def)
  from syncDeployment_deleting [OF agg key get del sel list prod.collapse [symmetric]] show ?thesis
    by (simp only: list_all_iff)
qed

section \<open>Events and work items\<close>

text \<open>What the informers report, and the handler that \<open>NewDeploymentController\<close> registers for it.\<close>

datatype informerEvent =
    DeploymentAdded deployment
  | DeploymentUpdated deployment deployment
  | DeploymentDeleted "deployment event"
  | ReplicaSetAdded replicaSet
  | ReplicaSetUpdated replicaSet replicaSet
  | ReplicaSetDeleted "replicaSet event"
  | PodDeleted "pod event"

definition handleEvent :: "'w deploymentController \<Rightarrow> informerEvent \<Rightarrow> ('w, unit) io" where
  "handleEvent dc ev = (case ev of
     DeploymentAdded d \<Rightarrow> addDeploymentEvent dc d
   | DeploymentUpdated old cur \<Rightarrow> updateDeploymentEvent dc old cur
   | DeploymentDeleted obj \<Rightarrow> deleteDeploymentEvent dc obj
   | ReplicaSetAdded rs \<Rightarrow> addReplicaSetEvent dc rs
   | ReplicaSetUpdated old cur \<Rightarrow> updateReplicaSetEvent dc old cur
   | ReplicaSetDeleted obj \<Rightarrow> deleteReplicaSetEvent dc obj
   | PodDeleted obj \<Rightarrow> deletePodEvent dc obj)"

text \<open>The requests of an event handler: reads, and keys put on the queue.\<close>

abbreviation eventRequest :: "request \<Rightarrow> bool" where
  "eventRequest q \<equiv> is_read q \<or> (\<exists>key. q = QueueAdd key)"

lemma emits_enqueue: "emits eventRequest (enqueue L d)"
  unfolding enqueue_def queueWrite_def by (auto split: sum.split intro!: emits_intros)

lemma emits_enqueueFound: "emits eventRequest (enqueueFound dc found)"
  unfolding enqueueFound_def by (auto split: option.split intro!: emits_intros emits_enqueue)

lemma emits_resolveControllerRef: "emits P (resolveControllerRef dc ns ref)"
  unfolding resolveControllerRef_def by (auto split: sum.split intro!: emits_intros)

lemma emits_getDeploymentsForReplicaSet: "emits P (getDeploymentsForReplicaSet dc rs)"
  unfolding getDeploymentsForReplicaSet_def by (intro emits_intros)

lemmas emits_events = emits_enqueue emits_enqueueFound emits_resolveControllerRef emits_getDeploymentsForReplicaSet

lemma emits_deletePodEvent: "emits eventRequest (deletePodEvent dc obj)"
  unfolding deletePodEvent_def getDeploymentForPod_def deploymentListReplicaSets_def apiListReplicaSets_def getPodMapForDeployment_def
  by (auto split: option.split sum.split intro!: emits_intros emits_events)

lemma emits_handleEvent: "emits eventRequest (handleEvent dc ev)"
  unfolding handleEvent_def addDeploymentEvent_def updateDeploymentEvent_def deleteDeploymentEvent_def addReplicaSetEvent_def
    updateReplicaSetEvent_def deleteReplicaSetEvent_def Let_def
  by (auto split: informerEvent.split option.split intro!: emits_intros emits_events emits_deletePodEvent)

text \<open>
  A work item is settled: whatever its sync does, the key is marked done, once and last, also when the sync panics. A
  sync that succeeds, or fails because the namespace goes away, takes the key off the rate limiter; any other failure puts it
  back after a delay, unless it has been put back fifteen times already, when it is dropped.
\<close>

lemma processNextWorkItem_settles:
  assumes "dc_queue_Get dc (srv s) = (Some key, v)"
    and "syncDeployment dc key (s\<lparr>srv := v\<rparr>) = (result, s1)"
    and "dc_queue_NumRequeues dc key (srv s1) = (retries, v1)"
    and "processNextWorkItem dc s = (r, s')"
  shows "hist s' = hist s1 @ (case result of
       Inr _ \<Rightarrow> [(QueueForget key, True), (QueueDone key, True)]
     | Inl e \<Rightarrow>
         if is_panic e then [(QueueDone key, True)]
         else if ''NamespaceTerminating'' \<in> set (error_causes e) \<or> retries \<ge> 15
         then [(QueueForget key, True), (QueueDone key, True)]
         else [(QueueAddRateLimited key, True), (QueueDone key, True)])
     \<and> r = (case result of Inl e \<Rightarrow> if is_panic e then Inl e else Inr True | Inr _ \<Rightarrow> Inr True)"
  using assms
  by (auto simp: processNextWorkItem_def bindE_def silentE_def deferE_def tryE_def handleErr_def failure_def queueWrite_def
      callE_def returnE_def split: sum.splits prod.splits if_splits)

section \<open>What a sync touches\<close>

text \<open>
  The requests of a sync: Deployments and ReplicaSets are read and written, events recorded and a later check queued. Nothing
  else of the cluster is touched, and the sync leaves to the worker what becomes of its key.
\<close>

fun syncRequest :: "request \<Rightarrow> bool" where
  "syncRequest (CreateReplicaSet _ _) = True"
| "syncRequest (UpdateReplicaSet _ _) = True"
| "syncRequest (DeleteReplicaSet _ _) = True"
| "syncRequest (PatchReplicaSet _ _ _) = True"
| "syncRequest (UpdateDeployment _ _) = True"
| "syncRequest (UpdateDeploymentStatus _ _) = True"
| "syncRequest (Event _ _ _) = True"
| "syncRequest (QueueAddRateLimited _) = True"
| "syncRequest (QueueAddAfter _ _) = True"
| "syncRequest q = is_read q"

lemma scales_syncRequest: "scales rs n q \<Longrightarrow> syncRequest q"
  by (cases q) (auto simp: scales_def)

lemma syncs_scale: "emits syncRequest (scaleReplicaSet L V rs n d what)"
  by (rule emits_mono [OF emits_scaleReplicaSet scales_syncRequest])

lemma syncs_scaleAndRecord: "emits syncRequest (scaleReplicaSetAndRecordEvent L V rs n d)"
  by (rule emits_mono [OF emits_scaleReplicaSetAndRecordEvent scales_syncRequest])

lemma syncs_getAll: "emits syncRequest (getAllReplicaSetsAndSyncRevision L V d rsList create)"
  unfolding getAllReplicaSetsAndSyncRevision_def getNewReplicaSet_def syncExistingRS_def createNewRS_def
    finishCreate_def createConflict_def createFailed_def Let_def call_defs
  by (intro emits_intros) simp_all

lemma syncs_rolloutStatus: "emits syncRequest (syncRolloutStatus L V allRSs newRS d)"
  by (rule emits_mono [OF emits_syncRolloutStatus]) (auto simp: statusOrQueue_def split: request.splits)

lemma syncs_deploymentStatus: "emits syncRequest (syncDeploymentStatus L V allRSs newRS d)"
  unfolding syncDeploymentStatus_def Let_def call_defs by (intro emits_intros) simp_all

lemma syncs_cleanup: "emits syncRequest (cleanupDeployment V oldRSs d)"
  unfolding cleanupDeployment_def cleanupOne_def Let_def call_defs by (intro emits_intros) simp_all

lemma syncs_checkPaused: "emits syncRequest (checkPausedConditions V d)"
  unfolding checkPausedConditions_def Let_def call_defs by (intro emits_intros) simp_all

lemma syncs_isScalingEvent: "emits syncRequest (isScalingEvent L V d rsList)"
  unfolding isScalingEvent_def by (intro emits_intros syncs_getAll)

lemma syncs_scaling: "emits syncRequest (scale L V d newRS oldRSs)"
  unfolding scale_def scaleProportionally_def Let_def by (intro emits_intros syncs_scale syncs_scaleAndRecord)

lemma syncs_sync: "emits syncRequest (sync L V d rsList)" "emits syncRequest (syncStatusOnly L V d rsList)"
  unfolding sync_def syncStatusOnly_def
  by (intro emits_intros syncs_getAll syncs_scaling syncs_cleanup syncs_deploymentStatus)+

lemma syncs_rollback: "emits syncRequest (rollback L V d rsList)"
  unfolding rollback_def rollbackToTemplate_def emitRollbackWarningEvent_def emitRollbackNormalEvent_def
    updateDeploymentAndClearRollbackTo_def Let_def call_defs
  by (intro emits_intros syncs_getAll) simp_all

lemma syncs_cleanupUnhealthy: "emits syncRequest (cleanupUnhealthy_from L V d m c rss)"
  by (induction rss arbitrary: c) (auto simp: Let_def intro!: emits_intros syncs_scaleAndRecord)

lemma syncs_scaleDownOld: "emits syncRequest (scaleDownOld_from L V d m c rss)"
  by (induction rss arbitrary: c) (auto simp: Let_def intro!: emits_intros syncs_scaleAndRecord)

lemma syncs_rolling: "emits syncRequest (rolloutRolling L V d rsList)"
  unfolding rolloutRolling_def reconcileNewReplicaSet_def reconcileOldReplicaSets_def cleanupUnhealthyReplicas_def
    scaleDownOldReplicaSetsForRollingUpdate_def Let_def
  by (intro emits_intros syncs_getAll syncs_scaleAndRecord syncs_rolloutStatus syncs_cleanup syncs_cleanupUnhealthy
      syncs_scaleDownOld)

lemma syncs_recreate: "emits syncRequest (rolloutRecreate L V d rsList podMap)"
proof -
  have "emits syncRequest (scaleDownRecreate_from L V d b rss)" for d b rss
    by (rule emits_mono [OF emits_scaleDownRecreate]) (auto intro: scales_syncRequest)
  then show ?thesis
    unfolding rolloutRecreate_def scaleDownOldReplicaSetsForRecreate_def scaleUpNewReplicaSetForRecreate_def Let_def
    by (intro emits_intros syncs_getAll syncs_scaleAndRecord syncs_rolloutStatus syncs_cleanup)
qed

lemma syncs_claim: "emits syncRequest (getReplicaSetsForDeployment dc d)"
proof -
  have "emits syncRequest (ClaimReplicaSets (refManagerFor dc d selector) rsList)" for selector rsList
  proof (rule emits_mono [OF recheck.emits_ClaimReplicaSets])
    show "syncRequest q" if "claimRequest (refManagerFor dc d selector) rsList q" for q
      using that by (cases q) (auto simp: claimRequest_def adoptRequest_def releaseRequest_def)
  qed
  then show ?thesis
    unfolding getReplicaSetsForDeployment_def by (intro emits_intros)
qed

lemma syncs_syncDeployment: "emits syncRequest (syncDeployment dc key)"
  unfolding syncDeployment_def syncSelectingAll_def syncOwned_def syncStrategy_def getPodMapForDeployment_def
    eventf_def updateDeploymentStatus_def
  by (intro emits_intros syncs_claim syncs_sync syncs_checkPaused syncs_rollback syncs_isScalingEvent syncs_rolling syncs_recreate)
    simp_all

section \<open>Retries end\<close>

text \<open>
  The count of the rate limiter as the work queue documents it: how often the key was added with a delay since it was last
  forgotten.
\<close>

definition requeues :: "string \<Rightarrow> (request \<times> bool) list \<Rightarrow> int" where
  "requeues key h = int (length (filter (\<lambda>(q, ok). q = QueueAddRateLimited key)
     (takeWhile (\<lambda>(q, ok). q \<noteq> QueueForget key) (rev h))))"

lemma requeues_append:
  assumes "\<forall>ok. (QueueForget key, ok) \<notin> set h'"
  shows "requeues key (h @ h') = requeues key h + int (length (filter (\<lambda>(q, ok). q = QueueAddRateLimited key) h'))"
proof -
  have "takeWhile (\<lambda>(q, ok). q \<noteq> QueueForget key) (rev (h @ h'))
      = rev h' @ takeWhile (\<lambda>(q, ok). q \<noteq> QueueForget key) (rev h)"
    using assms by (auto intro!: takeWhile_append2)
  then show ?thesis by (simp add: requeues_def rev_filter [symmetric] add.commute)
qed

text \<open>
  A key whose sync fails again and again, with an error that is worth a retry: \<open>n\<close> rounds of a worker on that key, and
  between them anything else that happens to the cluster and the queue but does not forget the key (events, other workers on
  other keys, the passing of time).
\<close>

inductive attempts :: "'w deploymentController \<Rightarrow> string \<Rightarrow> nat \<Rightarrow> ('w, request) world \<Rightarrow> ('w, request) world \<Rightarrow> bool"
  for dc key where
  start: "attempts dc key 0 s s"
| other: "attempts dc key n s s' \<Longrightarrow> hist s'' = hist s' @ h \<Longrightarrow> \<forall>ok. (QueueForget key, ok) \<notin> set h \<Longrightarrow> attempts dc key n s s''"
| attempt: "attempts dc key n s s' \<Longrightarrow> dc_queue_Get dc (srv s') = (Some key, v) \<Longrightarrow>
    syncDeployment dc key (s'\<lparr>srv := v\<rparr>) = (Inl e, s1) \<Longrightarrow> \<not> is_panic e \<Longrightarrow>
    ''NamespaceTerminating'' \<notin> set (error_causes e) \<Longrightarrow>
    dc_queue_NumRequeues dc key (srv s1) = (requeues key (hist s1), v1) \<Longrightarrow>
    processNextWorkItem dc s' = (r, s'') \<Longrightarrow> attempts dc key (Suc n) s s''"

lemma attempts_hist:
  assumes "attempts dc key n s s'"
  shows "\<exists>h. hist s' = hist s @ h \<and> ((QueueForget key, True) \<in> set h
     \<or> (\<forall>ok. (QueueForget key, ok) \<notin> set h) \<and> int n \<le> requeues key (hist s') \<and> n \<le> 15)"
  using assms
proof induction
  case (start s)
  then show ?case by (simp add: requeues_def)
next
  case (other n s s' s'' h)
  then show ?case by (auto simp: requeues_append)
next
  case (attempt n s s' v e s1 v1 r s'')
  then obtain h where h: "hist s' = hist s @ h" by blast
  let ?s = "s'\<lparr>srv := v\<rparr>"
  obtain g where "hist (snd (syncDeployment dc key ?s)) = hist ?s @ g" "list_all (\<lambda>(q, ok). syncRequest q) g"
    using syncs_syncDeployment by (rule emitsE)
  then have g: "hist s1 = hist s' @ g" and sync: "\<forall>ok. (QueueForget key, ok) \<notin> set g"
    using attempt.hyps(3) by (auto simp: list_all_iff)
  note step = processNextWorkItem_settles [OF attempt.hyps(2,3,6,7), THEN conjunct1]
  show ?case
  proof (cases "requeues key (hist s1) < 15")
    case True
    then have s'': "hist s'' = hist s' @ (g @ [(QueueAddRateLimited key, True), (QueueDone key, True)])"
      by (simp add: step g attempt.hyps(4,5))
    have more: "requeues key (hist s') + 1 \<le> requeues key (hist s'')"
      unfolding s'' using sync by (subst requeues_append) auto
    moreover have "requeues key (hist s') < 15"
      using True sync by (simp add: g requeues_append)
    ultimately show ?thesis using attempt.IH sync by (auto simp: s'')
  next
    case False
    then show ?thesis by (simp add: step g h attempt.hyps(4,5))
  qed
qed

text \<open>
  C37. Retries end: a key whose sync keeps failing is dropped from the queue's rate limiter by its sixteenth attempt at
  the latest, whatever events, other workers and the cluster do in between.
\<close>

theorem failing_key_dropped:
  assumes "attempts dc key n s s'" and "16 \<le> n"
  shows "(QueueForget key, True) \<in> set (new_requests s s')"
  using attempts_hist [OF assms(1)] assms(2) by (auto simp: new_requests_append)

text \<open>A queue whose state is the count of its rate limiter, and caches that cannot be read.\<close>

definition retryDC0 :: "int deploymentController" where
  "retryDC0 = \<lparr>dc_lib = ref_lib, dc_env = env0,
     dc_dLister_Get = \<lambda>_ _. failE (Errorf ''cache'' []), dc_dLister_List = \<lambda>_. returnE [], dc_rsLister_List = \<lambda>_. returnE [],
     dc_rsLister_Get = \<lambda>_ _. failE not_found, dc_podLister_List = \<lambda>_ _. returnE [],
     dc_queue_Get = \<lambda>v. (Some ''prod/web'', v), dc_queue_NumRequeues = \<lambda>_ v. (v, v)\<rparr>"

definition retryWorld0 :: "(int, request) world" where
  "retryWorld0 = \<lparr>srv = 0, hist = []\<rparr>"

lemma retryDC0_attempts: "\<exists>s'. attempts retryDC0 ''prod/web'' n retryWorld0 s'"
proof (induction n)
  case 0
  then show ?case using attempts.start by blast
next
  case (Suc n)
  then obtain s' where "attempts retryDC0 ''prod/web'' n retryWorld0 s'" by blast
  let ?s = "s'\<lparr>srv := requeues ''prod/web'' (hist s')\<rparr>"
  have s: "attempts retryDC0 ''prod/web'' n retryWorld0 ?s"
    by (rule attempts.other [OF \<open>attempts _ _ _ _ s'\<close>, of _ "[]"]) simp_all
  have "lib_SplitMetaNamespaceKey ref_lib ''prod/web'' = Inr (''prod'', ''web'')" by code_simp
  then have sync: "syncDeployment retryDC0 ''prod/web'' (?s\<lparr>srv := srv ?s\<rparr>) = (Inl (Errorf ''cache'' []), ?s)"
    by (simp add: syncDeployment_def retryDC0_def eff_eval)
  have "attempts retryDC0 ''prod/web'' (Suc n) retryWorld0 (snd (processNextWorkItem retryDC0 ?s))"
    by (rule attempts.attempt [OF s _ sync _ _ _ prod.collapse [symmetric]]) (simp_all add: retryDC0_def)
  then show ?case by blast
qed

theorem failing_key_dropped_witness:
  "\<exists>s'. attempts retryDC0 ''prod/web'' 16 retryWorld0 s' \<and> (QueueForget ''prod/web'', True) \<in> set (new_requests retryWorld0 s')"
  using retryDC0_attempts [of 16] failing_key_dropped [of retryDC0 "''prod/web''" 16] by auto

end
