(* ===== verification/Go_ParseFloat.thy ===== *)
theory Go_ParseFloat
  imports Go_Library Float64
begin

text \<open>
  \<open>strconv.ParseFloat(s, 64)\<close>: decimal and hexadecimal literals with their exponents and underscores, and the names of
  the infinities and of NaN. The digits are read into an exact rational, which is rounded once (\<open>fl64\<close>), as the library
  promises for every literal; a value beyond the largest float is an error of its own. \<open>ParseFloat_FormatInt\<close> shows that
  integers up to the precision of the format are read exactly.
\<close>

definition lower :: "char \<Rightarrow> char" where
  "lower c = (if 65 \<le> (of_char c :: nat) \<and> (of_char c :: nat) \<le> 90 then char_of ((of_char c :: nat) + 32) else c)"

definition is_hex :: "char \<Rightarrow> bool" where
  "is_hex c \<longleftrightarrow> is_digit c \<or> 97 \<le> (of_char (lower c) :: nat) \<and> (of_char (lower c) :: nat) \<le> 102"

definition hex_val :: "char \<Rightarrow> nat" where
  "hex_val c = (if is_digit c then of_char c - 48 else of_char (lower c) - 87)"

section \<open>The mantissa and the exponent\<close>

record mantissa =
  mant_val :: int
  mant_frac :: nat
  mant_dot :: bool
  mant_digits :: bool

fun read_mant :: "int \<Rightarrow> mantissa \<Rightarrow> string \<Rightarrow> mantissa \<times> string" where
  "read_mant base a [] = (a, [])"
| "read_mant base a (c # cs) =
     (if c = CHR ''_'' then read_mant base a cs
      else if c = CHR ''.'' then
        (if mant_dot a then (a, c # cs) else read_mant base (a\<lparr>mant_dot := True\<rparr>) cs)
      else if is_digit c \<or> base = 16 \<and> is_hex c then
        read_mant base (a\<lparr>mant_val := base * mant_val a + int (hex_val c), mant_digits := True,
          mant_frac := mant_frac a + (if mant_dot a then 1 else 0)\<rparr>) cs
      else (a, c # cs))"

text \<open>The digits of an exponent stop counting at 10000, which is far beyond the range.\<close>

fun read_exp :: "nat \<Rightarrow> string \<Rightarrow> nat \<times> string" where
  "read_exp e [] = (e, [])"
| "read_exp e (c # cs) =
     (if c = CHR ''_'' then read_exp e cs
      else if is_digit c then read_exp (if e < 10000 then 10 * e + (of_char c - 48) else e) cs
      else (e, c # cs))"

definition strip_sign :: "string \<Rightarrow> bool \<times> string" where
  "strip_sign s = (case s of
     [] \<Rightarrow> (False, [])
   | c # cs \<Rightarrow> if c = CHR ''-'' then (True, cs) else if c = CHR ''+'' then (False, cs) else (False, s))"

definition starts_digit :: "string \<Rightarrow> bool" where
  "starts_digit s = (case s of [] \<Rightarrow> False | c # cs \<Rightarrow> is_digit c)"

text \<open>The exponent after the mantissa; it has to reach the end of the text. A hexadecimal literal needs one.\<close>

definition exponent_of :: "int \<Rightarrow> string \<Rightarrow> int option" where
  "exponent_of base rest = (case rest of
     [] \<Rightarrow> if base = 16 then None else Some 0
   | c # cs \<Rightarrow>
      (if lower c \<noteq> (if base = 16 then CHR ''p'' else CHR ''e'') then None
       else let (neg, ds) = strip_sign cs in
         if \<not> starts_digit ds then None
         else (case read_exp 0 ds of (e, r) \<Rightarrow>
           if r \<noteq> [] then None else Some (if neg then - int e else int e))))"

text \<open>\<open>underscoreOK\<close>: an underscore stands between digits, or between the prefix of a base and a digit.\<close>

datatype before = Start | Digit | Under | Other

fun under_from :: "bool \<Rightarrow> before \<Rightarrow> string \<Rightarrow> bool" where
  "under_from hex i [] = (i \<noteq> Under)"
| "under_from hex i (c # cs) =
     (if is_digit c \<or> hex \<and> is_hex c then under_from hex Digit cs
      else if c = CHR ''_'' then i = Digit \<and> under_from hex Under cs
      else i \<noteq> Under \<and> under_from hex Other cs)"

definition has_prefix :: "char list \<Rightarrow> string \<Rightarrow> bool" where
  "has_prefix ls s = (case s of z # b # cs \<Rightarrow> z = CHR ''0'' \<and> lower b \<in> set ls | _ \<Rightarrow> False)"

definition underscoreOK :: "string \<Rightarrow> bool" where
  "underscoreOK s = (let t = snd (strip_sign s) in
     if has_prefix ''box'' t then under_from (has_prefix ''x'' t) Digit (drop 2 t) else under_from False Start t)"

section \<open>The conversion\<close>

definition scaled :: "int \<Rightarrow> int \<Rightarrow> int \<Rightarrow> rat" where
  "scaled base m e = (if 0 \<le> e then of_int (m * base ^ nat e) else of_int m / of_int (base ^ nat (- e)))"

definition special_float :: "string \<Rightarrow> float64 option" where
  "special_float s = (let t = map lower (snd (strip_sign s)) in
     if t = ''inf'' \<or> t = ''infinity'' then Some (if fst (strip_sign s) then NegInf else PosInf)
     else if map lower s = ''nan'' then Some NaN else None)"

text \<open>The exact value of a literal, if the text is one.\<close>

definition readFloat :: "string \<Rightarrow> rat option" where
  "readFloat s =
     (let (neg, t) = strip_sign s;
          hex = (length t > 2 \<and> has_prefix ''x'' t);
          base = (if hex then 16 else 10);
          (a, rest) = read_mant base \<lparr>mant_val = 0, mant_frac = 0, mant_dot = False, mant_digits = False\<rparr>
            (if hex then drop 2 t else t)
      in if \<not> mant_digits a then None
         else case exponent_of base rest of
             None \<Rightarrow> None
           | Some e \<Rightarrow>
               (if CHR ''_'' \<in> set s \<and> \<not> underscoreOK s then None
                else let x = (if hex then scaled 2 (mant_val a) (e - 4 * int (mant_frac a))
                              else scaled 10 (mant_val a) (e - int (mant_frac a)))
                     in Some (if neg then - x else x)))"

definition numError :: "string \<Rightarrow> string \<Rightarrow> error" where
  "numError s what = Errorf ''strconv.ParseFloat: parsing %q: %s'' [s, what]"

definition ParseFloat :: "string \<Rightarrow> error + float64" where
  "ParseFloat s = (case special_float s of
     Some f \<Rightarrow> Inr f
   | None \<Rightarrow> (case readFloat s of
       None \<Rightarrow> Inl (numError s ''invalid syntax'')
     | Some x \<Rightarrow> (case fl64 x of
         Fin y \<Rightarrow> Inr (Fin y)
       | _ \<Rightarrow> Inl (numError s ''value out of range''))))"

section \<open>Integers are read exactly\<close>

lemma digit_lower: "is_digit c \<Longrightarrow> lower c = c"
  by (simp add: is_digit_def lower_def)

lemma digit_not:
  "is_digit c \<Longrightarrow> c \<noteq> CHR ''-'' \<and> c \<noteq> CHR ''+'' \<and> c \<noteq> CHR ''_'' \<and> c \<noteq> CHR ''.'' \<and> c \<noteq> CHR ''i'' \<and> c \<noteq> CHR ''n'' \<and> c \<noteq> CHR ''x''"
  by (auto simp: is_digit_def)

lemma read_mant_digits:
  assumes "list_all is_digit ds" and "\<not> mant_dot a"
  shows "read_mant 10 a ds = (a\<lparr>mant_val := foldl (\<lambda>v c. 10 * v + int (of_char c - 48)) (mant_val a) ds,
     mant_digits := mant_digits a \<or> ds \<noteq> []\<rparr>, [])"
  using assms
proof (induction ds arbitrary: a)
  case (Cons c cs)
  then show ?case using digit_not [of c] by (simp add: hex_val_def)
qed simp

lemma digits_val_int:
  "foldl (\<lambda>v c. 10 * v + int (of_char c - 48)) (int v) ds = int (foldl (\<lambda>v c. 10 * v + (of_char c - 48)) v ds)"
proof (induction ds arbitrary: v)
  case (Cons c cs)
  from Cons.IH [of "10 * v + (of_char c - 48)"] show ?case by simp
qed simp

lemma strip_sign_FormatInt: "strip_sign (FormatInt i) = (i < 0, show_nat (nat \<bar>i\<bar>))"
proof (cases "i < 0")
  case False
  obtain c cs where s: "show_nat (nat i) = c # cs" using show_nat_nonempty by (cases "show_nat (nat i)") auto
  from digit_not [OF hd_show_nat [OF s]] s False show ?thesis by (simp add: FormatInt_def strip_sign_def)
qed (simp add: FormatInt_def strip_sign_def)

lemma show_nat_plain: "show_nat n = c # cs \<Longrightarrow> is_digit c \<and> list_all is_digit cs"
  using show_nat_digits [of n] by simp

lemma readFloat_FormatInt: "readFloat (FormatInt i) = Some (of_int i)"
proof -
  obtain c cs where s: "show_nat (nat \<bar>i\<bar>) = c # cs" using show_nat_nonempty by (cases "show_nat (nat \<bar>i\<bar>)") auto
  have ds: "list_all is_digit (show_nat (nat \<bar>i\<bar>))" and val: "digits_val (show_nat (nat \<bar>i\<bar>)) = nat \<bar>i\<bar>"
    using show_nat_digits by simp_all
  have hex: "\<not> has_prefix ''x'' (show_nat (nat \<bar>i\<bar>))"
    using show_nat_plain [OF s] digit_lower digit_not by (auto simp: s has_prefix_def split: list.split)
  have "\<not> is_digit CHR ''_''" by (simp add: is_digit_def)
  then have "CHR ''_'' \<notin> set (show_nat k)" for k using show_nat_digits [of k] by (metis list_all_iff)
  then have under: "CHR ''_'' \<notin> set (FormatInt i)" by (simp add: FormatInt_def)
  from val have "foldl (\<lambda>v c. 10 * v + int (of_char c - 48)) 0 (show_nat (nat \<bar>i\<bar>)) = \<bar>i\<bar>"
    using digits_val_int [of 0 "show_nat (nat \<bar>i\<bar>)"] by (simp add: digits_val_def)
  with hex under show ?thesis
    by (simp add: readFloat_def strip_sign_FormatInt read_mant_digits [OF ds] exponent_of_def scaled_def Let_def)
qed

lemma ParseFloat_FormatInt:
  assumes "\<bar>i\<bar> < 2 ^ 53"
  shows "ParseFloat (FormatInt i) = Inr (Fin (of_int i))"
proof -
  obtain c cs where s: "show_nat (nat \<bar>i\<bar>) = c # cs" using show_nat_nonempty by (cases "show_nat (nat \<bar>i\<bar>)") auto
  then have c: "is_digit c" using show_nat_plain by blast
  have "hd (map lower (FormatInt i)) \<noteq> CHR ''n''"
    using s digit_not [OF c] digit_lower [OF c] by (cases "i < 0") (simp_all add: FormatInt_def lower_def [of "CHR ''-''"])
  then have "special_float (FormatInt i) = None"
    using digit_not [OF c] by (auto simp: special_float_def strip_sign_FormatInt s digit_lower [OF c])
  with fl64_int [OF assms] show ?thesis by (simp add: ParseFloat_def readFloat_FormatInt)
qed

end
