(* ===== verification/Analysis_Run.thy ===== *)
theory Analysis_Run
  imports Cluster Go_ParseFloat
begin

text \<open>
  The AnalysisRun reconciler (\<open>pkg/controller/analysis/controller.go\<close>), the evaluation of conditions
  (\<open>evaluator.go\<close>) and the Experiment reconciler (\<open>pkg/controller/experiment/controller.go\<close>). The
  expression language, the rendering of a sample for display and the metric backend are
  parameters; \<open>any\<close> values are the datatype \<open>goValue\<close>.
\<close>

section \<open>Values and expressions\<close>

datatype goValue = VNil | VBool bool | VFloat float64 | VInt int | VString string
  | VFloats "float64 list" | VInts "int list" | VStrings "string list" | VOther string

text \<open>
  \<open>xl_Compile\<close> and \<open>xl_Run\<close> are \<open>expr.Compile\<close> and \<open>vm.Run\<close> of \<open>expr-lang/expr\<close> on the environment that binds
  \<open>result\<close>; \<open>xl_Format\<close> is the text of \<open>formatValue\<close>'s \<open>FormatFloat\<close> and \<open>%v\<close>.
\<close>

record exprLib =
  xl_Compile :: "string \<Rightarrow> goValue \<Rightarrow> string res"
  xl_Run :: "string \<Rightarrow> goValue \<Rightarrow> goValue res"
  xl_Format :: "goValue \<Rightarrow> string"

datatype exprResult = ExprMatched | ExprNotMatched | ExprError

definition normalizeResult :: "goValue \<Rightarrow> goValue" where
  "normalizeResult v = (case v of
     VString s \<Rightarrow> (case ParseFloat s of Inr f \<Rightarrow> VFloat f | Inl e \<Rightarrow> VString s)
   | VInts ns \<Rightarrow> VFloats (map f64_of_int ns)
   | VStrings ss \<Rightarrow> (case mapR ParseFloat ss of Inr fs \<Rightarrow> VFloats fs | Inl e \<Rightarrow> VStrings ss)
   | _ \<Rightarrow> v)"

definition truthy :: "goValue \<Rightarrow> bool res" where
  "truthy v = (case v of
     VBool b \<Rightarrow> Inr b
   | VFloat f \<Rightarrow> Inr (f \<noteq> Fin 0)
   | VInt n \<Rightarrow> Inr (n \<noteq> 0)
   | VString s \<Rightarrow> Inr (s \<noteq> [])
   | VNil \<Rightarrow> Inr False
   | _ \<Rightarrow> Inl (Errorf ''expression must evaluate to bool or number'' []))"

definition blank :: "string \<Rightarrow> bool" where
  "blank s = list_all (\<lambda>c. c \<in> {CHR '' '', CHR 0x09, CHR 0x0A, CHR 0x0B, CHR 0x0C, CHR 0x0D}) s"

text \<open>The result, with the error the source returns beside \<open>ExprError\<close>.\<close>

definition Evaluate :: "exprLib \<Rightarrow> string \<Rightarrow> goValue \<Rightarrow> exprResult \<times> error option" where
  "Evaluate X source result =
     (if blank source then (ExprNotMatched, None)
      else
        let env = normalizeResult result in
        case xl_Compile X source env of
          Inl e \<Rightarrow> (ExprError, Some (Wrapf ''compile %q: %w'' [source] e))
        | Inr program \<Rightarrow>
           (case xl_Run X program env of
              Inl e \<Rightarrow> (ExprError, Some (Wrapf ''eval %q: %w'' [source] e))
            | Inr out \<Rightarrow>
               (case truthy out of
                  Inl e \<Rightarrow> (ExprError, Some e)
                | Inr matched \<Rightarrow> (if matched then ExprMatched else ExprNotMatched, None))))"

section \<open>Metrics of a run\<close>

definition isTerminalPhase :: "string \<Rightarrow> bool" where
  "isTerminalPhase phase = (phase \<in> {''Successful'', ''Failed'', ''Error'', ''Inconclusive''})"

text \<open>\<open>byName\<close> is filled in order, so a later result of a name wins.\<close>

definition ensureMetricResults :: "metric list \<Rightarrow> metricResult list \<Rightarrow> metricResult list" where
  "ensureMetricResults metrics existing =
     map (\<lambda>m. case map_of (rev (map (\<lambda>e. (mres_Name e, e)) existing)) (met_Name m) of
            Some e \<Rightarrow> e
          | None \<Rightarrow> \<lparr>mres_Name = met_Name m, mres_Phase = ''Pending'', mres_Measurements = [],
              mres_Count = 0, mres_Successful = 0, mres_Failed = 0, mres_Inconclusive = 0,
              mres_Error = 0, mres_Message = []\<rparr>) metrics"

definition sampleInterval :: "metric \<Rightarrow> duration" where
  "sampleInterval m = (case met_Interval m of None \<Rightarrow> 10 * Second
     | Some d \<Rightarrow> (if d > 0 then d else 10 * Second))"

definition isMetricDue :: "time \<Rightarrow> metric \<Rightarrow> metricResult \<Rightarrow> time option \<Rightarrow> bool \<times> duration" where
  "isMetricDue now m mr runStart =
     (let delayed = (case (met_InitialDelay m, runStart) of
            (Some d, Some s) \<Rightarrow> (if now < s + d then Some (time_Sub (s + d) now) else None)
          | _ \<Rightarrow> None)
      in case delayed of
           Some w \<Rightarrow> (False, w)
         | None \<Rightarrow>
            (if mres_Measurements mr = [] then (True, 0)
             else let nextAt = meas_FinishedAt (last (mres_Measurements mr)) + sampleInterval m
                  in if now < nextAt then (False, time_Sub nextAt now) else (True, 0)))"

definition scaledOr :: "lib \<Rightarrow> intOrString option \<Rightarrow> int \<Rightarrow> int" where
  "scaledOr L p dflt = (case p of None \<Rightarrow> dflt
     | Some _ \<Rightarrow> (case lib_GetScaledValue L p 100 True of Inl _ \<Rightarrow> dflt | Inr v \<Rightarrow> wrap32 v))"

definition consecutiveErrors :: "measurement list \<Rightarrow> int" where
  "consecutiveErrors ms = wrap32 (int (length (takeWhile (\<lambda>x. meas_Phase x = ''Error'') (rev ms))))"

definition derivePerMetricPhase :: "lib \<Rightarrow> metric \<Rightarrow> metricResult \<Rightarrow> string" where
  "derivePerMetricPhase L m mr =
     (let failureLimit = scaledOr L (met_FailureLimit m) 0;
          errorLimit = scaledOr L (met_ConsecutiveErrorLimit m) 4
      in if consecutiveErrors (mres_Measurements mr) > errorLimit then ''Error''
         else if mres_Failed mr > failureLimit then ''Failed''
         else case met_Count m of
             None \<Rightarrow> ''Running''
           | Some c \<Rightarrow> (case lib_GetScaledValue L (Some c) 100 True of
               Inl _ \<Rightarrow> ''Running''
             | Inr v \<Rightarrow>
                (if wrap32 (mres_Successful mr + mres_Failed mr) \<ge> wrap32 v
                 then (if mres_Failed mr > 0 then ''Failed'' else ''Successful'')
                 else ''Running'')))"

fun aggregate_from :: "bool \<Rightarrow> bool \<Rightarrow> string list \<Rightarrow> metricResult list \<Rightarrow> string" where
  "aggregate_from anyRunning sawInconclusive dryRun [] =
     (if anyRunning then ''Running'' else if sawInconclusive then ''Inconclusive'' else ''Successful'')"
| "aggregate_from anyRunning sawInconclusive dryRun (mr # rest) =
     (if mres_Phase mr = ''Failed'' then
        (if mres_Name mr \<notin> set dryRun then ''Failed''
         else aggregate_from anyRunning sawInconclusive dryRun rest)
      else if mres_Phase mr = ''Error'' then
        (if mres_Name mr \<notin> set dryRun then ''Error''
         else aggregate_from anyRunning sawInconclusive dryRun rest)
      else if mres_Phase mr = ''Inconclusive'' then aggregate_from anyRunning True dryRun rest
      else if mres_Phase mr \<in> {''Running'', ''Pending'', []} then
        aggregate_from True sawInconclusive dryRun rest
      else aggregate_from anyRunning sawInconclusive dryRun rest)"

definition aggregatePhase :: "metricResult list \<Rightarrow> string list \<Rightarrow> string" where
  "aggregatePhase results dryRun = aggregate_from False False dryRun results"

definition formatValue :: "exprLib \<Rightarrow> goValue \<Rightarrow> string" where
  "formatValue X v = (case v of VString s \<Rightarrow> s | _ \<Rightarrow> xl_Format X v)"

section \<open>Sampling\<close>

record 'w analysisReconciler =
  an_lib :: lib
  an_expr :: exprLib
  an_env :: "'w env"
  an_Query :: "prometheusProvider option \<Rightarrow> ('w, goValue) eff"

definition dispatch :: "'w analysisReconciler \<Rightarrow> metricProvider \<Rightarrow> ('w, goValue) io" where
  "dispatch A p =
     (if mp_Type p = ''prometheus'' then callE (MetricQuery (mp_Prometheus p)) (an_Query A (mp_Prometheus p))
      else failE (Errorf ''analysis: provider %q not implemented in this build'' [mp_Type p]))"

text \<open>The outcome of a sample: the phase and message of the measurement and the counter it bumps.\<close>

definition classify :: "exprLib \<Rightarrow> metric \<Rightarrow> goValue \<Rightarrow> string \<times> string" where
  "classify X m value =
     (let successMatch = fst (Evaluate X (met_SuccessCondition m) value);
          failureMatch = fst (Evaluate X (met_FailureCondition m) value)
      in if successMatch = ExprMatched then (''Successful'', [])
         else if failureMatch = ExprMatched then (''Failed'', [])
         else if successMatch = ExprError \<and> failureMatch = ExprError then
           (''Inconclusive'', ''both SuccessCondition and FailureCondition failed to evaluate'')
         else (''Inconclusive'', []))"

definition addMeasurement :: "lib \<Rightarrow> metric \<Rightarrow> measurement \<Rightarrow> metricResult \<Rightarrow> metricResult" where
  "addMeasurement L m x mr =
     (let bump = (\<lambda>p n. if meas_Phase x = p then wrap32 (n + 1) else n);
          mr1 = mr\<lparr>mres_Measurements := mres_Measurements mr @ [x],
            mres_Count := wrap32 (mres_Count mr + 1),
            mres_Successful := bump ''Successful'' (mres_Successful mr),
            mres_Failed := bump ''Failed'' (mres_Failed mr),
            mres_Inconclusive := bump ''Inconclusive'' (mres_Inconclusive mr),
            mres_Error := bump ''Error'' (mres_Error mr)\<rparr>
      in mr1\<lparr>mres_Phase := derivePerMetricPhase L m mr1\<rparr>)"

definition measured :: "exprLib \<Rightarrow> metric \<Rightarrow> time \<Rightarrow> time \<Rightarrow> goValue res \<Rightarrow> measurement" where
  "measured X m started finished r = (case r of
     Inl err \<Rightarrow> \<lparr>meas_StartedAt = started, meas_FinishedAt = finished, meas_Phase = ''Error'',
       meas_Value = [], meas_Message = error_text err\<rparr>
   | Inr value \<Rightarrow> (case classify X m value of (phase, msg) \<Rightarrow>
       \<lparr>meas_StartedAt = started, meas_FinishedAt = finished, meas_Phase = phase,
        meas_Value = formatValue X value, meas_Message = msg\<rparr>))"

definition sampleMetric :: "'w analysisReconciler \<Rightarrow> metric \<Rightarrow> metricResult \<Rightarrow> ('w, metricResult) io" where
  "sampleMetric A m mr =
     bindE (timeNow (an_env A)) (\<lambda>started.
     bindE (tryE (dispatch A (met_Provider m))) (\<lambda>r.
     bindE (timeNow (an_env A)) (\<lambda>finished.
     returnE (addMeasurement (an_lib A) m (measured (an_expr A) m started finished r) mr))))"

fun sampleMetrics ::
    "'w analysisReconciler \<Rightarrow> time option \<Rightarrow> duration \<Rightarrow> (metric \<times> metricResult) list \<Rightarrow>
     ('w, metricResult list \<times> duration) io" where
  "sampleMetrics A startedAt delay [] = returnE ([], delay)"
| "sampleMetrics A startedAt delay ((m, mr) # rest) =
     (if isTerminalPhase (mres_Phase mr) then
        bindE (sampleMetrics A startedAt delay rest) (\<lambda>(mrs, d). returnE (mr # mrs, d))
      else bindE (timeNow (an_env A)) (\<lambda>now.
        case isMetricDue now m mr startedAt of (due, until) \<Rightarrow>
          if \<not> due then
            bindE (sampleMetrics A startedAt (if until < delay then until else delay) rest)
              (\<lambda>(mrs, d). returnE (mr # mrs, d))
          else bindE (sampleMetric A m mr) (\<lambda>mr'.
            bindE (sampleMetrics A startedAt
              (if sampleInterval m < delay then sampleInterval m else delay) rest)
              (\<lambda>(mrs, d). returnE (mr' # mrs, d)))))"

section \<open>Reconciling a run\<close>

definition with_RunStatus :: "(analysisRunStatus \<Rightarrow> analysisRunStatus) \<Rightarrow> analysisRun \<Rightarrow> analysisRun" where
  "with_RunStatus f r = r\<lparr>run_Status := f (run_Status r)\<rparr>"

lemma with_RunStatus_sel [simp]:
  "run_Status (with_RunStatus f r) = f (run_Status r)" "run_Spec (with_RunStatus f r) = run_Spec r"
  "run_Meta (with_RunStatus f r) = run_Meta r"
  by (simp_all add: with_RunStatus_def)

definition terminate :: "'w analysisReconciler \<Rightarrow> analysisRun \<Rightarrow> ('w, duration) io" where
  "terminate A run =
     (if isTerminalPhase (run_Phase run) then returnE 0
      else bindE (timeNow (an_env A)) (\<lambda>now.
        bindE (updateAnalysisRunStatus (an_env A) (with_RunStatus (\<lambda>st. st\<lparr>arst_Phase := ''Failed'',
          arst_Message := ''terminated via spec.terminate'', arst_CompletedAt := Some now\<rparr>) run)) (\<lambda>_.
        returnE 0)))"

definition startRun :: "'w analysisReconciler \<Rightarrow> analysisRun \<Rightarrow> ('w, analysisRun) io" where
  "startRun A run =
     (if run_Phase run = [] \<or> run_Phase run = ''Pending'' then
        bindE (timeNow (an_env A)) (\<lambda>now.
        returnE (with_RunStatus (\<lambda>st. st\<lparr>arst_Phase := ''Running'',
          arst_StartedAt := (case arst_StartedAt st of None \<Rightarrow> Some now | Some t \<Rightarrow> Some t)\<rparr>) run))
      else returnE run)"

definition reconcileRun :: "'w analysisReconciler \<Rightarrow> analysisRun \<Rightarrow> ('w, duration) io" where
  "reconcileRun A run =
     (if arspec_Terminate (run_Spec run) then terminate A run
      else if isTerminalPhase (run_Phase run) then returnE 0
      else
        bindE (startRun A run) (\<lambda>p1.
        let results = ensureMetricResults (arspec_Metrics (run_Spec p1)) (arst_MetricResults (run_Status p1)) in
        bindE (sampleMetrics A (arst_StartedAt (run_Status p1)) (24 * Hour)
          (zip (arspec_Metrics (run_Spec p1)) results)) (\<lambda>(results', delay).
        let phase = aggregatePhase results' (map dry_MetricName (arspec_DryRun (run_Spec p1)));
            p2 = with_RunStatus (\<lambda>st. st\<lparr>arst_MetricResults := results', arst_Phase := phase\<rparr>) p1
        in bindE (if isTerminalPhase phase then
                    bindE (timeNow (an_env A)) (\<lambda>now.
                    returnE (with_RunStatus (\<lambda>st. st\<lparr>arst_CompletedAt := Some now\<rparr>) p2))
                  else returnE p2) (\<lambda>p3.
           bindE (updateAnalysisRunStatus (an_env A) p3) (\<lambda>_.
           if isTerminalPhase phase then returnE 0
           else returnE (if delay < Second then Second else delay))))))"

definition reconcileAnalysis :: "'w analysisReconciler \<Rightarrow> string \<Rightarrow> string \<Rightarrow> ('w, duration) io" where
  "reconcileAnalysis A ns name =
     bindE (tryE (getAnalysisRun (an_env A) ns name)) (\<lambda>r. case r of
       Inl err \<Rightarrow> (if IsNotFound err then returnE 0 else failE err)
     | Inr run \<Rightarrow> reconcileRun A run)"

section \<open>Reconciling an experiment\<close>

definition reconcileExperiment :: "'w env \<Rightarrow> string \<Rightarrow> string \<Rightarrow> ('w, duration) io" where
  "reconcileExperiment V ns name =
     bindE (tryE (getExperiment V ns name)) (\<lambda>r. case r of
       Inl err \<Rightarrow> (if IsNotFound err then returnE 0 else failE err)
     | Inr x \<Rightarrow>
        bindE (if xst_Phase (exp_Status x) = [] then
                 updateExperimentStatus V (x\<lparr>exp_Status := (exp_Status x)\<lparr>xst_Phase := ''Pending''\<rparr>\<rparr>)
               else returnE ()) (\<lambda>_. returnE (30 * Second)))"

section \<open>Properties of analysis runs\<close>

text \<open>The counters of a metric result agree with its measurements.\<close>

definition countPhase :: "string \<Rightarrow> measurement list \<Rightarrow> int" where
  "countPhase p ms = int (length (filter (\<lambda>x. meas_Phase x = p) ms))"

definition counted :: "metricResult \<Rightarrow> bool" where
  "counted mr \<longleftrightarrow> mres_Count mr = int (length (mres_Measurements mr))
     \<and> mres_Successful mr = countPhase ''Successful'' (mres_Measurements mr)
     \<and> mres_Failed mr = countPhase ''Failed'' (mres_Measurements mr)
     \<and> mres_Inconclusive mr = countPhase ''Inconclusive'' (mres_Measurements mr)
     \<and> mres_Error mr = countPhase ''Error'' (mres_Measurements mr)"

lemma countPhase_snoc: "countPhase p (ms @ [x]) = countPhase p ms + (if meas_Phase x = p then 1 else 0)"
  by (simp add: countPhase_def)

lemma countPhase_bounds: "0 \<le> countPhase p ms" "countPhase p ms \<le> int (length ms)"
  by (simp_all add: countPhase_def)

lemma wrap32_count: "int (length ms) < MaxInt32 \<Longrightarrow> wrap32 (countPhase p ms + 1) = countPhase p ms + 1"
  using countPhase_bounds [of p ms] by (intro wrap32_id) (simp add: in_i32_def)

lemma counted_addMeasurement:
  assumes "counted mr" and "int (length (mres_Measurements mr)) < MaxInt32"
  shows "counted (addMeasurement L m x mr)"
  using assms by (auto simp: addMeasurement_def counted_def Let_def countPhase_snoc wrap32_count in_i32_def
      intro!: wrap32_id)

lemma sampleMetric_result:
  assumes "sampleMetric A m mr s = (Inr mr', s')"
  obtains t t' r started finished where "tryE (dispatch A (met_Provider m)) t = (Inr r, t')"
    and "mr' = addMeasurement (an_lib A) m (measured (an_expr A) m started finished r) mr"
  using assms by (auto simp: sampleMetric_def bindE_def timeNow_def silentE_def returnE_def split: prod.splits sum.splits)

lemma measured_phase:
  "meas_Phase (measured X m started finished r) \<in> {''Successful'', ''Failed'', ''Inconclusive'', ''Error''}"
  by (auto simp: measured_def classify_def Let_def split: sum.split)

lemma addMeasurement_sel [simp]:
  "mres_Measurements (addMeasurement L m x mr) = mres_Measurements mr @ [x]"
  "mres_Name (addMeasurement L m x mr) = mres_Name mr"
  by (simp_all add: addMeasurement_def Let_def)

text \<open>
  Sampling a metric adds one measurement and keeps its counters: the total and the counts of
  successful, failed, inconclusive and erroneous samples always agree with the recorded measurements, whether
  the query fails or its value matches either condition, both or none.
\<close>

lemma sampleMetric_counts:
  assumes "counted mr" and "int (length (mres_Measurements mr)) < MaxInt32"
    and "sampleMetric A m mr s = (Inr mr', s')"
  shows "counted mr' \<and> mres_Name mr' = mres_Name mr
     \<and> (\<exists>x. mres_Measurements mr' = mres_Measurements mr @ [x]
          \<and> meas_Phase x \<in> {''Successful'', ''Failed'', ''Inconclusive'', ''Error''})"
proof -
  from assms(3) obtain r t u where mr': "mr' = addMeasurement (an_lib A) m (measured (an_expr A) m t u r) mr"
    by (rule sampleMetric_result)
  have "counted mr'" unfolding mr' by (rule counted_addMeasurement [OF assms(1,2)])
  with measured_phase [of "an_expr A" m t u r] show ?thesis by (simp add: mr')
qed

definition exprLib0 :: exprLib where
  "exprLib0 = \<lparr>xl_Compile = (\<lambda>src v. Inr src), xl_Run = (\<lambda>p v. Inr (VBool (p = ''ok''))), xl_Format = (\<lambda>v. [])\<rparr>"

definition A0 :: "unit analysisReconciler" where
  "A0 = \<lparr>an_lib = ref_lib, an_expr = exprLib0, an_env = env0, an_Query = (\<lambda>_. returnE (VInt 1))\<rparr>"

definition result0 :: metricResult where
  "result0 = \<lparr>mres_Name = ''latency'', mres_Phase = ''Pending'', mres_Measurements = [], mres_Count = 0,
     mres_Successful = 0, mres_Failed = 0, mres_Inconclusive = 0, mres_Error = 0, mres_Message = []\<rparr>"

text \<open>The phases of metric results that decide the phase of the run.\<close>

definition failing :: "string list \<Rightarrow> metricResult \<Rightarrow> bool" where
  "failing dryRun mr \<longleftrightarrow> mres_Phase mr \<in> {''Failed'', ''Error''} \<and> mres_Name mr \<notin> set dryRun"

definition unfinished :: "metricResult \<Rightarrow> bool" where
  "unfinished mr \<longleftrightarrow> mres_Phase mr \<in> {''Running'', ''Pending'', []}"

lemma aggregate_from_Cons:
  "aggregate_from running inc dryRun (mr # rs) = (if failing dryRun mr then mres_Phase mr
     else aggregate_from (running \<or> unfinished mr) (inc \<or> mres_Phase mr = ''Inconclusive'') dryRun rs)"
  by (simp add: failing_def unfinished_def)

lemma aggregate_from_spec:
  "aggregate_from running inc dryRun rs = (case find (failing dryRun) rs of Some mr \<Rightarrow> mres_Phase mr
      | None \<Rightarrow> if running \<or> (\<exists>mr \<in> set rs. unfinished mr) then ''Running''
          else if inc \<or> (\<exists>mr \<in> set rs. mres_Phase mr = ''Inconclusive'') then ''Inconclusive'' else ''Successful'')"
proof (induction rs arbitrary: running inc)
  case (Cons mr rs)
  show ?case
    by (simp only: aggregate_from_Cons Cons.IH find.simps option.case set_simps bex_simps insert_iff
        if_distrib [of "\<lambda>x. case x of None \<Rightarrow> _ | Some y \<Rightarrow> _"] disj_assoc split: if_split)
      simp
qed simp

text \<open>
  The phase of a run from those of its metrics: it fails exactly when some metric that is not
  a dry run failed or erred; otherwise it runs exactly while some metric has not finished; otherwise it is
  Inconclusive exactly when some metric is, and else Successful. A dry-run metric can never fail a run.
\<close>

lemma aggregatePhase_outcome:
  "(aggregatePhase rs dryRun \<in> {''Failed'', ''Error''} \<longleftrightarrow> (\<exists>mr \<in> set rs. failing dryRun mr))
   \<and> (aggregatePhase rs dryRun = ''Running'' \<longleftrightarrow>
       (\<forall>mr \<in> set rs. \<not> failing dryRun mr) \<and> (\<exists>mr \<in> set rs. unfinished mr))
   \<and> (aggregatePhase rs dryRun = ''Inconclusive'' \<longleftrightarrow>
       (\<forall>mr \<in> set rs. \<not> failing dryRun mr \<and> \<not> unfinished mr) \<and> (\<exists>mr \<in> set rs. mres_Phase mr = ''Inconclusive''))
   \<and> (aggregatePhase rs dryRun = ''Successful'' \<longleftrightarrow>
       (\<forall>mr \<in> set rs. \<not> failing dryRun mr \<and> \<not> unfinished mr \<and> mres_Phase mr \<noteq> ''Inconclusive''))"
proof (cases "find (failing dryRun) rs")
  case None
  then have "\<forall>mr \<in> set rs. \<not> failing dryRun mr" by (auto simp: find_None_iff)
  with None show ?thesis by (auto simp: aggregatePhase_def aggregate_from_spec)
next
  case (Some mr)
  then have "mr \<in> set rs" "failing dryRun mr" by (auto simp: find_Some_iff)
  moreover from this have "mres_Phase mr = ''Failed'' \<or> mres_Phase mr = ''Error''" by (simp add: failing_def)
  ultimately show ?thesis using Some by (auto simp: aggregatePhase_def aggregate_from_spec)
qed

text \<open>What sampling adds: queries only, a delay no longer than before and one result per metric.\<close>

definition queries :: "(request \<times> bool) list \<Rightarrow> bool" where
  "queries g \<longleftrightarrow> (\<forall>(q, ok) \<in> set g. \<exists>p. q = MetricQuery p)"

definition sampled :: "string list \<Rightarrow> duration \<Rightarrow> (request \<times> bool) list \<Rightarrow>
    error + metricResult list \<times> duration \<Rightarrow> (request \<times> bool) list \<Rightarrow> bool" where
  "sampled names delay h r h' \<longleftrightarrow> (\<exists>g. h' = h @ g \<and> queries g)
     \<and> (\<forall>mrs d. r = Inr (mrs, d) \<longrightarrow> d \<le> delay \<and> map mres_Name mrs = names)"

lemma queries_append [simp]: "queries (g @ h) \<longleftrightarrow> queries g \<and> queries h" "queries []"
  by (auto simp: queries_def)

lemma sampled_later: "sampled names d (h @ g) r h' \<Longrightarrow> queries g \<Longrightarrow> d \<le> d' \<Longrightarrow> sampled names d' h r h'"
  unfolding sampled_def by (metis append.assoc order_trans queries_append(1))

lemma sampled_Inl: "queries g \<Longrightarrow> sampled names d h (Inl e) (h @ g)"
  by (simp add: sampled_def)

lemma sampleMetric_queries:
  "runs_at (sampleMetric A m mr) h s (\<lambda>r h'. \<exists>g. h' = h @ g \<and> queries g
     \<and> (\<forall>mr'. r = Inr mr' \<longrightarrow> mres_Name mr' = mres_Name mr))"
  unfolding sampleMetric_def dispatch_def timeNow_def Let_def
  by (auto simp: addMeasurement_def queries_def Let_def split: sum.split intro!: runs_intros)

lemma sampled_cons:
  assumes "runs_at m h s (sampled names d h)"
  shows "runs_at (bindE m (\<lambda>(mrs, e). returnE (mr # mrs, e))) h s (sampled (mres_Name mr # names) d h)"
  by (rule runs_at_bindE, rule runs_at_mono [OF assms])
    (auto simp: sampled_def split: sum.split intro!: runs_at_returnE)

lemma sampleMetrics_outcome:
  "runs_at (sampleMetrics A t delay ps) h s (sampled (map (mres_Name \<circ> snd) ps) delay h)"
proof (induction ps arbitrary: delay h s)
  case Nil
  then show ?case by (auto simp: sampled_def intro: runs_intros)
next
  case (Cons p ps)
  obtain m mr where p: "p = (m, mr)" by fastforce
  let ?Q = "sampled (mres_Name mr # map (mres_Name \<circ> snd) ps) delay h"
  have rest: "runs_at (bindE (sampleMetrics A t d ps) (\<lambda>(mrs, d). returnE (x # mrs, d))) (h @ g) s1 ?Q"
    if "d \<le> delay" "mres_Name x = mres_Name mr" "queries g" for d x g s1
    by (rule runs_at_mono [OF sampled_cons [OF Cons.IH]], rule sampled_later [OF _ that(3,1)]) (simp only: that(2))
  have rest0: "runs_at (bindE (sampleMetrics A t d ps) (\<lambda>(mrs, d). returnE (mr # mrs, d))) h s1 ?Q"
    if "d \<le> delay" for d s1
    using rest [of d mr "[]"] that by simp
  have step: "runs_at (bindE (sampleMetric A m mr) (\<lambda>mr'. bindE (sampleMetrics A t d ps)
      (\<lambda>(mrs, d). returnE (mr' # mrs, d)))) h s1 ?Q" if "d \<le> delay" for d s1
  proof (rule runs_at_bindE, rule runs_at_mono [OF sampleMetric_queries], clarify, goal_cases)
    case (1 r h' g)
    then show ?case by (cases r) (simp_all add: sampled_Inl rest that)
  qed
  have "runs_at (sampleMetrics A t delay ((m, mr) # ps)) h s ?Q"
    unfolding sampleMetrics.simps timeNow_def
  proof (intro runs_at_if runs_at_bindE [OF runs_at_silentE], goal_cases)
    case (2 r)
    show ?case
      by (cases r) (use sampled_Inl [of "[]"] in \<open>auto split: prod.split intro!: runs_at_if rest0 step\<close>)
  qed (rule rest0, simp)
  then show ?case unfolding p list.map comp_apply snd_conv .
qed

lemma ensureMetricResults_names: "map mres_Name (ensureMetricResults metrics existing) = map met_Name metrics"
proof -
  have "mres_Name e = n" if "map_of (rev (map (\<lambda>e. (mres_Name e, e)) xs)) n = Some e" for n e xs
    using map_of_SomeD [OF that] by auto
  then show ?thesis by (auto simp: ensureMetricResults_def split: option.splits)
qed

lemma length_ensureMetricResults [simp]: "length (ensureMetricResults metrics existing) = length metrics"
  by (simp add: ensureMetricResults_def)

text \<open>The end of a reconcile, after the metrics have been sampled.\<close>

definition finishedRun :: "analysisRun \<Rightarrow> duration \<Rightarrow> (request \<times> bool) list \<Rightarrow> bool" where
  "finishedRun run w h \<longleftrightarrow> (\<exists>h0 run'. h = h0 @ [(UpdateAnalysisRunStatus run', True)] \<and> queries h0
     \<and> run_Spec run' = run_Spec run
     \<and> map mres_Name (arst_MetricResults (run_Status run')) = map met_Name (arspec_Metrics (run_Spec run))
     \<and> (if isTerminalPhase (run_Phase run') then w = 0 \<and> arst_CompletedAt (run_Status run') \<noteq> None
        else Second \<le> w \<and> w \<le> 24 * Hour))"

lemma finishedRunI:
  assumes "queries h0" and "run_Spec run' = run_Spec run"
    and "map mres_Name (arst_MetricResults (run_Status run')) = map met_Name (arspec_Metrics (run_Spec run))"
    and "if isTerminalPhase (run_Phase run') then w = 0 \<and> arst_CompletedAt (run_Status run') \<noteq> None
        else Second \<le> w \<and> w \<le> 24 * Hour"
  shows "finishedRun run w (h0 @ [(UpdateAnalysisRunStatus run', True)])"
  using assms unfolding finishedRun_def by blast

lemma runs_at_finish:
  assumes "queries h" and "run_Spec p1 = run_Spec run" and "d \<le> 24 * Hour"
    and "map mres_Name mrs = map met_Name (arspec_Metrics (run_Spec run))"
    and "p2 = with_RunStatus (\<lambda>st. st\<lparr>arst_MetricResults := mrs, arst_Phase := phase\<rparr>) p1"
  shows "runs_at (bindE (if isTerminalPhase phase then
                    bindE (timeNow V) (\<lambda>now.
                    returnE (with_RunStatus (\<lambda>st. st\<lparr>arst_CompletedAt := Some now\<rparr>) p2))
                  else returnE p2) (\<lambda>p3.
           bindE (updateAnalysisRunStatus V p3) (\<lambda>_.
           if isTerminalPhase phase then returnE 0
           else returnE (if d < Second then Second else d)))) h s (\<lambda>r h'. \<forall>w. r = Inr w \<longrightarrow> finishedRun run w h')"
  using assms unfolding updateAnalysisRunStatus_def timeNow_def
  by (auto split: sum.splits intro!: runs_intros finishedRunI)

lemma runs_at_startRun:
  "runs_at (startRun A run) h s (\<lambda>r h'. h' = h \<and> (\<forall>p1. r = Inr p1 \<longrightarrow> run_Spec p1 = run_Spec run))"
  unfolding startRun_def timeNow_def by (auto split: sum.splits intro!: runs_intros)

lemma runs_at_reconcileRun:
  assumes "\<not> arspec_Terminate (run_Spec run)" and "\<not> isTerminalPhase (run_Phase run)"
  shows "runs_at (reconcileRun A run) [] s (\<lambda>r h. \<forall>w. r = Inr w \<longrightarrow> finishedRun run w h)"
  unfolding reconcileRun_def using assms
proof (simp only: if_False, intro runs_at_bindE runs_at_mono [OF runs_at_startRun], goal_cases)
  case (1 r h)
  show ?case
  proof (cases r)
    case (Inr p1)
    let ?ms = "arspec_Metrics (run_Spec p1)"
    let ?rs = "ensureMetricResults ?ms (arst_MetricResults (run_Status p1))"
    from 1 Inr have h: "h = []" and spec: "run_Spec p1 = run_Spec run" by auto
    have "map (mres_Name \<circ> snd) (zip ?ms ?rs) = map mres_Name ?rs"
      by (simp only: map_map [symmetric] map_snd_zip length_ensureMetricResults)
    then have names: "map (mres_Name \<circ> snd) (zip ?ms ?rs) = map met_Name (arspec_Metrics (run_Spec run))"
      by (simp add: ensureMetricResults_names spec)
    show ?thesis
      unfolding Inr sum.case Let_def h
    proof (intro allI runs_at_bindE runs_at_mono [OF sampleMetrics_outcome], goal_cases)
      case (1 s' r' h')
      then show ?case
        by (cases r') (auto simp: sampled_def names intro!: runs_at_finish [OF _ spec _ _ refl])
    qed
  qed simp
qed

text \<open>
  C26. One reconcile of a running analysis queries metrics and then writes the run once: the status
  it writes has exactly one result per metric of the spec, in order. If its phase is terminal the completion time is
  set and nothing is requeued; otherwise the next reconcile is asked for within one second and a day.
\<close>

theorem reconcileRun_outcome:
  assumes "\<not> arspec_Terminate (run_Spec run)" and "\<not> isTerminalPhase (run_Phase run)"
    and "reconcileRun A run s = (Inr w, s')"
  shows "\<exists>h run'. new_requests s s' = h @ [(UpdateAnalysisRunStatus run', True)] \<and> queries h
     \<and> run_Spec run' = run_Spec run
     \<and> map mres_Name (arst_MetricResults (run_Status run')) = map met_Name (arspec_Metrics (run_Spec run))
     \<and> (if isTerminalPhase (run_Phase run') then w = 0 \<and> arst_CompletedAt (run_Status run') \<noteq> None
        else Second \<le> w \<and> w \<le> 24 * Hour)"
  using runs_atD [OF runs_at_reconcileRun [OF assms(1,2)] assms(3)] by (simp add: finishedRun_def)

text \<open>Evaluation of a reconcile on the reconciler \<open>A0\<close>.\<close>

lemmas run_eval = reconcileRun_def startRun_def A0_def exprLib0_def run0_defs eff_eval ensureMetricResults_def
  isMetricDue_def sampleMetric_def dispatch_def classify_def measured_def Evaluate_def blank_def normalizeResult_def truthy_def
  addMeasurement_def derivePerMetricPhase_def aggregatePhase_def isTerminalPhase_def consecutiveErrors_def scaledOr_def
  ref_lib_def scaled_value_ref_def with_RunStatus_def Let_def

theorem reconcileRun_outcome_witness:
  "\<exists>h run'. new_requests world0 (snd (reconcileRun A0 (run0 ''r'' [metric0 ''latency'']) world0))
       = h @ [(UpdateAnalysisRunStatus run', True)]
     \<and> map mres_Name (arst_MetricResults (run_Status run')) = [''latency'']"
proof -
  let ?run = "reconcileRun A0 (run0 ''r'' [metric0 ''latency'']) world0"
  have "\<not> isl (fst ?run)" by (simp add: run_eval)
  then obtain w where "?run = (Inr w, snd ?run)" by (metis isl_def prod.collapse sum.exhaust)
  from reconcileRun_outcome [OF _ _ this] show ?thesis
    by (auto simp: run0_defs isTerminalPhase_def)
qed

text \<open>
  A finished analysis stays finished: once the phase of a run is terminal, reconciling it sends
  nothing and changes nothing, whatever its spec asks for.
\<close>

lemma reconcileRun_terminal:
  assumes "isTerminalPhase (run_Phase run)"
  shows "reconcileRun A run s = (Inr 0, s)"
  using assms by (simp add: reconcileRun_def terminate_def returnE_def)

text \<open>
  What a metric's own phase can be: it is never Inconclusive, however many samples were. It is
  Successful only when no sample at all failed, whatever failure limit is tolerated, and only when the samples that
  succeeded reach the count; it fails as soon as the failures exceed the limit.
\<close>

lemma derivePerMetricPhase_outcomes:
  "derivePerMetricPhase L m mr \<in> {''Error'', ''Failed'', ''Running'', ''Successful''}
   \<and> (derivePerMetricPhase L m mr = ''Successful'' \<longrightarrow> mres_Failed mr \<le> 0
        \<and> (\<exists>c v. met_Count m = Some c \<and> lib_GetScaledValue L (Some c) 100 True = Inr v
             \<and> wrap32 v \<le> wrap32 (mres_Successful mr + mres_Failed mr)))
   \<and> (mres_Failed mr > scaledOr L (met_FailureLimit m) 0 \<longrightarrow> derivePerMetricPhase L m mr \<in> {''Error'', ''Failed''})"
  by (auto simp: derivePerMetricPhase_def Let_def split: option.splits sum.splits)

section \<open>What a verdict rests on\<close>

text \<open>
  A metric has enough samples when none failed and the successful ones reach its count; its result is backed when the
  counters agree with the measurements and the phase Successful means that there are enough.
\<close>

definition enough :: "lib \<Rightarrow> metric \<Rightarrow> metricResult \<Rightarrow> bool" where
  "enough L m mr \<longleftrightarrow> countPhase ''Failed'' (mres_Measurements mr) = 0
     \<and> (\<exists>c v. met_Count m = Some c \<and> lib_GetScaledValue L (Some c) 100 True = Inr v
          \<and> wrap32 v \<le> countPhase ''Successful'' (mres_Measurements mr))"

definition backed :: "lib \<Rightarrow> metric \<Rightarrow> metricResult \<Rightarrow> bool" where
  "backed L m mr \<longleftrightarrow> mres_Name mr = met_Name m \<and> counted mr
     \<and> mres_Phase mr \<in> {''Pending'', ''Running'', ''Successful'', ''Failed'', ''Error''}
     \<and> (mres_Phase mr = ''Successful'' \<longrightarrow> enough L m mr)"

definition short_result :: "metricResult \<Rightarrow> bool" where
  "short_result mr \<longleftrightarrow> int (length (mres_Measurements mr)) < MaxInt32"

definition dry_names :: "analysisRun \<Rightarrow> string list" where
  "dry_names run = map dry_MetricName (arspec_DryRun (run_Spec run))"

text \<open>A sound run: its results are backed, and it is Successful only on enough samples of every metric that counts.\<close>

definition sound :: "lib \<Rightarrow> analysisRun \<Rightarrow> bool" where
  "sound L run \<longleftrightarrow> run_Phase run \<noteq> ''Inconclusive''
     \<and> (\<forall>mr \<in> set (arst_MetricResults (run_Status run)). \<exists>m \<in> set (arspec_Metrics (run_Spec run)). backed L m mr)
     \<and> (run_Phase run = ''Successful'' \<longrightarrow> (\<forall>m \<in> set (arspec_Metrics (run_Spec run)). met_Name m \<in> set (dry_names run)
          \<or> (\<exists>mr \<in> set (arst_MetricResults (run_Status run)). mres_Name mr = met_Name m \<and> enough L m mr)))"

lemma enough_derived:
  assumes "counted mr" and "int (length (mres_Measurements mr)) \<le> MaxInt32"
    and "derivePerMetricPhase L m mr = ''Successful''"
  shows "enough L m mr"
proof -
  have "in_i32 (mres_Successful mr)"
    using assms(1,2) countPhase_bounds [of "''Successful''" "mres_Measurements mr"] by (simp add: counted_def in_i32_def)
  with assms countPhase_bounds(1) [of "''Failed''" "mres_Measurements mr"] show ?thesis
    by (auto simp: derivePerMetricPhase_def enough_def counted_def Let_def split: option.splits sum.splits if_splits)
qed

lemma backed_addMeasurement:
  assumes "backed L m mr" and "short_result mr"
  shows "backed L m (addMeasurement L m x mr)"
proof -
  let ?mr = "addMeasurement L m x mr"
  have c: "counted ?mr" using assms by (auto simp: backed_def short_result_def intro: counted_addMeasurement)
  have "\<exists>mr1. ?mr = mr1\<lparr>mres_Phase := derivePerMetricPhase L m mr1\<rparr> \<and> mres_Measurements mr1 = mres_Measurements mr @ [x]"
    by (auto simp: addMeasurement_def Let_def)
  then obtain mr1 where mr1: "?mr = mr1\<lparr>mres_Phase := derivePerMetricPhase L m mr1\<rparr>" "mres_Measurements mr1 = mres_Measurements mr @ [x]"
    by blast
  have "counted mr1" using c by (simp add: mr1 counted_def)
  moreover have "int (length (mres_Measurements mr1)) \<le> MaxInt32" using assms(2) by (simp add: mr1 short_result_def)
  ultimately have "derivePerMetricPhase L m mr1 = ''Successful'' \<Longrightarrow> enough L m mr1" by (rule enough_derived)
  moreover have "derivePerMetricPhase L m mr1 \<in> {''Error'', ''Failed'', ''Running'', ''Successful''}"
    using derivePerMetricPhase_outcomes by blast
  moreover have "mres_Name ?mr = met_Name m" using assms(1) by (simp add: backed_def)
  ultimately show ?thesis using c by (auto simp: backed_def mr1(1) enough_def)
qed

lemma sampleMetrics_backed:
  assumes "sampleMetrics A t delay ps s = (Inr (mrs, d), s')" and "list_all (\<lambda>(m, mr). backed (an_lib A) m mr \<and> short_result mr) ps"
  shows "list_all2 (backed (an_lib A)) (map fst ps) mrs"
  using assms
proof (induction ps arbitrary: delay s mrs d)
  case Nil
  then show ?case by (simp add: returnE_def)
next
  case (Cons p ps)
  obtain m mr where p: "p = (m, mr)" by fastforce
  with Cons.prems have b: "backed (an_lib A) m mr" "short_result mr" by simp_all
  have sample: "backed (an_lib A) m mr'" if "sampleMetric A m mr s1 = (Inr mr', s2)" for mr' s1 s2
    using that by (elim sampleMetric_result) (simp add: backed_addMeasurement b)
  from Cons.prems(1) obtain mr' mrs' d0 d1 s1 where "mrs = mr' # mrs'" "backed (an_lib A) m mr'" "sampleMetrics A t d0 ps s1 = (Inr (mrs', d1), s')"
    by (auto simp: p b sample bindE_def timeNow_def silentE_def returnE_def split: prod.splits sum.splits if_splits)
  with Cons.IH Cons.prems(2) p show ?case by auto
qed

lemma ensureMetricResults_backed:
  assumes "distinct (map met_Name metrics)" and "\<forall>mr \<in> set existing. \<exists>m \<in> set metrics. backed L m mr"
  shows "list_all2 (backed L) metrics (ensureMetricResults metrics existing)"
proof -
  have "backed L m e" if m: "m \<in> set metrics"
    and "map_of (rev (map (\<lambda>e. (mres_Name e, e)) existing)) (met_Name m) = Some e" for m e
  proof -
    from map_of_SomeD [OF that(2)] have e: "e \<in> set existing" "mres_Name e = met_Name m" by auto
    with assms(2) obtain m' where "m' \<in> set metrics" "backed L m' e" by blast
    moreover from this e have "met_Name m' = met_Name m" by (simp add: backed_def)
    ultimately show ?thesis using assms(1) m by (metis distinct_map inj_onD)
  qed
  moreover have "backed L m \<lparr>mres_Name = met_Name m, mres_Phase = ''Pending'', mres_Measurements = [],
              mres_Count = 0, mres_Successful = 0, mres_Failed = 0, mres_Inconclusive = 0, mres_Error = 0, mres_Message = []\<rparr>" for m
    by (simp add: backed_def counted_def countPhase_def)
  ultimately show ?thesis
    by (auto simp: ensureMetricResults_def list_all2_conv_all_nth split: option.split)
qed

lemma ensureMetricResults_short:
  "list_all short_result existing \<Longrightarrow> list_all short_result (ensureMetricResults metrics existing)"
  by (auto simp: ensureMetricResults_def list_all_iff short_result_def dest!: map_of_SomeD split: option.splits)

text \<open>The verdict over backed results: never Inconclusive, and Successful only when each result is or does not count.\<close>

lemma aggregatePhase_backed:
  assumes "list_all2 (backed L) metrics mrs"
  shows "aggregatePhase mrs dryRun \<noteq> ''Inconclusive''"
    and "aggregatePhase mrs dryRun = ''Successful'' \<Longrightarrow> mr \<in> set mrs \<Longrightarrow> mres_Name mr \<in> set dryRun \<or> mres_Phase mr = ''Successful''"
proof -
  have phase: "mres_Phase mr \<in> {''Pending'', ''Running'', ''Successful'', ''Failed'', ''Error''}" if "mr \<in> set mrs" for mr
    using assms that by (auto simp: list_all2_conv_all_nth in_set_conv_nth backed_def)
  have "failing dryRun mr" "mr \<in> set mrs" if "find (failing dryRun) mrs = Some mr" for mr
    using that by (auto simp: find_Some_iff)
  then have agg: "case find (failing dryRun) mrs of None \<Rightarrow> list_all (\<lambda>mr. \<not> failing dryRun mr) mrs
    | Some mr \<Rightarrow> aggregatePhase mrs dryRun \<in> {''Failed'', ''Error''}"
    by (auto simp: aggregatePhase_def aggregate_from_spec failing_def list_all_iff find_None_iff split: option.split)
  show "aggregatePhase mrs dryRun \<noteq> ''Inconclusive''"
    using phase agg by (fastforce simp: aggregatePhase_def aggregate_from_spec split: option.splits if_splits)
  show "mres_Name mr \<in> set dryRun \<or> mres_Phase mr = ''Successful''"
    if "aggregatePhase mrs dryRun = ''Successful''" "mr \<in> set mrs"
    using phase [OF that(2)] agg that
    by (auto simp: aggregatePhase_def aggregate_from_spec failing_def unfinished_def list_all_iff split: option.splits if_splits)
qed

text \<open>
  Metrics of one name, which the templates of a step may bring together, share a result: the later one's is taken for both,
  and what the earlier one has measured is lost.
\<close>

lemma ensureMetricResults_shared:
  assumes "met_Name m = met_Name m'" and "mres_Name e = met_Name m" and "mres_Name e' = met_Name m'"
  shows "ensureMetricResults [m, m'] [e, e'] = [e', e']"
  using assms by (simp add: ensureMetricResults_def)

text \<open>The runs a sequence of requests writes.\<close>

definition writes :: "(analysisRun \<Rightarrow> bool) \<Rightarrow> (request \<times> bool) list \<Rightarrow> bool" where
  "writes P h \<longleftrightarrow> (\<forall>run ok. (UpdateAnalysisRunStatus run, ok) \<in> set h \<longrightarrow> P run)"

lemma writes_simps [simp]:
  "writes P []" "writes P (h @ h') \<longleftrightarrow> writes P h \<and> writes P h'"
  "writes P ((UpdateAnalysisRunStatus run, ok) # h) \<longleftrightarrow> P run \<and> writes P h"
  by (auto simp: writes_def)

lemma queries_writes: "queries h \<Longrightarrow> writes P h"
  by (auto simp: queries_def writes_def)

lemma runs_at_result: "runs_at m h s Q \<Longrightarrow> runs_at m h s (\<lambda>r h'. Q r h' \<and> m s = (r, snd (m s)))"
  by (auto simp: runs_at_iff)

lemma sound_finished:
  assumes "list_all2 (backed L) (arspec_Metrics (run_Spec run)) (arst_MetricResults (run_Status run))"
    and "run_Phase run = aggregatePhase (arst_MetricResults (run_Status run)) (dry_names run)"
  shows "sound L run"
proof -
  note verdict = aggregatePhase_backed [OF assms(1), of "dry_names run"]
  have "\<exists>m \<in> set (arspec_Metrics (run_Spec run)). backed L m mr" if "mr \<in> set (arst_MetricResults (run_Status run))" for mr
    using assms(1) that(1) by (metis list_all2_conv_all_nth in_set_conv_nth)
  moreover have "met_Name m \<in> set (dry_names run) \<or> (\<exists>mr \<in> set (arst_MetricResults (run_Status run)). mres_Name mr = met_Name m \<and> enough L m mr)"
    if "m \<in> set (arspec_Metrics (run_Spec run))" "run_Phase run = ''Successful''" for m
  proof -
    have "\<exists>mr \<in> set (arst_MetricResults (run_Status run)). backed L m mr"
      using assms(1) that(1) by (metis list_all2_conv_all_nth in_set_conv_nth)
    then obtain mr where mr: "mr \<in> set (arst_MetricResults (run_Status run))" "backed L m mr" by blast
    with verdict(2) [OF _ mr(1)] assms(2) that(2) show ?thesis by (auto simp: backed_def)
  qed
  ultimately show ?thesis
    using verdict(1) assms(2) by (simp add: sound_def)
qed

lemma runs_at_reconcileRun_sound:
  assumes "sound (an_lib A) run" and "distinct (map met_Name (arspec_Metrics (run_Spec run)))"
    and "list_all short_result (arst_MetricResults (run_Status run))"
  shows "runs_at (reconcileRun A run) [] s (\<lambda>r. writes (\<lambda>run'. sound (an_lib A) run' \<and> run_Spec run' = run_Spec run))"
    (is "runs_at _ _ _ (\<lambda>r. writes ?P)")
proof -
  have start: "runs_at (startRun A run) h s (\<lambda>r h'. h' = h \<and> (\<forall>p1. r = Inr p1 \<longrightarrow> run_Spec p1 = run_Spec run
      \<and> arst_MetricResults (run_Status p1) = arst_MetricResults (run_Status run)))" for h s
    unfolding startRun_def timeNow_def by (auto split: sum.splits intro!: runs_intros)
  have stop: "runs_at (terminate A run) [] s (\<lambda>r. writes ?P)"
    using assms(1) unfolding terminate_def timeNow_def updateAnalysisRunStatus_def
    by (auto simp: sound_def split: sum.splits intro!: runs_intros)
  let ?ms = "arspec_Metrics (run_Spec run)"
  let ?rs = "ensureMetricResults ?ms (arst_MetricResults (run_Status run))"
  have rs: "list_all2 (backed (an_lib A)) ?ms ?rs" "list_all short_result ?rs"
    using assms by (auto simp: sound_def intro!: ensureMetricResults_backed ensureMetricResults_short)
  then have "list_all (\<lambda>(m, mr). backed (an_lib A) m mr \<and> short_result mr) (zip ?ms ?rs)"
    by (auto simp: list_all2_iff list_all_iff dest: set_zip_rightD)
  from sampleMetrics_backed [OF _ this]
  have sampled: "runs_at (sampleMetrics A t d (zip ?ms ?rs)) [] s (\<lambda>r h. queries h \<and>
      (\<forall>mrs d'. r = Inr (mrs, d') \<longrightarrow> list_all2 (backed (an_lib A)) ?ms mrs))" for t d s
    by (rule_tac runs_at_mono [OF runs_at_result [OF sampleMetrics_outcome]]) (fastforce simp: sampled_def)
  show ?thesis
    unfolding reconcileRun_def
  proof (intro runs_at_if stop runs_at_bindE runs_at_mono [OF start], goal_cases)
    case (2 r h)
    then show ?case
      unfolding timeNow_def updateAnalysisRunStatus_def
      by (auto simp: Let_def queries_writes dry_names_def split: sum.splits intro!: runs_intros runs_at_mono [OF sampled] sound_finished)
  qed (simp add: runs_at_returnE)
qed

text \<open>
  C25. Over every reconcile, whatever the backend and the server answer, each status written for a run is sound again: the
  results of its metrics are backed by their measurements, the run is never Inconclusive, and it is Successful only when every
  metric that is not a dry run has enough successful samples and no failed one. The names of the metrics are distinct.
\<close>

theorem reconcileRun_sound:
  assumes "sound (an_lib A) run" and "distinct (map met_Name (arspec_Metrics (run_Spec run)))"
    and "list_all short_result (arst_MetricResults (run_Status run))"
    and "reconcileRun A run s = (r, s')" and "(UpdateAnalysisRunStatus run', ok) \<in> set (new_requests s s')"
  shows "sound (an_lib A) run' \<and> run_Spec run' = run_Spec run"
  using runs_atD [OF runs_at_reconcileRun_sound [OF assms(1-3)] assms(4)] assms(5) by (auto simp: writes_def)

definition countedMetric0 :: metric where
  "countedMetric0 = (metric0 ''latency'')\<lparr>met_Count := Some (FromInt 1), met_SuccessCondition := ''ok''\<rparr>"

definition passedRun0 :: analysisRun where
  "passedRun0 = (case last (hist (snd (reconcileRun A0 (run0 ''r'' [countedMetric0]) world0))) of
     (UpdateAnalysisRunStatus run', ok) \<Rightarrow> run' | _ \<Rightarrow> run0 ''r'' [])"

lemma sound_created: "run_Phase run = [] \<Longrightarrow> arst_MetricResults (run_Status run) = [] \<Longrightarrow> sound L run"
  by (simp add: sound_def)

lemma passedRun0_written:
  "(UpdateAnalysisRunStatus passedRun0, True) \<in> set (new_requests world0 (snd (reconcileRun A0 (run0 ''r'' [countedMetric0]) world0)))"
  by (simp add: passedRun0_def countedMetric0_def new_requests_def run_eval)

lemma passedRun0_phase: "run_Phase passedRun0 = ''Successful''"
  by (simp add: passedRun0_def countedMetric0_def run_eval)

lemma countedRun0_created:
  "sound L (run0 ''r'' [countedMetric0])" "distinct (map met_Name (arspec_Metrics (run_Spec (run0 ''r'' [countedMetric0]))))"
  "list_all short_result (arst_MetricResults (run_Status (run0 ''r'' [countedMetric0])))"
  by (simp_all add: sound_created run0_defs)

theorem reconcileRun_sound_witness:
  "run_Phase passedRun0 = ''Successful'' \<and> sound ref_lib passedRun0"
  using reconcileRun_sound [OF countedRun0_created, of A0 _ _ _ passedRun0 True] passedRun0_written passedRun0_phase
  by (metis A0_def analysisReconciler.select_convs(1) prod.collapse)

end
