(* ===== verification/Go_Json.thy ===== *)
theory Go_Json
  imports Go_ParseFloat
begin

text \<open>
  What the sources use of Go's \<open>encoding/json\<close> to decode: the scanner as the state machine it is, one step per byte with
  a stack of open arrays and objects, the unquoting of strings, and the matching of object keys with field names. The
  scanner and the decoder of the library read the text twice; here the machine builds the value as it goes. A
  \<open>RawMessage\<close> is the value its bytes stand for. The texts of decoding errors are not modelled.
\<close>

section \<open>Values\<close>

text \<open>A number keeps its literal, an object its members in the order of the text, repeated keys included.\<close>

datatype jvalue = JvNull | JvBool bool | JvNum string | JvStr string
  | JvArr "jvalue list" | JvObj "(string \<times> jvalue) list"

section \<open>Strings\<close>

abbreviation byte :: "char \<Rightarrow> nat" where "byte c \<equiv> of_char c"

abbreviation quoteC :: char where "quoteC \<equiv> CHR 0x22"
abbreviation backC :: char where "backC \<equiv> CHR 0x5C"

definition u4 :: "string \<Rightarrow> nat option" where
  "u4 s = (if length s \<ge> 4 \<and> list_all is_hex (take 4 s)
     then Some (foldl (\<lambda>v c. 16 * v + hex_val c) 0 (take 4 s)) else None)"

text \<open>\<open>utf8.AppendRune\<close> on a code point up to the last one, and the bytes of the replacement character.\<close>

definition utf8 :: "nat \<Rightarrow> string" where
  "utf8 r = map char_of (if r < 0x80 then [r]
     else if r < 0x800 then [0xC0 + r div 64, 0x80 + r mod 64]
     else if r < 0x10000 then [0xE0 + r div 4096, 0x80 + r div 64 mod 64, 0x80 + r mod 64]
     else [0xF0 + r div 262144, 0x80 + r div 4096 mod 64, 0x80 + r div 64 mod 64, 0x80 + r mod 64])"

definition replacement :: string where
  "replacement = utf8 0xFFFD"

definition cont :: "nat \<Rightarrow> nat \<Rightarrow> char \<Rightarrow> bool" where
  "cont lo hi c \<longleftrightarrow> lo \<le> byte c \<and> byte c \<le> hi"

text \<open>\<open>utf8.DecodeRune\<close>: the number of bytes of a valid encoding at the front, 0 if there is none.\<close>

definition rune_len :: "string \<Rightarrow> nat" where
  "rune_len s = (case s of
     [] \<Rightarrow> 0
   | c # t \<Rightarrow>
      (let b = byte c;
           tails = (\<lambda>lo hi n. length t \<ge> n \<and> cont lo hi (t ! 0) \<and> list_all (cont 0x80 0xBF) (take (n - 1) (tl t)))
       in if b < 0x80 then 1
          else if 0xC2 \<le> b \<and> b \<le> 0xDF then (if tails 0x80 0xBF 1 then 2 else 0)
          else if b = 0xE0 then (if tails 0xA0 0xBF 2 then 3 else 0)
          else if b = 0xED then (if tails 0x80 0x9F 2 then 3 else 0)
          else if 0xE1 \<le> b \<and> b \<le> 0xEF then (if tails 0x80 0xBF 2 then 3 else 0)
          else if b = 0xF0 then (if tails 0x90 0xBF 3 then 4 else 0)
          else if 0xF1 \<le> b \<and> b \<le> 0xF3 then (if tails 0x80 0xBF 3 then 4 else 0)
          else if b = 0xF4 then (if tails 0x80 0x8F 3 then 4 else 0)
          else 0))"

definition surrogate :: "nat \<Rightarrow> bool" where
  "surrogate r \<longleftrightarrow> 0xD800 \<le> r \<and> r < 0xE000"

text \<open>\<open>utf16.DecodeRune\<close> of a pair, if it is one.\<close>

definition pair_rune :: "nat \<Rightarrow> nat \<Rightarrow> nat option" where
  "pair_rune r1 r2 = (if 0xD800 \<le> r1 \<and> r1 < 0xDC00 \<and> 0xDC00 \<le> r2 \<and> r2 < 0xE000
     then Some ((r1 - 0xD800) * 1024 + (r2 - 0xDC00) + 0x10000) else None)"

definition escaped :: "char \<Rightarrow> char option" where
  "escaped c = (if c \<in> {quoteC, backC, CHR ''/''} then Some c
     else if c = CHR ''b'' then Some CHR 0x08 else if c = CHR ''f'' then Some CHR 0x0C
     else if c = CHR ''n'' then Some CHR 0x0A else if c = CHR ''r'' then Some CHR 0x0D
     else if c = CHR ''t'' then Some CHR 0x09 else None)"

text \<open>The second half of a surrogate pair at the front, as \<open>getu4\<close> reads it.\<close>

definition next_u4 :: "string \<Rightarrow> nat option" where
  "next_u4 s = (case s of b # u # t \<Rightarrow> if b = backC \<and> u = CHR ''u'' then u4 t else None | _ \<Rightarrow> None)"

function unquote :: "string \<Rightarrow> string" where
  "unquote s = (case s of
     [] \<Rightarrow> []
   | c # t \<Rightarrow>
      (if c \<noteq> backC then
         (if rune_len s = 0 then replacement @ unquote t
          else take (rune_len s) s @ unquote (drop (rune_len s) s))
       else (case t of
           [] \<Rightarrow> []
         | e # t' \<Rightarrow>
            (if e \<noteq> CHR ''u'' then (case escaped e of Some x \<Rightarrow> x # unquote t' | None \<Rightarrow> unquote t')
             else (case u4 t' of
                 None \<Rightarrow> []
               | Some r \<Rightarrow>
                  (if \<not> surrogate r then utf8 r @ unquote (drop 4 t')
                   else (case (case next_u4 (drop 4 t') of None \<Rightarrow> None | Some r2 \<Rightarrow> pair_rune r r2) of
                       Some x \<Rightarrow> utf8 x @ unquote (drop 10 t')
                     | None \<Rightarrow> replacement @ unquote (drop 4 t')))))))) "
  by pat_completeness auto

termination by (relation "measure length") auto

declare unquote.simps [simp del]

section \<open>The scanner\<close>

datatype frame = ArrF "jvalue list" | ObjF "(string \<times> jvalue) list" "string option"

datatype num_state = Neg | Zero | Digits | Dot | Frac | Exp | ExpSign | ExpDigits

datatype mode = BeginValue | BeginArray | BeginObject | BeginKey | EndKey | EndValue | EndTop jvalue
  | InStr bool string | InEsc bool string | InHex bool nat string | Lit string jvalue | InNum num_state string

definition space :: "char \<Rightarrow> bool" where
  "space c \<longleftrightarrow> c \<in> {CHR '' '', CHR 0x09, CHR 0x0D, CHR 0x0A}"

abbreviation maxNestingDepth :: nat where "maxNestingDepth \<equiv> 10000"

definition open_frame :: "mode \<Rightarrow> frame \<Rightarrow> frame list \<Rightarrow> (mode \<times> frame list) option" where
  "open_frame m f fs = (if length (f # fs) \<le> maxNestingDepth then Some (m, f # fs) else None)"

fun value_done :: "jvalue \<Rightarrow> frame list \<Rightarrow> (mode \<times> frame list) option" where
  "value_done v [] = Some (EndTop v, [])"
| "value_done v (ArrF vs # fs) = Some (EndValue, ArrF (vs @ [v]) # fs)"
| "value_done v (ObjF ms (Some k) # fs) = Some (EndValue, ObjF (ms @ [(k, v)]) None # fs)"
| "value_done v (ObjF ms None # fs) = None"

fun string_done :: "bool \<Rightarrow> string \<Rightarrow> frame list \<Rightarrow> (mode \<times> frame list) option" where
  "string_done False raw fs = value_done (JvStr (unquote raw)) fs"
| "string_done True raw (ObjF ms k # fs) = Some (EndKey, ObjF ms (Some (unquote raw)) # fs)"
| "string_done True raw fs = None"

definition begin_num :: "char \<Rightarrow> num_state option" where
  "begin_num c = (if c = CHR ''-'' then Some Neg else if c = CHR ''0'' then Some Zero
     else if is_digit c then Some Digits else None)"

definition exponent :: "char \<Rightarrow> bool" where
  "exponent c \<longleftrightarrow> c = CHR ''e'' \<or> c = CHR ''E''"

fun num_step :: "num_state \<Rightarrow> char \<Rightarrow> num_state option" where
  "num_step Neg c = (if c = CHR ''0'' then Some Zero else if is_digit c then Some Digits else None)"
| "num_step Zero c = (if c = CHR ''.'' then Some Dot else if exponent c then Some Exp else None)"
| "num_step Digits c = (if is_digit c then Some Digits else if c = CHR ''.'' then Some Dot
     else if exponent c then Some Exp else None)"
| "num_step Dot c = (if is_digit c then Some Frac else None)"
| "num_step Frac c = (if is_digit c then Some Frac else if exponent c then Some Exp else None)"
| "num_step Exp c = (if c = CHR ''+'' \<or> c = CHR ''-'' then Some ExpSign else if is_digit c then Some ExpDigits else None)"
| "num_step ExpSign c = (if is_digit c then Some ExpDigits else None)"
| "num_step ExpDigits c = (if is_digit c then Some ExpDigits else None)"

definition num_final :: "num_state \<Rightarrow> bool" where
  "num_final st \<longleftrightarrow> st \<in> {Zero, Digits, Frac, ExpDigits}"

definition begin_value :: "char \<Rightarrow> frame list \<Rightarrow> (mode \<times> frame list) option" where
  "begin_value c fs =
     (if space c then Some (BeginValue, fs)
      else if c = CHR ''{'' then open_frame BeginObject (ObjF [] None) fs
      else if c = CHR ''['' then open_frame BeginArray (ArrF []) fs
      else if c = quoteC then Some (InStr False [], fs)
      else if c = CHR ''t'' then Some (Lit ''rue'' (JvBool True), fs)
      else if c = CHR ''f'' then Some (Lit ''alse'' (JvBool False), fs)
      else if c = CHR ''n'' then Some (Lit ''ull'' JvNull, fs)
      else map_option (\<lambda>st. (InNum st [c], fs)) (begin_num c))"

fun end_value :: "char \<Rightarrow> mode \<times> frame list \<Rightarrow> (mode \<times> frame list) option" where
  "end_value c (EndTop v, fs) = (if space c then Some (EndTop v, fs) else None)"
| "end_value c (EndValue, ArrF vs # fs) = (if space c then Some (EndValue, ArrF vs # fs)
     else if c = CHR '','' then Some (BeginValue, ArrF vs # fs)
     else if c = CHR '']'' then value_done (JvArr vs) fs else None)"
| "end_value c (EndValue, ObjF ms k # fs) = (if space c then Some (EndValue, ObjF ms k # fs)
     else if c = CHR '','' then Some (BeginKey, ObjF ms k # fs)
     else if c = CHR ''}'' then value_done (JvObj ms) fs else None)"
| "end_value c s = None"

fun scan_step :: "char \<Rightarrow> mode \<times> frame list \<Rightarrow> (mode \<times> frame list) option" where
  "scan_step c (BeginValue, fs) = begin_value c fs"
| "scan_step c (BeginArray, fs) = (if space c then Some (BeginArray, fs)
     else if c = CHR '']'' then end_value c (EndValue, fs) else begin_value c fs)"
| "scan_step c (BeginObject, fs) = (if space c then Some (BeginObject, fs)
     else if c = CHR ''}'' then end_value c (EndValue, fs)
     else if c = quoteC then Some (InStr True [], fs) else None)"
| "scan_step c (BeginKey, fs) = (if space c then Some (BeginKey, fs)
     else if c = quoteC then Some (InStr True [], fs) else None)"
| "scan_step c (EndKey, fs) = (if space c then Some (EndKey, fs)
     else if c = CHR '':'' then Some (BeginValue, fs) else None)"
| "scan_step c (InStr key raw, fs) = (if c = quoteC then string_done key raw fs
     else if c = backC then Some (InEsc key (raw @ [c]), fs)
     else if byte c < 0x20 then None else Some (InStr key (raw @ [c]), fs))"
| "scan_step c (InEsc key raw, fs) = (if c = CHR ''u'' then Some (InHex key 4 (raw @ [c]), fs)
     else if escaped c \<noteq> None then Some (InStr key (raw @ [c]), fs) else None)"
| "scan_step c (InHex key n raw, fs) = (if \<not> is_hex c then None
     else if n \<le> 1 then Some (InStr key (raw @ [c]), fs) else Some (InHex key (n - 1) (raw @ [c]), fs))"
| "scan_step c (Lit cs v, fs) = (case cs of [] \<Rightarrow> None
     | d # ds \<Rightarrow> if c \<noteq> d then None else if ds = [] then value_done v fs else Some (Lit ds v, fs))"
| "scan_step c (InNum st raw, fs) = (case num_step st c of
     Some st' \<Rightarrow> Some (InNum st' (raw @ [c]), fs)
   | None \<Rightarrow> (if num_final st then Option.bind (value_done (JvNum raw) fs) (end_value c) else None))"
| "scan_step c (m, fs) = end_value c (m, fs)"

fun scan :: "string \<Rightarrow> mode \<times> frame list \<Rightarrow> (mode \<times> frame list) option" where
  "scan [] s = Some s"
| "scan (c # cs) s = Option.bind (scan_step c s) (scan cs)"

text \<open>At the end of the text the scanner is given a space, which ends a number.\<close>

definition json_parse :: "string \<Rightarrow> jvalue option" where
  "json_parse text = (case scan (text @ '' '') (BeginValue, []) of Some (EndTop v, fs) \<Rightarrow> Some v | _ \<Rightarrow> None)"

section \<open>Keys\<close>

text \<open>
  The key of an object names a field if it is its name, or else if it is after folding cases. Besides the letters of
  ASCII only the long s and the sign for kelvin fold into ASCII, so other runes can stay as they are.
\<close>

fun foldName :: "string \<Rightarrow> string" where
  "foldName (a # b # s) = (if byte a = 0xC5 \<and> byte b = 0xBF then CHR ''S'' # foldName s
     else case s of
         c # t \<Rightarrow> if byte a = 0xE2 \<and> byte b = 0x84 \<and> byte c = 0xAA then CHR ''K'' # foldName t
           else (if 97 \<le> byte a \<and> byte a \<le> 122 then char_of (byte a - 32) else a) # foldName (b # s)
       | [] \<Rightarrow> (if 97 \<le> byte a \<and> byte a \<le> 122 then char_of (byte a - 32) else a) # foldName (b # s))"
| "foldName [a] = [if 97 \<le> byte a \<and> byte a \<le> 122 then char_of (byte a - 32) else a]"
| "foldName [] = []"

definition field :: "string list \<Rightarrow> string \<Rightarrow> string option" where
  "field names key = (if key \<in> set names then Some key else find (\<lambda>n. foldName n = foldName key) names)"

section \<open>Rendering, and reading it back\<close>

text \<open>A rendering of values on ASCII strings; \<open>parse_render\<close> is what a client may rely on when it reads a response.\<close>

definition plain :: "char \<Rightarrow> bool" where
  "plain c \<longleftrightarrow> byte c < 0x80"

definition hex_digit :: "nat \<Rightarrow> char" where
  "hex_digit n = char_of (if n < 10 then 48 + n else 87 + n)"

definition esc :: "char \<Rightarrow> string" where
  "esc c = (if c = quoteC \<or> c = backC then [backC, c]
     else if byte c < 0x20 then backC # ''u00'' @ [hex_digit (byte c div 16), hex_digit (byte c mod 16)] else [c])"

definition quoted :: "string \<Rightarrow> string" where
  "quoted s = quoteC # concat (map esc s) @ [quoteC]"

fun render :: "jvalue \<Rightarrow> string" where
  "render JvNull = ''null''"
| "render (JvBool b) = (if b then ''true'' else ''false'')"
| "render (JvNum s) = s"
| "render (JvStr s) = quoted s"
| "render (JvArr vs) = CHR ''['' # Join CHR '','' (map render vs) @ '']''"
| "render (JvObj ms) = CHR ''{'' # Join CHR '','' (map (\<lambda>(k, v). quoted k @ CHR '':'' # render v) ms) @ ''}''"

fun num_run :: "num_state \<Rightarrow> string \<Rightarrow> num_state option" where
  "num_run st [] = Some st"
| "num_run st (c # cs) = Option.bind (num_step st c) (\<lambda>st'. num_run st' cs)"

definition num_ok :: "string \<Rightarrow> bool" where
  "num_ok s = (case s of [] \<Rightarrow> False | c # cs \<Rightarrow>
     (case Option.bind (begin_num c) (\<lambda>st. num_run st cs) of None \<Rightarrow> False | Some st \<Rightarrow> num_final st))"

fun valid :: "jvalue \<Rightarrow> bool" where
  "valid (JvNum s) = num_ok s"
| "valid (JvStr s) = list_all plain s"
| "valid (JvArr vs) = list_all valid vs"
| "valid (JvObj ms) = list_all (\<lambda>(k, v). list_all plain k \<and> valid v) ms"
| "valid _ = True"

fun depth :: "jvalue \<Rightarrow> nat" where
  "depth (JvArr vs) = Suc (fold max (map depth vs) 0)"
| "depth (JvObj ms) = Suc (fold max (map (\<lambda>(k, v). depth v) ms) 0)"
| "depth _ = 0"

lemma fold_max_le: "fold max ns m \<le> (b :: nat) \<longleftrightarrow> m \<le> b \<and> (\<forall>n \<in> set ns. n \<le> b)"
  by (induction ns arbitrary: m) auto

lemma byte_less: "byte c < 256"
  by (rule nat_of_char_less_256)

lemma is_hex_digit: "n < 16 \<Longrightarrow> is_hex (hex_digit n) \<and> hex_val (hex_digit n) = n"
  by (auto simp: is_hex_def hex_val_def is_digit_def hex_digit_def lower_def)

lemma control_u4:
  assumes "byte c < 0x20"
  shows "u4 (CHR ''0'' # CHR ''0'' # hex_digit (byte c div 16) # hex_digit (byte c mod 16) # t) = Some (byte c)"
  using assms is_hex_digit [of "byte c div 16"] is_hex_digit [of "byte c mod 16"]
  by (simp add: u4_def is_hex_def [of "CHR ''0''"] hex_val_def [of "CHR ''0''"] is_digit_def)

lemma utf8_plain: "byte c < 0x80 \<Longrightarrow> utf8 (byte c) = [c]"
  by (simp add: utf8_def)

lemma unquote_esc: "plain c \<Longrightarrow> unquote (esc c @ t) = c # unquote t"
proof (cases "c = quoteC \<or> c = backC")
  case True
  then show ?thesis by (subst unquote.simps) (auto simp: esc_def escaped_def)
next
  case False
  assume "plain c"
  show ?thesis
  proof (cases "byte c < 0x20")
    case True
    with False show ?thesis
      using control_u4 [OF True, of t] utf8_plain [of c]
      by (subst unquote.simps) (simp add: esc_def surrogate_def)
  next
    case c: False
    with False \<open>plain c\<close> show ?thesis
      by (subst unquote.simps) (simp add: esc_def rune_len_def plain_def Let_def)
  qed
qed

lemma unquote_quoted: "list_all plain s \<Longrightarrow> unquote (concat (map esc s)) = s"
  by (induction s) (simp_all add: unquote_esc unquote.simps [of "[]"])

lemma scan_append: "scan (xs @ ys) s = Option.bind (scan xs s) (scan ys)"
proof (induction xs arbitrary: s)
  case (Cons x xs)
  then show ?case by (cases "scan_step x s") simp_all
qed simp

lemma scan_esc:
  "plain c \<Longrightarrow> scan (esc c) (InStr key raw, fs) = Some (InStr key (raw @ esc c), fs)"
proof -
  assume p: "plain c"
  consider "c = quoteC \<or> c = backC" | "c \<noteq> quoteC" "c \<noteq> backC" "byte c < 0x20" | "c \<noteq> quoteC" "c \<noteq> backC" "\<not> byte c < 0x20"
    by blast
  then show ?thesis
  proof cases
    case 1
    then show ?thesis by (auto simp: esc_def escaped_def)
  next
    case 2
    then have "is_hex (hex_digit (byte c div 16))" "is_hex (hex_digit (byte c mod 16))"
      using is_hex_digit by simp_all
    moreover have "is_hex CHR ''0''" by (simp add: is_hex_def is_digit_def)
    ultimately show ?thesis using 2 by (simp add: esc_def)
  qed (simp add: esc_def)
qed

lemma scan_escs:
  "list_all plain s \<Longrightarrow> scan (concat (map esc s)) (InStr key raw, fs) = Some (InStr key (raw @ concat (map esc s)), fs)"
  by (induction s arbitrary: raw) (simp_all add: scan_append scan_esc)

lemma scan_quoted:
  assumes "list_all plain s"
  shows "scan (concat (map esc s) @ quoteC # rest) (InStr key [], fs)
     = Option.bind (string_done key (concat (map esc s)) fs) (scan rest)"
  by (simp add: scan_append scan_escs [OF assms])

definition delim :: "char \<Rightarrow> bool" where
  "delim c \<longleftrightarrow> space c \<or> c \<in> {CHR '','', CHR '']'', CHR ''}''}"

lemma delim_not_num: "delim c \<Longrightarrow> num_step st c = None"
  by (cases st) (auto simp: delim_def space_def is_digit_def exponent_def)

text \<open>The scanner is ready for a value: a value read now is taken.\<close>

definition ready_for :: "frame list \<Rightarrow> bool" where
  "ready_for fs \<longleftrightarrow> (case fs of ObjF ms None # _ \<Rightarrow> False | _ \<Rightarrow> True)"

lemma ready_simps [simp]: "ready_for []" "ready_for (ArrF vs # fs)" "ready_for (ObjF ms (Some k) # fs)"
  by (simp_all add: ready_for_def)

lemma value_done_end:
  assumes "ready_for fs"
  obtains m fs' where "value_done v fs = Some (m, fs')" and "\<And>c. scan_step c (m, fs') = end_value c (m, fs')"
proof (cases fs)
  case (Cons f fs')
  then show ?thesis using assms that by (cases f) (auto simp: ready_for_def split: option.splits)
qed (use that in simp)

lemma scan_num:
  "num_run st cs = Some st' \<Longrightarrow> scan cs (InNum st raw, fs) = Some (InNum st' (raw @ cs), fs)"
proof (induction cs arbitrary: st raw)
  case (Cons c cs)
  then show ?case by (cases "num_step st c") simp_all
qed simp

lemma num_head: "begin_num c = Some st \<Longrightarrow> is_digit c \<or> c = CHR ''-''"
  by (auto simp: begin_num_def is_digit_def split: if_splits)

lemma num_head_not:
  "is_digit c \<or> c = CHR ''-'' \<Longrightarrow> \<not> space c \<and> c \<notin> {CHR ''{'', CHR ''['', CHR '']'', quoteC, CHR ''t'', CHR ''f'', CHR ''n''}"
  by (auto simp: is_digit_def space_def)

lemma scan_number:
  assumes "num_ok s" and "delim c" and "ready_for fs"
  shows "scan (s @ c # rest) (BeginValue, fs) = Option.bind (value_done (JvNum s) fs) (scan (c # rest))"
proof -
  obtain d ds st st' where s: "s = d # ds" "begin_num d = Some st" "num_run st ds = Some st'" "num_final st'"
    using assms(1) by (auto simp: num_ok_def bind_eq_Some_conv split: list.splits option.splits)
  have "scan s (BeginValue, fs) = Some (InNum st' s, fs)"
    using num_head_not [OF num_head [OF s(2)]] scan_num [OF s(3)] by (simp add: s begin_value_def)
  moreover obtain m fs' where "value_done (JvNum s) fs = Some (m, fs')" "\<And>c. scan_step c (m, fs') = end_value c (m, fs')"
    using value_done_end [OF assms(3)] by metis
  ultimately show ?thesis
    using s(4) delim_not_num [OF assms(2)] by (simp add: scan_append)
qed

lemma string_done_False: "list_all plain s \<Longrightarrow> string_done False (concat (map esc s)) fs = value_done (JvStr s) fs"
  by (simp add: unquote_quoted)

lemma string_done_True:
  "list_all plain s \<Longrightarrow> string_done True (concat (map esc s)) (ObjF ms k # fs) = Some (EndKey, ObjF ms (Some s) # fs)"
  by (simp add: unquote_quoted)

text \<open>What reading one rendered value does, and from it what reading the elements and members does.\<close>

definition reads :: "jvalue \<Rightarrow> bool" where
  "reads v \<longleftrightarrow> (\<forall>fs c rest. ready_for fs \<longrightarrow> delim c \<longrightarrow> length fs + depth v \<le> maxNestingDepth \<longrightarrow>
     scan (render v @ c # rest) (BeginValue, fs) = Option.bind (value_done v fs) (scan (c # rest)))"

lemma readsD:
  "reads v \<Longrightarrow> ready_for fs \<Longrightarrow> delim c \<Longrightarrow> length fs + depth v \<le> maxNestingDepth \<Longrightarrow>
   scan (render v @ c # rest) (BeginValue, fs) = Option.bind (value_done v fs) (scan (c # rest))"
  by (simp add: reads_def)

lemma delim_simps [simp]: "delim CHR '',''" "delim CHR '']''" "delim CHR ''}''" "delim CHR '' ''"
  by (simp_all add: delim_def space_def)

lemma space_simps [simp]:
  "\<not> space CHR '',''" "\<not> space CHR '']''" "\<not> space CHR ''}''" "\<not> space CHR '':''" "\<not> space CHR ''['' " "\<not> space CHR ''{''"
  "\<not> space quoteC" "\<not> space CHR ''t''" "\<not> space CHR ''f''" "\<not> space CHR ''n''"
  by (simp_all add: space_def)

lemma scan_elements:
  assumes "vs \<noteq> []" and "\<forall>v \<in> set vs. reads v \<and> length fs + Suc (depth v) \<le> maxNestingDepth"
  shows "scan (Join CHR '','' (map render vs) @ CHR '']'' # rest) (BeginValue, ArrF ws # fs)
     = Option.bind (value_done (JvArr (ws @ vs)) fs) (scan rest)"
  using assms
proof (induction vs arbitrary: ws)
  case (Cons v vs)
  have v: "scan (render v @ c # r) (BeginValue, ArrF ws # fs) = scan (c # r) (EndValue, ArrF (ws @ [v]) # fs)"
    if "delim c" for c r
    using readsD [of v "ArrF ws # fs" c r] Cons.prems(2) that by simp
  show ?case
  proof (cases "vs = []")
    case True
    then show ?thesis using v by simp
  next
    case False
    with Cons.IH [OF False, of "ws @ [v]"] Cons.prems(2) v show ?thesis
      by (simp add: Join_Cons)
  qed
qed simp

lemma scan_members:
  assumes "ms \<noteq> []"
    and "\<forall>(k, v) \<in> set ms. list_all plain k \<and> reads v \<and> length fs + Suc (depth v) \<le> maxNestingDepth"
  shows "scan (Join CHR '','' (map (\<lambda>(k, v). quoted k @ CHR '':'' # render v) ms) @ CHR ''}'' # rest) (BeginKey, ObjF ns None # fs)
     = Option.bind (value_done (JvObj (ns @ ms)) fs) (scan rest)"
  using assms
proof (induction ms arbitrary: ns)
  case (Cons m ms)
  obtain k v where m: "m = (k, v)" by fastforce
  have v: "scan (quoted k @ CHR '':'' # render v @ c # r) (BeginKey, ObjF ns None # fs)
      = scan (c # r) (EndValue, ObjF (ns @ [(k, v)]) None # fs)" if "delim c" for c r
    using readsD [of v "ObjF ns (Some k) # fs" c r] Cons.prems(2) that
    by (simp add: m quoted_def scan_quoted string_done_True del: string_done.simps)
  show ?case
  proof (cases "ms = []")
    case True
    then show ?thesis using v by (simp add: m)
  next
    case False
    with Cons.IH [OF False, of "ns @ [m]"] Cons.prems(2) v show ?thesis
      by (simp add: m Join_Cons)
  qed
qed simp

lemma render_head:
  assumes "valid v"
  shows "\<exists>d ds. render v = d # ds \<and> \<not> space d \<and> d \<noteq> CHR '']''"
proof (cases v)
  case (JvNum s)
  then obtain d ds st where "s = d # ds" "begin_num d = Some st"
    using assms by (auto simp: num_ok_def bind_eq_Some_conv split: list.splits option.splits)
  with JvNum show ?thesis using num_head_not [OF num_head] by auto
qed (simp_all add: quoted_def)

lemma scan_begin_array:
  assumes "valid v"
  shows "scan (render v @ rest) (BeginArray, fs) = scan (render v @ rest) (BeginValue, fs)"
  using render_head [OF assms] by auto

lemma depth_element: "v \<in> set vs \<Longrightarrow> depth v < depth (JvArr vs)"
  using fold_max_le [of "map depth vs" 0 "fold max (map depth vs) 0"] by (auto simp: less_Suc_eq_le)

lemma depth_member: "(k, v) \<in> set ms \<Longrightarrow> depth v < depth (JvObj ms)"
  using fold_max_le [of "map (\<lambda>(k, v). depth v) ms" 0 "fold max (map (\<lambda>(k, v). depth v) ms) 0"]
  by (force simp: less_Suc_eq_le)

lemma reads_array:
  assumes "\<forall>v \<in> set vs. valid v \<and> reads v"
  shows "reads (JvArr vs)"
  unfolding reads_def
proof (intro allI impI)
  fix fs :: "frame list" and c rest
  assume fs: "length fs + depth (JvArr vs) \<le> maxNestingDepth"
  then have vs: "\<forall>v \<in> set vs. reads v \<and> length fs + Suc (depth v) \<le> maxNestingDepth"
    using assms depth_element [of _ vs] by (fastforce simp del: depth.simps)
  show "scan (render (JvArr vs) @ c # rest) (BeginValue, fs) = Option.bind (value_done (JvArr vs) fs) (scan (c # rest))"
  proof (cases vs)
    case Nil
    with fs show ?thesis by (simp add: begin_value_def open_frame_def)
  next
    case (Cons v us)
    with assms have "valid v" by simp
    from scan_begin_array [OF this] have "scan (Join CHR '','' (map render vs) @ CHR '']'' # c # rest) (BeginArray, ArrF [] # fs)
        = scan (Join CHR '','' (map render vs) @ CHR '']'' # c # rest) (BeginValue, ArrF [] # fs)"
      by (cases us) (simp_all add: Cons Join_Cons)
    with scan_elements [OF _ vs, of "c # rest" "[]"] fs Cons show ?thesis
      by (simp add: begin_value_def open_frame_def)
  qed
qed

lemma reads_object:
  assumes "\<forall>(k, v) \<in> set ms. list_all plain k \<and> reads v"
  shows "reads (JvObj ms)"
  unfolding reads_def
proof (intro allI impI)
  fix fs :: "frame list" and c rest
  assume fs: "length fs + depth (JvObj ms) \<le> maxNestingDepth"
  have ms: "\<forall>(k, v) \<in> set ms. list_all plain k \<and> reads v \<and> length fs + Suc (depth v) \<le> maxNestingDepth"
    using assms fs depth_member [of _ _ ms] by (fastforce simp del: depth.simps)
  show "scan (render (JvObj ms) @ c # rest) (BeginValue, fs) = Option.bind (value_done (JvObj ms) fs) (scan (c # rest))"
  proof (cases ms)
    case Nil
    with fs show ?thesis by (simp add: begin_value_def open_frame_def)
  next
    case (Cons m us)
    then have "scan (Join CHR '','' (map (\<lambda>(k, v). quoted k @ CHR '':'' # render v) ms) @ CHR ''}'' # c # rest) (BeginObject, ObjF [] None # fs)
        = scan (Join CHR '','' (map (\<lambda>(k, v). quoted k @ CHR '':'' # render v) ms) @ CHR ''}'' # c # rest) (BeginKey, ObjF [] None # fs)"
      by (cases us) (simp_all add: Join_Cons quoted_def split: prod.splits)
    with scan_members [OF _ ms, of "c # rest" "[]"] fs Cons show ?thesis
      by (simp add: begin_value_def open_frame_def)
  qed
qed

lemma valid_reads: "valid v \<Longrightarrow> reads v"
proof (induction v)
  case (JvNum s)
  then show ?case by (auto simp: reads_def intro: scan_number)
next
  case (JvStr s)
  then show ?case
    by (simp add: reads_def quoted_def begin_value_def scan_quoted string_done_False del: string_done.simps scan.simps(2))
      (simp add: begin_value_def scan_quoted string_done_False del: string_done.simps)
next
  case (JvArr vs)
  then show ?case by (intro reads_array) (auto simp: list_all_iff)
next
  case (JvObj ms)
  then show ?case by (intro reads_object) (fastforce simp: list_all_iff)
qed (auto simp: reads_def begin_value_def)

lemma parse_render:
  assumes "valid v" and "depth v \<le> maxNestingDepth"
  shows "json_parse (render v) = Some v"
proof -
  have "scan (render v @ '' '') (BeginValue, []) = Some (EndTop v, [])"
    using readsD [OF valid_reads [OF assms(1)], of "[]" "CHR '' ''" "[]"] assms(2) by (simp add: space_def)
  then show ?thesis by (simp add: json_parse_def)
qed

end
