(* ===== verification/Go_Url.thy ===== *)
theory Go_Url
  imports Go_ParseFloat
begin

text \<open>
  What the sources use of \<open>net/url\<close> and \<open>net/http\<close>: query strings with their escaping (\<open>url.Values\<close>, \<open>ParseQuery\<close>,
  \<open>Encode\<close>) and the canonical form of header names. Escaping is undone by unescaping, and encoding by parsing
  (\<open>ParseQuery_Encode\<close>). The grammar of whole URLs is a parameter of what uses it.
\<close>

section \<open>Escaping\<close>

definition is_letter :: "char \<Rightarrow> bool" where
  "is_letter c \<longleftrightarrow> 97 \<le> (of_char (lower c) :: nat) \<and> (of_char (lower c) :: nat) \<le> 122"

definition unreserved :: "char \<Rightarrow> bool" where
  "unreserved c \<longleftrightarrow> is_letter c \<or> is_digit c \<or> c \<in> set ''-_.~''"

definition upper_hex :: "nat \<Rightarrow> char" where
  "upper_hex n = char_of (if n < 10 then 48 + n else 55 + n)"

definition escape_char :: "char \<Rightarrow> string" where
  "escape_char c = (if c = CHR '' '' then ''+'' else if unreserved c then [c]
     else CHR ''%'' # [upper_hex (of_char c div 16), upper_hex (of_char c mod 16)])"

definition QueryEscape :: "string \<Rightarrow> string" where
  "QueryEscape s = concat (map escape_char s)"

fun QueryUnescape :: "string \<Rightarrow> string option" where
  "QueryUnescape [] = Some []"
| "QueryUnescape (c # cs) =
     (if c = CHR ''%'' then (case cs of
          h # l # t \<Rightarrow> (if is_hex h \<and> is_hex l
             then map_option ((#) (char_of (16 * hex_val h + hex_val l))) (QueryUnescape t) else None)
        | _ \<Rightarrow> None)
      else map_option ((#) (if c = CHR ''+'' then CHR '' '' else c)) (QueryUnescape cs))"

section \<open>Values\<close>

text \<open>\<open>url.Values\<close> with at most one entry per key.\<close>

type_synonym urlValues = "(string \<times> string list) list"

definition values_get :: "urlValues \<Rightarrow> string \<Rightarrow> string list" where
  "values_get m k = (case map_of m k of None \<Rightarrow> [] | Some vs \<Rightarrow> vs)"

definition values_put :: "string \<Rightarrow> string list \<Rightarrow> urlValues \<Rightarrow> urlValues" where
  "values_put k vs m = AList.update k vs m"

definition cut :: "char \<Rightarrow> string \<Rightarrow> string \<times> string" where
  "cut c s = (takeWhile (\<lambda>d. d \<noteq> c) s, tl (dropWhile (\<lambda>d. d \<noteq> c) s))"

text \<open>One setting of a query; a setting that cannot be read is skipped (\<open>URL.Query\<close> drops the error).\<close>

definition add_setting :: "string \<Rightarrow> urlValues \<Rightarrow> urlValues" where
  "add_setting setting m =
     (if setting = [] \<or> CHR '';'' \<in> set setting then m
      else let (k, v) = cut CHR ''='' setting in
        case (QueryUnescape k, QueryUnescape v) of
          (Some k', Some v') \<Rightarrow> values_put k' (values_get m k' @ [v']) m
        | _ \<Rightarrow> m)"

definition ParseQuery :: "string \<Rightarrow> urlValues" where
  "ParseQuery query = fold add_setting (Split CHR ''&'' query) []"

definition settings :: "urlValues \<Rightarrow> string list" where
  "settings m = concat (map (\<lambda>k. map (\<lambda>v. QueryEscape k @ CHR ''='' # QueryEscape v) (values_get m k))
     (Sort (<) (map fst m)))"

definition Encode :: "urlValues \<Rightarrow> string" where
  "Encode m = Join CHR ''&'' (settings m)"

section \<open>Header names\<close>

definition token_char :: "char \<Rightarrow> bool" where
  "token_char c \<longleftrightarrow> is_letter c \<or> is_digit c \<or> c \<in> set ''!#$%&*+-.^_|~'' \<or> c = CHR 0x27 \<or> c = CHR 0x60"

definition upper :: "char \<Rightarrow> char" where
  "upper c = (if 97 \<le> (of_char c :: nat) \<and> (of_char c :: nat) \<le> 122 then char_of ((of_char c :: nat) - 32) else c)"

fun canonical :: "bool \<Rightarrow> string \<Rightarrow> string" where
  "canonical first [] = []"
| "canonical first (c # cs) = (if first then upper c else lower c) # canonical (c = CHR ''-'') cs"

definition CanonicalHeaderKey :: "string \<Rightarrow> string" where
  "CanonicalHeaderKey s = (if list_all token_char s then canonical True s else s)"

section \<open>Encoding is undone by parsing\<close>

lemma upper_hex: "n < 16 \<Longrightarrow> is_hex (upper_hex n) \<and> hex_val (upper_hex n) = n"
  by (auto simp: is_hex_def hex_val_def is_digit_def upper_hex_def lower_def)

lemma unescape_char: "QueryUnescape (escape_char c @ t) = map_option ((#) c) (QueryUnescape t)"
proof -
  have "of_char c div 16 < (16 :: nat)" using nat_of_char_less_256 [of c] by linarith
  moreover have "char_of (16 * (of_char c div 16 :: nat) + of_char c mod 16) = c" by simp
  moreover have "unreserved c \<Longrightarrow> c \<noteq> CHR ''%'' \<and> c \<noteq> CHR ''+''"
    by (auto simp: unreserved_def is_letter_def is_digit_def lower_def)
  ultimately show ?thesis
    using upper_hex [of "of_char c div 16"] upper_hex [of "of_char c mod 16"] by (auto simp: escape_char_def)
qed

lemma QueryUnescape_QueryEscape: "QueryUnescape (QueryEscape s) = Some s"
  by (induction s) (simp_all add: QueryEscape_def unescape_char)

lemma escape_plain: "d \<in> set (QueryEscape s) \<Longrightarrow> d \<noteq> CHR ''&'' \<and> d \<noteq> CHR ''='' \<and> d \<noteq> CHR '';''"
proof -
  have "is_hex h \<Longrightarrow> h \<noteq> CHR ''&'' \<and> h \<noteq> CHR ''='' \<and> h \<noteq> CHR '';''" for h
    by (auto simp: is_hex_def is_digit_def lower_def)
  moreover have "unreserved h \<Longrightarrow> h \<noteq> CHR ''&'' \<and> h \<noteq> CHR ''='' \<and> h \<noteq> CHR '';''" for h
    by (auto simp: unreserved_def is_letter_def is_digit_def lower_def)
  moreover have "of_char c div 16 < (16 :: nat)" for c using nat_of_char_less_256 [of c] by linarith
  ultimately show "d \<in> set (QueryEscape s) \<Longrightarrow> d \<noteq> CHR ''&'' \<and> d \<noteq> CHR ''='' \<and> d \<noteq> CHR '';''"
    using upper_hex by (auto simp: QueryEscape_def escape_char_def split: if_splits)
qed

lemma values_get_put: "values_get (values_put k vs m) j = (if j = k then vs else values_get m j)"
  by (simp add: values_get_def values_put_def update_conv')

lemma cut_setting: "cut CHR ''='' (QueryEscape k @ CHR ''='' # QueryEscape v) = (QueryEscape k, QueryEscape v)"
proof -
  have "\<forall>d \<in> set (QueryEscape k). d \<noteq> CHR ''=''" using escape_plain by blast
  then show ?thesis by (simp add: cut_def)
qed

lemma add_setting_encoded:
  "add_setting (QueryEscape k @ CHR ''='' # QueryEscape v) m = values_put k (values_get m k @ [v]) m"
  using escape_plain [of "CHR '';''"] by (auto simp: add_setting_def cut_setting QueryUnescape_QueryEscape)

lemma add_values:
  "values_get (fold add_setting (map (\<lambda>v. QueryEscape k @ CHR ''='' # QueryEscape v) vs) m) j
     = (if j = k then values_get m k @ vs else values_get m j)"
  by (induction vs arbitrary: m) (simp_all add: add_setting_encoded values_get_put)

lemma add_settings:
  assumes "distinct ks"
  shows "values_get (fold add_setting (concat (map (\<lambda>k. map (\<lambda>v. QueryEscape k @ CHR ''='' # QueryEscape v) (values_get m k)) ks)) n) j
     = (if j \<in> set ks then values_get n j @ values_get m j else values_get n j)"
  using assms by (induction ks arbitrary: n) (auto simp: add_values)

lemma ParseQuery_Encode:
  assumes "distinct (map fst m)"
  shows "values_get (ParseQuery (Encode m)) k = values_get m k"
proof -
  have plain: "CHR ''&'' \<notin> set p" if "p \<in> set (settings m)" for p
    using that escape_plain [of "CHR ''&''"] by (auto simp: settings_def)
  have fold: "fold add_setting (Split CHR ''&'' (Encode m)) [] = fold add_setting (settings m) []"
  proof (cases "settings m = []")
    case True
    then show ?thesis by (simp add: Encode_def add_setting_def)
  next
    case False
    with plain show ?thesis by (simp add: Encode_def Split_Join)
  qed
  have "distinct (Sort (<) (map fst m))" using assms by (metis mset_Sort mset_eq_imp_distinct_iff)
  from add_settings [OF this, of m "[]" k] have "values_get (ParseQuery (Encode m)) k
      = (if k \<in> set (map fst m) then values_get m k else [])"
    by (simp add: ParseQuery_def fold settings_def values_get_def [of "[]"])
  moreover have "k \<notin> set (map fst m) \<Longrightarrow> values_get m k = []"
    by (metis list.set_map map_of_eq_None_iff option.simps(4) values_get_def)
  ultimately show ?thesis by simp
qed

end
