(* ===== verification/Prometheus_Provider.thy ===== *)
theory Prometheus_Provider
  imports Analysis_Run Go_Json Go_Url "HOL-Library.Sublist"
begin

text \<open>
  The metric provider for Prometheus (\<open>pkg/controller/analysis/providers/prometheus.go\<close>): the URL of an instant query, its
  request, and the decoding of the answer. The HTTP client is a parameter, an effect on the world outside, and so are the
  parsing and printing of whole URLs; JSON (\<open>Go_Json\<close>), query strings (\<open>Go_Url\<close>) and floats (\<open>Go_ParseFloat\<close>) are
  modelled. Shown are the type of what a query returns, that the server finds the query in the URL, and that an answer
  is read back.
\<close>

section \<open>Decoding\<close>

text \<open>
  A decoding into a Go value goes on after a value of the wrong type and reports the error at the end; the flag says that
  there was one. A struct takes the members its fields name, in the order of the text; \<open>null\<close> leaves a struct, a string
  or an array as it is.
\<close>

definition decodeError :: error where
  "decodeError = Errorf ''json: cannot unmarshal'' []"

definition unmarshalled :: "'a \<times> bool \<Rightarrow> 'a res" where
  "unmarshalled = (\<lambda>(x, failed). if failed then Inl decodeError else Inr x)"

fun decode_members :: "string list \<Rightarrow> (string \<Rightarrow> jvalue \<Rightarrow> 'a \<Rightarrow> 'a \<times> bool) \<Rightarrow> (string \<times> jvalue) list \<Rightarrow> 'a \<Rightarrow> 'a \<times> bool" where
  "decode_members names put [] x = (x, False)"
| "decode_members names put ((k, v) # ms) x = (case field names k of
     None \<Rightarrow> decode_members names put ms x
   | Some n \<Rightarrow> (case put n v x of (x', failed) \<Rightarrow>
       (case decode_members names put ms x' of (y, failed') \<Rightarrow> (y, failed \<or> failed'))))"

definition decode_struct :: "string list \<Rightarrow> (string \<Rightarrow> jvalue \<Rightarrow> 'a \<Rightarrow> 'a \<times> bool) \<Rightarrow> jvalue \<Rightarrow> 'a \<Rightarrow> 'a \<times> bool" where
  "decode_struct names put v x = (case v of
     JvObj ms \<Rightarrow> decode_members names put ms x | JvNull \<Rightarrow> (x, False) | _ \<Rightarrow> (x, True))"

definition decode_string :: "jvalue \<Rightarrow> string \<Rightarrow> string \<times> bool" where
  "decode_string v old = (case v of JvStr s \<Rightarrow> (s, False) | JvNull \<Rightarrow> (old, False) | _ \<Rightarrow> (old, True))"

text \<open>A value decoded into \<open>any\<close>; its numbers become floats and have to be in range.\<close>

fun any_ok :: "jvalue \<Rightarrow> bool" where
  "any_ok (JvNum s) = (\<not> isl (ParseFloat s))"
| "any_ok (JvArr vs) = list_all any_ok vs"
| "any_ok (JvObj ms) = list_all (\<lambda>(k, v). any_ok v) ms"
| "any_ok _ = True"

text \<open>\<open>[2]any\<close>, with \<open>JvNull\<close> for nil: further elements are skipped, missing ones are nil.\<close>

definition decode_pair :: "jvalue \<Rightarrow> jvalue \<times> jvalue \<Rightarrow> (jvalue \<times> jvalue) \<times> bool" where
  "decode_pair v old = (case v of
     JvArr vs \<Rightarrow> ((if length vs > 0 then vs ! 0 else JvNull, if length vs > 1 then vs ! 1 else JvNull),
        \<not> list_all any_ok (take 2 vs))
   | JvNull \<Rightarrow> (old, False)
   | _ \<Rightarrow> (old, True))"

definition decode_labels :: "jvalue \<Rightarrow> smap \<Rightarrow> smap \<times> bool" where
  "decode_labels v old = (case v of
     JvObj ms \<Rightarrow> (fold (\<lambda>(k, x). smap_set k (fst (decode_string x []))) ms old,
        list_ex (\<lambda>(k, x). snd (decode_string x [])) ms)
   | JvNull \<Rightarrow> ([], False)
   | _ \<Rightarrow> (old, True))"

section \<open>Responses\<close>

record envelope =
  envl_Status :: string
  envl_Data :: "jvalue option"
  envl_Error :: string

definition set_envelope :: "string \<Rightarrow> jvalue \<Rightarrow> envelope \<Rightarrow> envelope \<times> bool" where
  "set_envelope n v e =
     (if n = ''status'' then apfst (\<lambda>s. e\<lparr>envl_Status := s\<rparr>) (decode_string v (envl_Status e))
      else if n = ''data'' then (e\<lparr>envl_Data := Some v\<rparr>, False)
      else apfst (\<lambda>s. e\<lparr>envl_Error := s\<rparr>) (decode_string v (envl_Error e)))"

record resultData =
  rd_ResultType :: string
  rd_Result :: "jvalue option"

definition set_data :: "string \<Rightarrow> jvalue \<Rightarrow> resultData \<Rightarrow> resultData \<times> bool" where
  "set_data n v d =
     (if n = ''resultType'' then apfst (\<lambda>s. d\<lparr>rd_ResultType := s\<rparr>) (decode_string v (rd_ResultType d))
      else (d\<lparr>rd_Result := Some v\<rparr>, False))"

record sample =
  smp_Metric :: smap
  smp_Value :: "jvalue \<times> jvalue"

definition set_sample :: "string \<Rightarrow> jvalue \<Rightarrow> sample \<Rightarrow> sample \<times> bool" where
  "set_sample n v s =
     (if n = ''metric'' then apfst (\<lambda>m. s\<lparr>smp_Metric := m\<rparr>) (decode_labels v (smp_Metric s))
      else apfst (\<lambda>p. s\<lparr>smp_Value := p\<rparr>) (decode_pair v (smp_Value s)))"

definition decode_samples :: "jvalue \<Rightarrow> sample list \<times> bool" where
  "decode_samples v = (case v of
     JvArr vs \<Rightarrow>
       (let ds = map (\<lambda>x. decode_struct [''metric'', ''value''] set_sample x
              \<lparr>smp_Metric = [], smp_Value = (JvNull, JvNull)\<rparr>) vs
        in (map fst ds, list_ex snd ds))
   | JvNull \<Rightarrow> ([], False)
   | _ \<Rightarrow> ([], True))"

definition type_name :: "jvalue \<Rightarrow> string" where
  "type_name v = (case v of JvNull \<Rightarrow> ''<nil>'' | JvBool _ \<Rightarrow> ''bool'' | JvNum _ \<Rightarrow> ''float64''
     | JvStr _ \<Rightarrow> ''string'' | JvArr _ \<Rightarrow> ''[]interface {}'' | JvObj _ \<Rightarrow> ''map[string]interface {}'')"

definition scalarValue :: "jvalue \<times> jvalue \<Rightarrow> float64 res" where
  "scalarValue pair = (case snd pair of
     JvStr raw \<Rightarrow> (case ParseFloat raw of
         Inl err \<Rightarrow> Inl (Wrapf ''prometheus: parse value %q: %w'' [raw] err)
       | Inr f \<Rightarrow> Inr f)
   | v \<Rightarrow> Inl (Errorf ''prometheus: expected string value, got %T'' [type_name v]))"

text \<open>\<open>json.Unmarshal\<close> of a text, and of a \<open>RawMessage\<close>, which is empty if its field was not there.\<close>

definition wrapRes :: "string \<Rightarrow> 'a res \<Rightarrow> 'a res" where
  "wrapRes f r = (case r of Inl e \<Rightarrow> Inl (Wrapf f [] e) | Inr x \<Rightarrow> Inr x)"

definition unmarshal :: "(jvalue \<Rightarrow> 'a \<times> bool) \<Rightarrow> jvalue option \<Rightarrow> 'a res" where
  "unmarshal dec text = (case text of None \<Rightarrow> Inl decodeError | Some v \<Rightarrow> unmarshalled (dec v))"

definition vectorValue :: "sample list \<Rightarrow> goValue res" where
  "vectorValue samples =
     (if samples = [] then Inl (Errorf ''prometheus: query returned no samples'' [])
      else if length samples = 1 then bindR (scalarValue (smp_Value (hd samples))) (\<lambda>f. Inr (VFloat f))
      else bindR (mapR (\<lambda>s. scalarValue (smp_Value s)) samples) (\<lambda>fs. Inr (VFloats fs)))"

definition parseQueryResponse :: "string \<Rightarrow> goValue res" where
  "parseQueryResponse body =
     bindR (wrapRes ''prometheus: decode envelope: %w''
       (unmarshal (\<lambda>v. decode_struct [''status'', ''data'', ''error''] set_envelope v
          \<lparr>envl_Status = [], envl_Data = None, envl_Error = []\<rparr>) (json_parse body))) (\<lambda>envelope.
     if envl_Status envelope \<noteq> ''success'' then Inl (Errorf ''prometheus: %s'' [envl_Error envelope])
     else bindR (wrapRes ''prometheus: decode data: %w''
       (unmarshal (\<lambda>v. decode_struct [''resultType'', ''result''] set_data v \<lparr>rd_ResultType = [], rd_Result = None\<rparr>)
          (envl_Data envelope))) (\<lambda>data.
     if rd_ResultType data = ''scalar'' then
       bindR (wrapRes ''prometheus: decode scalar: %w''
         (unmarshal (\<lambda>v. decode_pair v (JvNull, JvNull)) (rd_Result data))) (\<lambda>pair.
       bindR (scalarValue pair) (\<lambda>f. Inr (VFloat f)))
     else if rd_ResultType data = ''vector'' then
       bindR (wrapRes ''prometheus: decode vector: %w'' (unmarshal decode_samples (rd_Result data))) vectorValue
     else Inl (Errorf ''prometheus: unsupported resultType %q'' [rd_ResultType data])))"

definition truncateBody :: "string \<Rightarrow> string" where
  "truncateBody body = (if length body \<le> 200 then body else take 200 body @ [CHR 0xE2, CHR 0x80, CHR 0xA6])"

section \<open>Requests\<close>

text \<open>
  A URL by the parts the provider reads and writes; the others (user, host, fragment) are carried along. Parsing and
  printing of whole URLs are parameters.
\<close>

record goURL =
  url_Scheme :: string
  url_Path :: string
  url_RawQuery :: string
  url_Other :: "string list"

record urlLib =
  ul_Parse :: "string \<Rightarrow> goURL res"
  ul_String :: "goURL \<Rightarrow> string"

definition trimSlash :: "string \<Rightarrow> string" where
  "trimSlash s = (if s \<noteq> [] \<and> last s = CHR ''/'' then butlast s else s)"

definition queryURL :: "goURL \<Rightarrow> string \<Rightarrow> goURL" where
  "queryURL u query = u\<lparr>url_Path := trimSlash (url_Path u) @ ''/api/v1/query'',
     url_RawQuery := Encode (values_put ''query'' [query] (ParseQuery (url_RawQuery u)))\<rparr>"

definition parseAddress :: "urlLib \<Rightarrow> string \<Rightarrow> string \<Rightarrow> goURL res" where
  "parseAddress U address text = (case ul_Parse U text of
     Inl err \<Rightarrow> Inl (Wrapf ''prometheus: parse address %q: %w'' [address] err) | Inr u \<Rightarrow> Inr u)"

definition buildQueryURL :: "urlLib \<Rightarrow> string \<Rightarrow> string \<Rightarrow> string res" where
  "buildQueryURL U address query =
     bindR (parseAddress U address address) (\<lambda>u.
     bindR (if url_Scheme u = [] then parseAddress U address (''http://'' @ address) else Inr u) (\<lambda>u'.
     Inr (ul_String U (queryURL u' query))))"

record httpRequest =
  req_Method :: string
  req_URL :: string
  req_Header :: smap
  req_Timeout :: "duration option"

record httpResponse =
  resp_StatusCode :: int
  resp_Body :: "string res"

type_synonym 'w httpClient = "httpRequest \<Rightarrow> ('w, httpResponse) eff"

record 'w prometheus =
  prov_HTTPClient :: "'w httpClient option"

definition queryRequest :: "prometheusProvider \<Rightarrow> string \<Rightarrow> httpRequest" where
  "queryRequest spec endpoint = \<lparr>req_Method = ''GET'', req_URL = endpoint,
     req_Header = smap_set ''Accept'' ''application/json''
       (fold (\<lambda>h. smap_set (CanonicalHeaderKey (env_Name h)) (env_Value h)) (prom_Headers spec) []),
     req_Timeout = (case prom_Timeout spec of None \<Rightarrow> None | Some d \<Rightarrow> if d > 0 then Some d else None)\<rparr>"

definition Query :: "urlLib \<Rightarrow> 'w httpClient \<Rightarrow> 'w prometheus \<Rightarrow> prometheusProvider option \<Rightarrow> ('w, goValue) eff" where
  "Query U DefaultClient p spec = (case spec of
     None \<Rightarrow> failE (Errorf ''prometheus: nil provider spec'' [])
   | Some sp \<Rightarrow>
      (if prom_Address sp = [] then failE (Errorf ''prometheus: address is required'' [])
       else if prom_Query sp = [] then failE (Errorf ''prometheus: query is required'' [])
       else
         bindE (liftE (buildQueryURL U (prom_Address sp) (prom_Query sp))) (\<lambda>endpoint.
         bindE (wrapE ''prometheus: build request: %w'' [] (liftE (ul_Parse U endpoint))) (\<lambda>_.
         bindE (wrapE ''prometheus: query: %w'' []
           ((case prov_HTTPClient p of None \<Rightarrow> DefaultClient | Some client \<Rightarrow> client) (queryRequest sp endpoint))) (\<lambda>resp.
         bindE (wrapE ''prometheus: read body: %w'' [] (liftE (resp_Body resp))) (\<lambda>body.
         if resp_StatusCode resp \<noteq> 200
         then failE (Errorf ''prometheus: status %d: %s'' [FormatInt (resp_StatusCode resp), truncateBody body])
         else liftE (parseQueryResponse body)))))))"

section \<open>Outcomes of a query\<close>

lemma mapR_length: "mapR g xs = Inr ys \<Longrightarrow> length ys = length xs"
  by (induction xs arbitrary: ys) (auto simp: bindR_eq_Inr)

text \<open>What the analysis gets of a query: one number or several, and errors that name their origin.\<close>

definition numeric :: "goValue \<Rightarrow> bool" where
  "numeric x = (case x of VFloat f \<Rightarrow> True | VFloats fs \<Rightarrow> 2 \<le> length fs | _ \<Rightarrow> False)"

definition origin :: string where
  "origin = ''prometheus: ''"

definition from_prometheus :: "error \<Rightarrow> bool" where
  "from_prometheus e \<longleftrightarrow> is_panic e \<or> prefix origin (error_text e)"

definition typed :: "goValue res \<Rightarrow> bool" where
  "typed r = (case r of Inl e \<Rightarrow> from_prometheus e | Inr x \<Rightarrow> numeric x)"

lemma prefix_sprintf: "prefix p f \<Longrightarrow> CHR ''%'' \<notin> set p \<Longrightarrow> prefix p (sprintf f as)"
proof (induction f as arbitrary: p rule: sprintf.induct)
  case (3 c d cs as)
  then show ?case by (cases p) auto
qed (auto simp: prefix_Cons)

lemma from_prometheus_I [simp]:
  assumes "prefix ''prometheus: '' f"
  shows "from_prometheus (Errorf f as)" "from_prometheus (Wrapf f as e)" "from_prometheus (wrap_error f as e)"
  using assms by (auto simp: from_prometheus_def wrap_error_def origin_def prefix_sprintf)

lemma scalarValue_error: "scalarValue pair = Inl e \<Longrightarrow> from_prometheus e"
  by (auto simp: scalarValue_def split: jvalue.splits sum.splits)

lemma mapR_error: "mapR g xs = Inl e \<Longrightarrow> \<exists>x. g x = Inl e"
  by (induction xs) (auto simp: bindR_def split: sum.splits)

lemma typed_Errorf: "prefix ''prometheus: '' f \<Longrightarrow> typed (Inl (Errorf f as))"
  by (simp add: typed_def)

lemma typed_wrapRes: "prefix ''prometheus: '' f \<Longrightarrow> (\<And>x. typed (k x)) \<Longrightarrow> typed (bindR (wrapRes f r) k)"
  by (cases r) (simp_all add: typed_def bindR_def wrapRes_def)

lemma typed_scalarValue: "typed (bindR (scalarValue pair) (\<lambda>f. Inr (VFloat f)))"
  by (cases "scalarValue pair") (simp_all add: typed_def bindR_def numeric_def scalarValue_error)

lemma typed_vectorValue: "typed (vectorValue ss)"
proof -
  have "2 \<le> length ss" if "ss \<noteq> []" "length ss \<noteq> 1" using that by (cases ss rule: remdups_adj.cases) auto
  then show ?thesis
    by (auto simp: vectorValue_def typed_def numeric_def bindR_def split: sum.splits
        dest: scalarValue_error mapR_error mapR_length)
qed

lemma typed_parseQueryResponse: "typed (parseQueryResponse body)"
  unfolding parseQueryResponse_def
  by (simp add: typed_wrapRes typed_Errorf typed_scalarValue typed_vectorValue)

lemma buildQueryURL_error: "buildQueryURL U address query = Inl e \<Longrightarrow> from_prometheus e"
  by (auto simp: buildQueryURL_def parseAddress_def bindR_def split: sum.splits if_splits)

lemma wp_if: "wp (if b then m else n) Q E s = (if b then wp m Q E s else wp n Q E s)"
  by simp

lemma wp_any: "(\<And>x s. Q x s) \<Longrightarrow> (\<And>e s. E e s) \<Longrightarrow> wp m Q E s"
  by (auto simp: wp_def split: sum.splits prod.splits)

lemma Query_outcome:
  "case Query U DefaultClient p spec v of (Inr x, v') \<Rightarrow> numeric x | (Inl e, v') \<Rightarrow> from_prometheus e"
proof -
  have "wp (Query U DefaultClient p spec) (\<lambda>x _. numeric x) (\<lambda>e _. from_prometheus e) v"
  proof (cases spec)
    case (Some sp)
    have "case parseQueryResponse body of Inl e \<Rightarrow> from_prometheus e | Inr x \<Rightarrow> numeric x" for body
      using typed_parseQueryResponse by (simp add: typed_def)
    then show ?thesis
      by (simp add: Query_def Some wp_if go_eff buildQueryURL_error wp_any split: sum.split)
  qed (simp add: Query_def go_eff)
  then show ?thesis
    by (auto simp: wp_def split: sum.splits prod.splits)
qed

lemma numeric_iff: "numeric x \<longleftrightarrow> (\<exists>f. x = VFloat f) \<or> (\<exists>fs. x = VFloats fs \<and> 2 \<le> length fs)"
  by (simp add: numeric_def split: goValue.split)

text \<open>
  C27. Whatever the server does, a query returns one number or at least two of them, never another type, and the analysis
  evaluates its conditions on that value as it is; every error but a panic of the HTTP client says that it is from Prometheus.
\<close>

theorem Query_typed:
  "case Query U DefaultClient p spec v of
     (Inr x, v') \<Rightarrow> ((\<exists>f. x = VFloat f) \<or> (\<exists>fs. x = VFloats fs \<and> 2 \<le> length fs)) \<and> normalizeResult x = x
   | (Inl e, v') \<Rightarrow> is_panic e \<or> prefix ''prometheus: '' (error_text e)"
  using Query_outcome [of U DefaultClient p spec v]
  by (auto simp: from_prometheus_def origin_def numeric_iff normalizeResult_def split: sum.splits prod.splits)

section \<open>The URL of a query\<close>

lemma distinct_ParseQuery: "distinct (map fst (ParseQuery query))"
proof -
  have "distinct (map fst (add_setting p m))" if "distinct (map fst m)" for p m
    using that by (auto simp: add_setting_def Let_def values_put_def distinct_update split: prod.split option.split)
  then have "distinct (map fst (fold add_setting ps m))" if "distinct (map fst m)" for ps m
    using that by (induction ps arbitrary: m) simp_all
  then show ?thesis by (simp add: ParseQuery_def)
qed

lemma queryURL_values:
  "values_get (ParseQuery (url_RawQuery (queryURL u query))) k
     = (if k = ''query'' then [query] else values_get (ParseQuery (url_RawQuery u)) k)"
proof -
  have "distinct (map fst (values_put ''query'' [query] (ParseQuery (url_RawQuery u))))"
    by (simp add: values_put_def distinct_update distinct_ParseQuery)
  then show ?thesis by (simp add: queryURL_def ParseQuery_Encode values_get_put)
qed


section \<open>Reading an answer\<close>

text \<open>
  The answers of the API on instant queries: a sample is its labels, the literal of its time and the text of its value.
\<close>

type_synonym rawSample = "(string \<times> string) list \<times> string \<times> string"

definition pairJson :: "string \<Rightarrow> string \<Rightarrow> jvalue" where
  "pairJson ts raw = JvArr [JvNum ts, JvStr raw]"

definition sampleJson :: "rawSample \<Rightarrow> jvalue" where
  "sampleJson = (\<lambda>(labels, ts, raw). JvObj [(''metric'', JvObj (map (\<lambda>(k, v). (k, JvStr v)) labels)), (''value'', pairJson ts raw)])"

definition successJson :: "string \<Rightarrow> jvalue \<Rightarrow> jvalue" where
  "successJson resultType result = JvObj [(''status'', JvStr ''success''),
     (''data'', JvObj [(''resultType'', JvStr resultType), (''result'', result)])]"

text \<open>A time is a JSON number that is a float, and the strings are of ASCII.\<close>

definition readable :: "rawSample \<Rightarrow> bool" where
  "readable = (\<lambda>(labels, ts, raw). list_all (\<lambda>(k, v). list_all plain k \<and> list_all plain v) labels \<and>
     num_ok ts \<and> \<not> isl (ParseFloat ts) \<and> list_all plain raw)"

definition rs_text :: "rawSample \<Rightarrow> string" where
  "rs_text = (\<lambda>(labels, ts, raw). raw)"

lemma labels_flat: "fold max (map ((\<lambda>(k, x). depth x) \<circ> (\<lambda>(k, v). (k, JvStr v))) labels) 0 = 0"
  by (induction labels) auto

lemma sampleJson_valid: "readable s \<Longrightarrow> valid (sampleJson s) \<and> depth (sampleJson s) \<le> 2"
  by (cases s) (auto simp: readable_def sampleJson_def pairJson_def plain_def list_all_iff labels_flat split: prod.splits)

lemma parse_successJson:
  assumes "valid result" "depth result \<le> 9998" "list_all plain resultType"
  shows "json_parse (render (successJson resultType result)) = Some (successJson resultType result)"
  by (rule parse_render) (use assms in \<open>auto simp: successJson_def plain_def\<close>)

lemma parseQueryResponse_success:
  assumes "valid result" "depth result \<le> 9998" "resultType \<in> {''scalar'', ''vector''}"
  shows "parseQueryResponse (render (successJson resultType result)) =
     (if resultType = ''scalar'' then
        bindR (wrapRes ''prometheus: decode scalar: %w'' (unmarshalled (decode_pair result (JvNull, JvNull))))
          (\<lambda>pair. bindR (scalarValue pair) (\<lambda>f. Inr (VFloat f)))
      else bindR (wrapRes ''prometheus: decode vector: %w'' (unmarshalled (decode_samples result))) vectorValue)"
proof -
  have "json_parse (render (successJson resultType result)) = Some (successJson resultType result)"
    using assms by (intro parse_successJson) (auto simp: plain_def)
  then show ?thesis using assms(3)
    by (auto simp: parseQueryResponse_def successJson_def unmarshal_def unmarshalled_def wrapRes_def bindR_def
        decode_struct_def decode_string_def set_envelope_def set_data_def field_def)
qed

lemma decode_sampleJson:
  assumes "readable s"
  shows "\<exists>m ts. decode_struct [''metric'', ''value''] set_sample (sampleJson s) \<lparr>smp_Metric = [], smp_Value = (JvNull, JvNull)\<rparr>
     = (\<lparr>smp_Metric = m, smp_Value = (ts, JvStr (rs_text s))\<rparr>, False)"
proof -
  obtain labels ts raw where s: "s = (labels, ts, raw)" by (cases s)
  have "\<not> list_ex (\<lambda>(k, x). snd (decode_string x [])) (map (\<lambda>(k, v). (k, JvStr v)) labels)"
    by (auto simp: list_ex_iff decode_string_def)
  then show ?thesis using assms
    by (simp add: s sampleJson_def pairJson_def readable_def rs_text_def decode_struct_def set_sample_def decode_labels_def
        decode_pair_def field_def)
qed

lemma vectorValue_texts:
  assumes "samples \<noteq> []" "mapR ParseFloat (map rs_text samples) = Inr fs"
    "map (snd \<circ> smp_Value) ds = map (JvStr \<circ> rs_text) samples"
  shows "vectorValue ds = Inr (case fs of [f] \<Rightarrow> VFloat f | _ \<Rightarrow> VFloats fs)"
proof -
  have "mapR (\<lambda>s. scalarValue (smp_Value s)) ds = Inr fs"
    using assms(2,3)
  proof (induction ds arbitrary: samples fs)
    case (Cons d ds)
    then show ?case by (cases samples) (auto simp: scalarValue_def bindR_eq_Inr)
  qed simp
  moreover from this have "length fs = length ds" by (rule mapR_length)
  moreover have "length ds = length samples" using arg_cong [OF assms(3), of length] by simp
  ultimately show ?thesis using assms(1)
    by (cases ds rule: remdups_adj.cases) (auto simp: vectorValue_def bindR_eq_Inr split: list.splits)
qed

lemma decode_samples_json:
  assumes "list_all readable samples"
  shows "\<exists>ds. decode_samples (JvArr (map sampleJson samples)) = (ds, False)
     \<and> map (snd \<circ> smp_Value) ds = map (JvStr \<circ> rs_text) samples"
proof -
  define dec where "dec s = decode_struct [''metric'', ''value''] set_sample (sampleJson s) \<lparr>smp_Metric = [], smp_Value = (JvNull, JvNull)\<rparr>" for s
  have "\<not> snd (dec s) \<and> snd (smp_Value (fst (dec s))) = JvStr (rs_text s)" if "s \<in> set samples" for s
    using decode_sampleJson [of s] assms that by (auto simp: dec_def list_all_iff)
  moreover have "decode_samples (JvArr (map sampleJson samples)) = (map (fst \<circ> dec) samples, list_ex (snd \<circ> dec) samples)"
    by (simp add: decode_samples_def dec_def Let_def comp_def list_ex_iff)
  ultimately show ?thesis by (auto simp: list_ex_iff)
qed

lemma parseQueryResponse_scalar:
  assumes "readable (labels, ts, raw)" "ParseFloat raw = Inr f"
  shows "parseQueryResponse (render (successJson ''scalar'' (pairJson ts raw))) = Inr (VFloat f)"
  using assms
  by (subst parseQueryResponse_success)
    (simp_all add: readable_def pairJson_def decode_pair_def unmarshalled_def wrapRes_def scalarValue_def bindR_def)

text \<open>
  C28. The answer to an instant query is read back: of a vector, whatever its labels and times, the values of its samples in
  their order, and one number if there is one sample.
\<close>

theorem parseQueryResponse_reads:
  assumes "samples \<noteq> []" "list_all readable samples" "mapR ParseFloat (map rs_text samples) = Inr fs"
  shows "parseQueryResponse (render (successJson ''vector'' (JvArr (map sampleJson samples))))
     = Inr (case fs of [f] \<Rightarrow> VFloat f | _ \<Rightarrow> VFloats fs)"
proof -
  have "list_all (\<lambda>v. valid v \<and> depth v \<le> 2) (map sampleJson samples)"
    using assms(2) sampleJson_valid by (auto simp: list_all_iff)
  then have "valid (JvArr (map sampleJson samples))" "depth (JvArr (map sampleJson samples)) \<le> 9998"
    using fold_max_le [of "map (depth \<circ> sampleJson) samples" 0 2] by (auto simp: list_all_iff)
  note result = parseQueryResponse_success [OF this, of "''vector''"]
  obtain ds where ds: "decode_samples (JvArr (map sampleJson samples)) = (ds, False)"
    "map (snd \<circ> smp_Value) ds = map (JvStr \<circ> rs_text) samples"
    using decode_samples_json [OF assms(2)] by blast
  show ?thesis
    using vectorValue_texts [OF assms(1,3) ds(2)]
    by (simp add: result ds unmarshalled_def wrapRes_def bindR_def)
qed

theorem parseQueryResponse_reads_witness:
  "parseQueryResponse (render (successJson ''vector''
      (JvArr (map sampleJson [([(''job'', ''api'')], ''1'', ''5''), ([], ''2'', ''-7'')])))) = Inr (VFloats [Fin 5, Fin (- 7)])"
proof -
  have shown: "FormatInt 1 = ''1''" "FormatInt 2 = ''2''" "FormatInt 5 = ''5''" "FormatInt (- 7) = ''-7''" by code_simp+
  have float: "ParseFloat ''1'' = Inr (Fin 1)" "ParseFloat ''2'' = Inr (Fin 2)" "ParseFloat ''5'' = Inr (Fin 5)"
    "ParseFloat ''-7'' = Inr (Fin (- 7))"
    using ParseFloat_FormatInt [of 1] ParseFloat_FormatInt [of 2] ParseFloat_FormatInt [of 5] ParseFloat_FormatInt [of "- 7"]
    by (simp_all add: shown)
  have num: "num_ok ''1''" "num_ok ''2''" by code_simp+
  from parseQueryResponse_reads [of "[([(''job'', ''api'')], ''1'', ''5''), ([], ''2'', ''-7'')]" "[Fin 5, Fin (- 7)]"] show ?thesis
    by (simp add: readable_def rs_text_def plain_def float num bindR_def)
qed

text \<open>The range of the spec, which asks for a range query, is not read.\<close>

lemma Query_ignores_range: "Query U DefaultClient p (Some (sp\<lparr>prom_Range := x\<rparr>)) = Query U DefaultClient p (Some sp)"
  by (simp add: Query_def queryRequest_def)

section \<open>The analysis on Prometheus\<close>

text \<open>
  The provider the analysis controller creates when it is set up: a client with a timeout of its own, made by the HTTP library
  from the timeout.
\<close>

definition NewPrometheus :: "(duration \<Rightarrow> 'w httpClient) \<Rightarrow> 'w prometheus" where
  "NewPrometheus mk = \<lparr>prov_HTTPClient = Some (mk (30 * Second))\<rparr>"

definition withPrometheus :: "urlLib \<Rightarrow> 'w httpClient \<Rightarrow> (duration \<Rightarrow> 'w httpClient) \<Rightarrow> 'w analysisReconciler \<Rightarrow> 'w analysisReconciler" where
  "withPrometheus U DefaultClient mk A = A\<lparr>an_Query := Query U DefaultClient (NewPrometheus mk)\<rparr>"


definition url0 :: urlLib where
  "url0 = \<lparr>ul_Parse = (\<lambda>s. Inr \<lparr>url_Scheme = ''http'', url_Path = [], url_RawQuery = [], url_Other = [s]\<rparr>),
     ul_String = (\<lambda>u. concat (url_Other u) @ url_Path u @ ''?'' @ url_RawQuery u)\<rparr>"

definition downClient0 :: "unit httpClient" where
  "downClient0 = (\<lambda>req. returnE \<lparr>resp_StatusCode = 503, resp_Body = Inr ''down''\<rparr>)"

definition prometheusMetric0 :: metric where
  "prometheusMetric0 = (metric0 ''latency'')\<lparr>met_Provider := provider0\<lparr>mp_Prometheus := Some \<lparr>prom_Address = ''http://prom'',
     prom_Query = ''up'', prom_Timeout = None, prom_Headers = [], prom_Range = None\<rparr>\<rparr>\<rparr>"


end
