(* ===== verification/Go_Memory.thy ===== *)
theory Go_Memory
  imports Main
begin

text \<open>
  Go values in memory, as far as the copying of API objects needs them. Everywhere else of the development an object is a
  value, so that a copy is the object itself; here a pointer is an address, slices and maps refer to cells that others may
  share, and a copy has to be made. \<open>deep\<close> says what a copy promises: it stands for the same data, and every cell it refers to
  is new.
\<close>

named_theorems deep_intros \<open>copies that are deep\<close>

section \<open>Values and memory\<close>

text \<open>
  A scalar by its text; \<open>NilRef\<close> is the nil of pointers, slices and maps; a slice is an array with an offset and a length; a
  struct holds its fields in the order of their declaration.
\<close>

datatype gv = Scalar string | NilRef | Ptr nat | Slice nat nat nat | MapRef nat | Struct "(string \<times> gv) list"

datatype cell = One gv | Arr "gv list" | Dict "(string \<times> string) list"

record heap =
  hp_next :: nat
  hp_mem :: "nat \<Rightarrow> cell option"

definition wf_heap :: "heap \<Rightarrow> bool" where
  "wf_heap h \<longleftrightarrow> (\<forall>a. hp_next h \<le> a \<longrightarrow> hp_mem h a = None)"

definition alloc :: "cell \<Rightarrow> heap \<Rightarrow> nat \<times> heap" where
  "alloc c h = (hp_next h, h\<lparr>hp_next := Suc (hp_next h), hp_mem := (hp_mem h)(hp_next h := Some c)\<rparr>)"

definition store :: "nat \<Rightarrow> cell \<Rightarrow> heap \<Rightarrow> heap" where
  "store a c h = h\<lparr>hp_mem := (hp_mem h)(a := Some c)\<rparr>"

section \<open>Copies\<close>

text \<open>
  A copier takes the value behind \<open>in\<close> and gives the one it writes behind \<open>out\<close>. The combinators are the statements that
  copying functions are made of: an assignment, \<open>new\<close> with a copy of what the pointer refers to, \<open>make\<close> with a copy of each
  element, and the fields one after the other over \<open>*out = *in\<close>. A value that is not of the form is left as it is. The
  addresses are those of the order in which the copies are complete.
\<close>

type_synonym copier = "heap \<Rightarrow> gv \<Rightarrow> gv \<times> heap"

definition plain_copy :: copier where
  "plain_copy h v = (v, h)"

definition copy_ptr :: "copier \<Rightarrow> copier" where
  "copy_ptr C h v = (case v of
     Ptr a \<Rightarrow> (case hp_mem h a of
         Some (One w) \<Rightarrow> (case C h w of (w', h1) \<Rightarrow> (case alloc (One w') h1 of (b, h2) \<Rightarrow> (Ptr b, h2)))
       | _ \<Rightarrow> (v, h))
   | _ \<Rightarrow> (v, h))"

fun copy_all :: "copier \<Rightarrow> heap \<Rightarrow> gv list \<Rightarrow> gv list \<times> heap" where
  "copy_all C h [] = ([], h)"
| "copy_all C h (v # vs) = (case C h v of (v', h1) \<Rightarrow> (case copy_all C h1 vs of (vs', h2) \<Rightarrow> (v' # vs', h2)))"

definition copy_slice :: "copier \<Rightarrow> copier" where
  "copy_slice C h v = (case v of
     Slice a off n \<Rightarrow> (case hp_mem h a of
         Some (Arr vs) \<Rightarrow> (case copy_all C h (take n (drop off vs)) of (vs', h1) \<Rightarrow>
           (case alloc (Arr vs') h1 of (b, h2) \<Rightarrow> (Slice b 0 n, h2)))
       | _ \<Rightarrow> (v, h))
   | _ \<Rightarrow> (v, h))"

definition copy_map :: copier where
  "copy_map h v = (case v of
     MapRef a \<Rightarrow> (case hp_mem h a of
         Some (Dict ms) \<Rightarrow> (case alloc (Dict ms) h of (b, h1) \<Rightarrow> (MapRef b, h1))
       | _ \<Rightarrow> (v, h))
   | _ \<Rightarrow> (v, h))"

definition get_field :: "string \<Rightarrow> (string \<times> gv) list \<Rightarrow> gv" where
  "get_field n ms = (case map_of ms n of None \<Rightarrow> NilRef | Some v \<Rightarrow> v)"

definition set_field :: "string \<Rightarrow> gv \<Rightarrow> (string \<times> gv) list \<Rightarrow> (string \<times> gv) list" where
  "set_field n v ms = map (\<lambda>(m, w). (m, if m = n then v else w)) ms"

fun copy_fields :: "(string \<times> copier) list \<Rightarrow> heap \<Rightarrow> (string \<times> gv) list \<Rightarrow> (string \<times> gv) list \<Rightarrow> (string \<times> gv) list \<times> heap" where
  "copy_fields [] h ins outs = (outs, h)"
| "copy_fields ((n, C) # cs) h ins outs = (case C h (get_field n ins) of (v, h1) \<Rightarrow> copy_fields cs h1 ins (set_field n v outs))"

definition copy_struct :: "(string \<times> copier) list \<Rightarrow> copier" where
  "copy_struct cs h v = (case v of
     Struct ms \<Rightarrow> (case copy_fields cs h ms ms of (ms', h') \<Rightarrow> (Struct ms', h'))
   | _ \<Rightarrow> (v, h))"

text \<open>\<open>DeepCopy\<close>: nil for nil, and a new object with the copy otherwise.\<close>

definition new_copy :: "copier \<Rightarrow> copier" where
  "new_copy C h p = (if p = NilRef then (NilRef, h) else copy_ptr C h p)"

section \<open>What values stand for\<close>

text \<open>The data behind a value, with the references resolved, and the cells it is spread over.\<close>

datatype tree = TScalar string | TNil | TPtr tree | TSlice "tree list" | TMap "(string \<times> string) list" | TStruct "(string \<times> tree) list"

lemma size_elem: "t \<in> set ts \<Longrightarrow> size t < Suc (size_list size ts)"
  by (induction ts) auto

lemma size_field: "g \<in> set ts \<Longrightarrow> size (snd g) < Suc (size_list (size_prod (\<lambda>_. 0) size) ts)"
  by (induction ts) auto

function denotes :: "heap \<Rightarrow> gv \<Rightarrow> tree \<Rightarrow> bool" where
  "denotes h v (TScalar s) = (v = Scalar s)"
| "denotes h v TNil = (v = NilRef)"
| "denotes h v (TPtr t) = (case v of Ptr a \<Rightarrow> (case hp_mem h a of Some (One w) \<Rightarrow> denotes h w t | _ \<Rightarrow> False) | _ \<Rightarrow> False)"
| "denotes h v (TSlice ts) = (case v of
     Slice a off n \<Rightarrow> (case hp_mem h a of
         Some (Arr vs) \<Rightarrow> off + n \<le> length vs \<and> list_all2 (denotes h) (take n (drop off vs)) ts | _ \<Rightarrow> False)
   | _ \<Rightarrow> False)"
| "denotes h v (TMap ms) = (case v of MapRef a \<Rightarrow> hp_mem h a = Some (Dict ms) | _ \<Rightarrow> False)"
| "denotes h v (TStruct ts) = (case v of
     Struct ms \<Rightarrow> list_all2 (\<lambda>f g. fst f = fst g \<and> denotes h (snd f) (snd g)) ms ts | _ \<Rightarrow> False)"

  by pat_completeness auto
termination
  by (relation "measure (\<lambda>(h, v, t). size t)") (auto dest: size_elem size_field)

function (sequential) cells :: "heap \<Rightarrow> gv \<Rightarrow> tree \<Rightarrow> nat set" where
  "cells h v (TPtr t) = (case v of Ptr a \<Rightarrow> (case hp_mem h a of Some (One w) \<Rightarrow> insert a (cells h w t) | _ \<Rightarrow> {}) | _ \<Rightarrow> {})"
| "cells h v (TSlice ts) = (case v of
     Slice a off n \<Rightarrow> (case hp_mem h a of
         Some (Arr vs) \<Rightarrow> insert a (\<Union> (set (map2 (cells h) (take n (drop off vs)) ts))) | _ \<Rightarrow> {})
   | _ \<Rightarrow> {})"
| "cells h v (TMap ms) = (case v of MapRef a \<Rightarrow> {a} | _ \<Rightarrow> {})"
| "cells h v (TStruct ts) = (case v of
     Struct ms \<Rightarrow> \<Union> (set (map2 (\<lambda>f g. cells h (snd f) (snd g)) ms ts)) | _ \<Rightarrow> {})"
| "cells h v t = {}"
  by pat_completeness auto
termination
  by (relation "measure (\<lambda>(h, v, t). size t)") (auto dest!: set_zip_rightD dest: size_elem size_field)

lemma denotes_agree:
  "denotes h v t \<Longrightarrow> (\<And>a. a \<in> cells h v t \<Longrightarrow> hp_mem h' a = hp_mem h a) \<Longrightarrow> denotes h' v t \<and> cells h' v t = cells h v t"
proof (induction t arbitrary: v)
  case (TPtr t)
  then show ?case by (auto split: gv.splits option.splits cell.splits)
next
  case (TSlice ts)
  then obtain a off n vs where v: "v = Slice a off n" "hp_mem h a = Some (Arr vs)" "off + n \<le> length vs"
    "list_all2 (denotes h) (take n (drop off vs)) ts"
    by (auto split: gv.splits option.splits cell.splits)
  let ?vs = "take n (drop off vs)"
  have mem: "hp_mem h' a = Some (Arr vs)" using TSlice.prems(2) [of a] by (simp add: v)
  have each: "denotes h' w t \<and> cells h' w t = cells h w t" if "(w, t) \<in> set (zip ?vs ts)" for w t
  proof (rule TSlice.IH)
    show "t \<in> set ts" using that by (rule set_zip_rightD)
    show "denotes h w t" using that v(4) by (auto simp: list_all2_iff)
    show "hp_mem h' a = hp_mem h a" if "a \<in> cells h w t" for a
      using that \<open>(w, t) \<in> _\<close> by (intro TSlice.prems(2)) (auto simp: v)
  qed
  then have "list_all2 (denotes h') ?vs ts" using v(4) by (auto simp: list_all2_iff)
  moreover have "map2 (cells h') ?vs ts = map2 (cells h) ?vs ts" using each by (auto intro!: map_cong)
  ultimately show ?case by (simp add: v mem)
next
  case (TStruct ts)
  then obtain ms where v: "v = Struct ms" "list_all2 (\<lambda>f g. fst f = fst g \<and> denotes h (snd f) (snd g)) ms ts"
    by (auto split: gv.splits)
  have each: "denotes h' (snd f) (snd g) \<and> cells h' (snd f) (snd g) = cells h (snd f) (snd g)" if "(f, g) \<in> set (zip ms ts)" for f g
  proof -
    have "snd g \<in> snd ` set ts" using that by (auto dest: set_zip_rightD)
    moreover have "denotes h (snd f) (snd g)" using that v(2) by (auto simp: list_all2_iff)
    moreover have "cells h (snd f) (snd g) \<subseteq> cells h v (TStruct ts)" using that by (auto simp: v)
    ultimately show ?thesis using TStruct.IH [of g "snd g"] TStruct.prems(2) that
      by (metis (no_types, lifting) set_zip_rightD snds.intros subsetD)
  qed
  then have "list_all2 (\<lambda>f g. fst f = fst g \<and> denotes h' (snd f) (snd g)) ms ts" using v(2) by (auto simp: list_all2_iff)
  moreover have "map2 (\<lambda>f g. cells h' (snd f) (snd g)) ms ts = map2 (\<lambda>f g. cells h (snd f) (snd g)) ms ts"
    using each by (auto intro!: map_cong)
  ultimately show ?case by (simp add: v)
qed (auto split: gv.splits)

lemma cells_allocated: "denotes h v t \<Longrightarrow> a \<in> cells h v t \<Longrightarrow> hp_mem h a \<noteq> None"
proof (induction t arbitrary: v)
  case (TSlice ts)
  then show ?case
    by (fastforce simp: list_all2_iff dest: set_zip_rightD split: gv.splits option.splits cell.splits)
next
  case (TStruct ts)
  then obtain ms f g where "v = Struct ms" "(f, g) \<in> set (zip ms ts)" "a \<in> cells h (snd f) (snd g)" "denotes h (snd f) (snd g)"
    by (auto simp: list_all2_iff split: gv.splits)
  then show ?case using TStruct.IH [of g "snd g"] by (metis set_zip_rightD snds.intros)
qed (auto split: gv.splits option.splits cell.splits)

text \<open>A later heap, in which what was there still is.\<close>

definition extends :: "heap \<Rightarrow> heap \<Rightarrow> bool" where
  "extends h h' \<longleftrightarrow> wf_heap h' \<and> hp_next h \<le> hp_next h' \<and> (\<forall>a < hp_next h. hp_mem h' a = hp_mem h a)"

lemma cells_below: "wf_heap h \<Longrightarrow> denotes h v t \<Longrightarrow> a \<in> cells h v t \<Longrightarrow> a < hp_next h"
  using cells_allocated [of h v t a] by (auto simp: wf_heap_def not_le [symmetric])

lemma extends_refl: "wf_heap h \<Longrightarrow> extends h h"
  by (simp add: extends_def)

lemma extends_trans: "extends h h1 \<Longrightarrow> extends h1 h2 \<Longrightarrow> extends h h2"
  by (auto simp: extends_def)

lemma extends_wf: "extends h h' \<Longrightarrow> wf_heap h'"
  by (simp add: extends_def)

lemma denotes_extends:
  assumes "wf_heap h" and "denotes h v t" and "extends h h'"
  shows "denotes h' v t" and "cells h' v t = cells h v t"
  using denotes_agree [OF assms(2), of h'] cells_below [OF assms(1,2)] assms(3) by (auto simp: extends_def)

lemma extends_alloc: "wf_heap h \<Longrightarrow> extends h (snd (alloc c h))"
  by (auto simp: alloc_def extends_def wf_heap_def)

section \<open>Deep copies\<close>

text \<open>
  A copier is deep on the data of a kind if its copy stands for the same data, has only new cells, and leaves what was
  there as it was.
\<close>

definition copied :: "heap \<Rightarrow> heap \<Rightarrow> gv \<Rightarrow> tree \<Rightarrow> bool" where
  "copied h h' v t \<longleftrightarrow> extends h h' \<and> denotes h' v t \<and> (\<forall>a \<in> cells h' v t. hp_next h \<le> a)"

definition deep :: "copier \<Rightarrow> (tree \<Rightarrow> bool) \<Rightarrow> bool" where
  "deep C P \<longleftrightarrow> (\<forall>h v t v' h'. wf_heap h \<and> denotes h v t \<and> P t \<and> C h v = (v', h') \<longrightarrow> copied h h' v' t)"

lemma deepD: "deep C P \<Longrightarrow> wf_heap h \<Longrightarrow> denotes h v t \<Longrightarrow> P t \<Longrightarrow> C h v = (v', h') \<Longrightarrow> copied h h' v' t"
  by (auto simp: deep_def)

text \<open>Data without references, for which an assignment is a copy.\<close>

fun leafy :: "tree \<Rightarrow> bool" where
  "leafy (TScalar s) = True"
| "leafy TNil = True"
| "leafy (TStruct ts) = list_all (\<lambda>g. leafy (snd g)) ts"
| "leafy _ = False"

lemma leafy_cells: "leafy t \<Longrightarrow> cells h v t = {}"
proof (induction t arbitrary: v)
  case (TStruct ts)
  have "cells h (snd f) (snd g) = {}" if "(f, g) \<in> set (zip ms ts)" for f g ms
    using that TStruct by (metis leafy.simps(3) list_all_iff set_zip_rightD snds.intros)
  then show ?case by (fastforce split: gv.splits)
qed auto

lemma deep_plain: "(\<And>t. P t \<Longrightarrow> leafy t) \<Longrightarrow> deep plain_copy P"
  by (auto simp: deep_def plain_copy_def copied_def extends_refl leafy_cells)

lemma copied_later:
  assumes "wf_heap h" and "copied h h1 v t" and "extends h1 h2"
  shows "copied h h2 v t"
proof -
  from assms have "wf_heap h1" "denotes h1 v t" by (auto simp: copied_def extends_def)
  from denotes_extends [OF this assms(3)] assms show ?thesis
    by (auto simp: copied_def intro: extends_trans)
qed

lemma copied_alloc:
  assumes "wf_heap h1" and "alloc c h1 = (b, h2)"
  shows "extends h1 h2" and "hp_mem h2 b = Some c" and "b = hp_next h1"
  using extends_alloc [OF assms(1), of c] assms(2) by (auto simp: alloc_def)

lemma deep_ptr:
  assumes "deep C P"
  shows "deep (copy_ptr C) (\<lambda>t. t = TNil \<or> (\<exists>u. t = TPtr u \<and> P u))"
  unfolding deep_def
proof (intro allI impI, elim conjE)
  fix h v t v' h'
  assume wf: "wf_heap h" and v: "denotes h v t" and run: "copy_ptr C h v = (v', h')" and "t = TNil \<or> (\<exists>u. t = TPtr u \<and> P u)"
  then consider "t = TNil" | u where "t = TPtr u" "P u" by blast
  then show "copied h h' v' t"
  proof cases
    case 1
    with v run wf show ?thesis by (auto simp: copy_ptr_def copied_def extends_refl)
  next
    case 2
    with v obtain a w where a: "v = Ptr a" "hp_mem h a = Some (One w)" "denotes h w u"
      by (auto split: gv.splits option.splits cell.splits)
    obtain w' h1 where C: "C h w = (w', h1)" by fastforce
    obtain b h2 where alloc: "alloc (One w') h1 = (b, h2)" by fastforce
    from run a C alloc have res: "v' = Ptr b" "h' = h2" by (auto simp: copy_ptr_def)
    have c1: "copied h h1 w' u" using deepD [OF assms wf a(3) 2(2) C] .
    then have wf1: "wf_heap h1" and next1: "hp_next h \<le> hp_next h1" by (auto simp: copied_def extends_def)
    note al = copied_alloc [OF wf1 alloc]
    from copied_later [OF wf c1 al(1)] al next1 show ?thesis by (simp add: copied_def res 2(1))
  qed
qed

lemma copy_all_copied:
  assumes "deep C P"
  shows "wf_heap h \<Longrightarrow> list_all2 (denotes h) vs ts \<Longrightarrow> list_all P ts \<Longrightarrow> copy_all C h vs = (vs', h') \<Longrightarrow>
    extends h h' \<and> list_all2 (copied h h') vs' ts"
proof (induction vs arbitrary: ts h vs')
  case Nil
  then show ?case by (simp add: extends_refl)
next
  case (Cons v vs)
  then obtain t us where ts: "ts = t # us" "denotes h v t" "P t" "list_all2 (denotes h) vs us" "list_all P us"
    by (auto simp: list_all2_Cons1)
  obtain w h1 where C: "C h v = (w, h1)" by fastforce
  obtain ws where ws: "copy_all C h1 vs = (ws, h')" "vs' = w # ws"
    using Cons.prems(4) C by (auto split: prod.splits)
  have w: "copied h h1 w t" using deepD [OF assms Cons.prems(1) ts(2,3) C] .
  then have ext: "extends h h1" "wf_heap h1" by (auto simp: copied_def extends_def)
  have "list_all2 (denotes h1) vs us"
    using ts(4) by (rule list_all2_mono) (use denotes_extends(1) [OF Cons.prems(1) _ ext(1)] in blast)
  from Cons.IH [OF ext(2) this ts(5) ws(1)] have rest: "extends h1 h'" "list_all2 (copied h1 h') ws us" by auto
  have "list_all2 (copied h h') ws us"
    using rest(2) by (rule list_all2_mono) (use ext rest in \<open>auto simp: copied_def extends_def intro: extends_trans\<close>)
  with copied_later [OF Cons.prems(1) w rest(1)] extends_trans [OF ext(1) rest(1)] show ?case
    by (simp add: ts(1) ws(2))
qed

lemma deep_slice:
  assumes "deep C P"
  shows "deep (copy_slice C) (\<lambda>t. t = TNil \<or> (\<exists>ts. t = TSlice ts \<and> list_all P ts))"
  unfolding deep_def
proof (intro allI impI, elim conjE)
  fix h v t v' h'
  assume wf: "wf_heap h" and v: "denotes h v t" and run: "copy_slice C h v = (v', h')"
    and "t = TNil \<or> (\<exists>ts. t = TSlice ts \<and> list_all P ts)"
  then consider "t = TNil" | ts where "t = TSlice ts" "list_all P ts" by blast
  then show "copied h h' v' t"
  proof cases
    case 1
    with v run wf show ?thesis by (auto simp: copy_slice_def copied_def extends_refl)
  next
    case 2
    with v obtain a off n vs where a: "v = Slice a off n" "hp_mem h a = Some (Arr vs)" "off + n \<le> length vs"
      "list_all2 (denotes h) (take n (drop off vs)) ts"
      by (auto split: gv.splits option.splits cell.splits)
    obtain vs' h1 where C: "copy_all C h (take n (drop off vs)) = (vs', h1)" by fastforce
    obtain b h2 where alloc: "alloc (Arr vs') h1 = (b, h2)" by fastforce
    from run a C alloc have res: "v' = Slice b 0 n" "h' = h2" by (auto simp: copy_slice_def)
    have c1: "extends h h1" "list_all2 (copied h h1) vs' ts"
      using copy_all_copied [OF assms wf a(4) 2(2) C] by auto
    then have wf1: "wf_heap h1" and next1: "hp_next h \<le> hp_next h1" by (auto simp: extends_def)
    note al = copied_alloc [OF wf1 alloc]
    have len: "length vs' = n" using c1(2) a(3,4) by (auto dest!: list_all2_lengthD)
    have "list_all2 (copied h h2) vs' ts"
      using c1(2) by (rule list_all2_mono) (rule copied_later [OF wf _ al(1)])
    then have "list_all2 (denotes h2) vs' ts" "\<forall>(w, u) \<in> set (zip vs' ts). \<forall>x \<in> cells h2 w u. hp_next h \<le> x"
      by (auto simp: copied_def list_all2_iff)
    with al next1 extends_trans [OF c1(1) al(1)] len show ?thesis
      by (auto simp: copied_def res 2(1))
  qed
qed

lemma deep_map: "deep copy_map (\<lambda>t. t = TNil \<or> (\<exists>ms. t = TMap ms))"
  unfolding deep_def
proof (intro allI impI, elim conjE)
  fix h v t v' h'
  assume wf: "wf_heap h" and v: "denotes h v t" and run: "copy_map h v = (v', h')" and "t = TNil \<or> (\<exists>ms. t = TMap ms)"
  then consider "t = TNil" | ms where "t = TMap ms" by blast
  then show "copied h h' v' t"
  proof cases
    case 1
    with v run wf show ?thesis by (auto simp: copy_map_def copied_def extends_refl)
  next
    case 2
    obtain b h1 where alloc: "alloc (Dict ms) h = (b, h1)" by fastforce
    with v run 2 have "v' = MapRef b" "h' = h1" by (auto simp: copy_map_def split: gv.splits)
    with copied_alloc [OF wf alloc] show ?thesis by (simp add: copied_def 2)
  qed
qed

section \<open>Copies of structs\<close>

lemma list_all2_set_field:
  assumes "list_all2 R outs ts" and "\<And>f g. R f g \<Longrightarrow> fst f \<noteq> n \<Longrightarrow> R' f g"
    and "\<And>f g. R f g \<Longrightarrow> g \<in> set ts \<Longrightarrow> fst f = n \<Longrightarrow> R' (n, v) g"
  shows "list_all2 R' (set_field n v outs) ts"
  using assms unfolding set_field_def
  by (auto simp: list_all2_conv_all_nth split: prod.split)

text \<open>
  The state of a struct while its fields are copied: those that have been reached are copied, the others are still those of
  the original.
\<close>

definition in_part :: "heap \<Rightarrow> heap \<Rightarrow> (string \<times> gv) list \<Rightarrow> string set \<Rightarrow> string \<times> gv \<Rightarrow> string \<times> tree \<Rightarrow> bool" where
  "in_part h0 h ins reached f g \<longleftrightarrow> fst f = fst g \<and> denotes h0 (get_field (fst g) ins) (snd g) \<and>
     (if fst f \<in> reached then copied h0 h (snd f) (snd g) else snd f = get_field (fst g) ins)"

lemma copied_from:
  assumes "extends h0 h" and "copied h h1 v t"
  shows "copied h0 h1 v t"
  using assms extends_trans [OF assms(1), of h1] by (auto simp: copied_def extends_def)

lemma copy_fields_part:
  assumes wf0: "wf_heap h0" and P: "\<And>g. g \<in> set ts \<Longrightarrow> P (fst g) (snd g)"
  shows "extends h0 h \<Longrightarrow> list_all (\<lambda>(n, C). n \<in> fst ` set ts \<and> deep C (P n)) cs \<Longrightarrow>
    list_all2 (in_part h0 h ins reached) outs ts \<Longrightarrow> copy_fields cs h ins outs = (outs', h') \<Longrightarrow>
    extends h0 h' \<and> list_all2 (in_part h0 h' ins (reached \<union> fst ` set cs)) outs' ts"
proof (induction cs arbitrary: h outs reached)
  case Nil
  then show ?case by simp
next
  case (Cons c cs)
  obtain n C where c: "c = (n, C)" by fastforce
  obtain v h1 where run: "C h (get_field n ins) = (v, h1)" by fastforce
  have copy: "copied h h1 v (snd g)" if "denotes h0 (get_field n ins) (snd g)" "g \<in> set ts" "fst g = n" for g
  proof -
    have "deep C (P n)" using Cons.prems(2) by (simp add: c)
    from deepD [OF this, where v = "get_field n ins" and t = "snd g" and h = h] show ?thesis
      using denotes_extends(1) [OF wf0 that(1) Cons.prems(1)] P [OF that(2)] that(3) extends_wf [OF Cons.prems(1)] run by simp
  qed
  have "n \<in> fst ` set ts" using Cons.prems(2) by (simp add: c)
  then obtain g where "g \<in> set ts" "fst g = n" by auto
  with Cons.prems(3) have "denotes h0 (get_field n ins) (snd g)"
    by (auto simp: in_part_def list_all2_conv_all_nth in_set_conv_nth)
  from copy [OF this \<open>g \<in> set ts\<close> \<open>fst g = n\<close>] have ext: "extends h h1" by (simp add: copied_def)
  have "list_all2 (in_part h0 h1 ins (insert n reached)) (set_field n v outs) ts"
  proof (rule list_all2_set_field [OF Cons.prems(3)])
    show "in_part h0 h1 ins (insert n reached) f g" if "in_part h0 h ins reached f g" "fst f \<noteq> n" for f g
      using that copied_later [OF wf0 _ ext] by (auto simp: in_part_def split: if_splits)
    show "in_part h0 h1 ins (insert n reached) (n, v) g" if "in_part h0 h ins reached f g" "g \<in> set ts" "fst f = n" for f g
    proof -
      from that have d: "denotes h0 (get_field n ins) (snd g)" "fst g = n" by (auto simp: in_part_def)
      from copied_from [OF Cons.prems(1) copy [OF d(1) that(2) d(2)]] d show ?thesis by (simp add: in_part_def)
    qed
  qed
  from Cons.IH [OF extends_trans [OF Cons.prems(1) ext] _ this] Cons.prems(2,4) run show ?case by (simp add: c)
qed

lemma deep_struct:
  assumes "list_all (\<lambda>(n, C). n \<in> fst ` set Ps \<and> deep C (\<lambda>t. \<exists>P. (n, P) \<in> set Ps \<and> P t)) cs"
    and "list_all (\<lambda>(n, P). n \<in> fst ` set cs \<or> (\<forall>t. P t \<longrightarrow> leafy t)) Ps" and "distinct (map fst Ps)"
  shows "deep (copy_struct cs) (\<lambda>t. \<exists>ts. t = TStruct ts \<and> list_all2 (\<lambda>p g. fst p = fst g \<and> snd p (snd g)) Ps ts)"
  unfolding deep_def
proof (intro allI impI, elim conjE exE)
  fix h v t v' h' ts
  assume wf: "wf_heap h" and v: "denotes h v t" and run: "copy_struct cs h v = (v', h')" and t: "t = TStruct ts"
    and fit: "list_all2 (\<lambda>p g. fst p = fst g \<and> snd p (snd g)) Ps ts"
  from v t obtain ms where ms: "v = Struct ms" "list_all2 (\<lambda>f g. fst f = fst g \<and> denotes h (snd f) (snd g)) ms ts"
    by (auto split: gv.splits)
  obtain ms' where copy: "copy_fields cs h ms ms = (ms', h')" "v' = Struct ms'"
    using run ms(1) by (auto simp: copy_struct_def split: prod.splits)
  have names: "map fst ts = map fst Ps" "map fst ms = map fst Ps"
    using fit ms(2) by (auto simp: list_all2_conv_all_nth list_eq_iff_nth_eq)
  have own: "get_field (fst f) ms = snd f" if "f \<in> set ms" for f
  proof -
    have "map_of ms (fst f) = Some (snd f)" using that names(2) assms(3) by (simp add: map_of_eq_Some_iff)
    then show ?thesis by (simp add: get_field_def)
  qed
  have "list_all2 (in_part h h ms {}) ms ts"
    unfolding list_all2_conv_all_nth
  proof (intro conjI allI impI)
    fix i assume i: "i < length ms"
    with ms(2) have "fst (ms ! i) = fst (ts ! i)" "denotes h (snd (ms ! i)) (snd (ts ! i))"
      by (auto simp: list_all2_conv_all_nth)
    with own [OF nth_mem [OF i]] show "in_part h h ms {} (ms ! i) (ts ! i)" by (simp add: in_part_def)
  qed (use ms(2) in \<open>rule list_all2_lengthD\<close>)
  moreover have "\<exists>P. (fst g, P) \<in> set Ps \<and> P (snd g)" if "g \<in> set ts" for g
    using that fit by (metis (mono_tags, lifting) in_set_conv_nth list_all2_conv_all_nth prod.collapse)
  moreover have "fst ` set ts = fst ` set Ps" using arg_cong [OF names(1), of set] by simp
  ultimately have part: "extends h h'" "list_all2 (in_part h h' ms (fst ` set cs)) ms' ts"
    using copy_fields_part [OF wf, of ts "\<lambda>n t. \<exists>P. (n, P) \<in> set Ps \<and> P t" h cs ms "{}" ms ms' h'] assms(1) copy(1)
    by (auto simp: extends_refl [OF wf])
  have "copied h h' (snd f) (snd g)" if prt: "in_part h h' ms (fst ` set cs) f g" and mem: "g \<in> set ts" for f g
  proof (cases "fst f \<in> fst ` set cs")
    case False
    obtain P where "(fst g, P) \<in> set Ps" "P (snd g)"
      using mem fit by (metis (mono_tags, lifting) in_set_conv_nth list_all2_conv_all_nth prod.collapse)
    with False assms(2) prt have "leafy (snd g)" by (auto simp: in_part_def list_all_iff)
    with False prt denotes_extends(1) [OF wf _ part(1)] part(1) show ?thesis
      by (auto simp: in_part_def copied_def leafy_cells)
  qed (use prt in \<open>simp add: in_part_def\<close>)
  then have "list_all2 (\<lambda>f g. fst f = fst g \<and> copied h h' (snd f) (snd g)) ms' ts"
    by (rule_tac list.rel_mono_strong [OF part(2)]) (simp add: in_part_def)
  then show "copied h h' v' t"
    using part(1) by (auto simp: copied_def copy(2) t list_all2_iff)
qed

section \<open>Types\<close>

text \<open>
  The types of Go that API objects are declared with, and the data a value of a type can stand for. The types of other modules
  go by their name; \<open>E\<close> says what their data is.
\<close>

datatype ty = ScalarT | PointerT ty | SliceT ty | MapT | StructT "(string \<times> ty) list" | ExternalT string

fun fits :: "(string \<Rightarrow> tree \<Rightarrow> bool) \<Rightarrow> ty \<Rightarrow> tree \<Rightarrow> bool" where
  "fits E ScalarT t = (case t of TScalar s \<Rightarrow> True | _ \<Rightarrow> False)"
| "fits E (PointerT T) t = (case t of TNil \<Rightarrow> True | TPtr u \<Rightarrow> fits E T u | _ \<Rightarrow> False)"
| "fits E (SliceT T) t = (case t of TNil \<Rightarrow> True | TSlice ts \<Rightarrow> list_all (fits E T) ts | _ \<Rightarrow> False)"
| "fits E MapT t = (case t of TNil \<Rightarrow> True | TMap ms \<Rightarrow> True | _ \<Rightarrow> False)"
| "fits E (StructT fs) t = (case t of TStruct ts \<Rightarrow> list_all2 (\<lambda>p g. fst p = fst g \<and> fits E (snd p) (snd g)) fs ts | _ \<Rightarrow> False)"
| "fits E (ExternalT n) t = E n t"

definition flat :: "(string \<Rightarrow> tree \<Rightarrow> bool) \<Rightarrow> ty \<Rightarrow> bool" where
  "flat E T \<longleftrightarrow> (\<forall>t. fits E T t \<longrightarrow> leafy t)"

text \<open>
  What the copying of an object relies on of other modules: the copier \<open>X n\<close> of a type \<open>n\<close> is deep, and the types that are
  copied by assignment have no references.
\<close>

definition externals :: "string list \<Rightarrow> (string \<Rightarrow> tree \<Rightarrow> bool) \<Rightarrow> (string \<Rightarrow> copier) \<Rightarrow> bool" where
  "externals flats E X \<longleftrightarrow> (\<forall>n. deep (X n) (E n)) \<and> (\<forall>n \<in> set flats. flat E (ExternalT n))"

lemma fits_external: "fits E (ExternalT n) = E n"
  by (rule ext) simp

lemma deep_external [deep_intros]: "externals flats E X \<Longrightarrow> deep (X n) (fits E (ExternalT n))"
  by (simp add: externals_def fits_external)

lemma flat_external: "externals flats E X \<Longrightarrow> n \<in> set flats \<Longrightarrow> flat E (ExternalT n)"
  by (simp add: externals_def)

lemma flat_scalar [simp]: "flat E ScalarT"
  by (auto simp: flat_def split: tree.splits)

lemma flat_struct: "list_all (\<lambda>p. flat E (snd p)) fs \<Longrightarrow> flat E (StructT fs)"
  unfolding flat_def
proof (intro allI impI)
  fix t assume each: "list_all (\<lambda>p. \<forall>t. fits E (snd p) t \<longrightarrow> leafy t) fs" and "fits E (StructT fs) t"
  then obtain ts where t: "t = TStruct ts" "list_all2 (\<lambda>p g. fst p = fst g \<and> fits E (snd p) (snd g)) fs ts"
    by (auto split: tree.splits)
  have "leafy (snd g)" if "g \<in> set ts" for g
    using that t(2) each by (metis (no_types, lifting) in_set_conv_nth list_all2_conv_all_nth list_all_length)
  then show "leafy t" by (simp add: t(1) list_all_iff)
qed

lemma deep_flat [deep_intros]: "flat E T \<Longrightarrow> deep plain_copy (fits E T)"
  by (auto simp: flat_def intro: deep_plain)

lemma deep_pointer [deep_intros]: "deep C (fits E T) \<Longrightarrow> deep (copy_ptr C) (fits E (PointerT T))"
  using deep_ptr [of C "fits E T"] by (auto simp: deep_def split: tree.splits)

lemma deep_sliceT [deep_intros]: "deep C (fits E T) \<Longrightarrow> deep (copy_slice C) (fits E (SliceT T))"
  using deep_slice [of C "fits E T"] by (auto simp: deep_def split: tree.splits)

lemma deep_mapT [deep_intros]: "deep copy_map (fits E MapT)"
  using deep_map by (auto simp: deep_def split: tree.splits)

lemma deep_structT:
  assumes "list_all (\<lambda>(n, C). case map_of fs n of None \<Rightarrow> False | Some T \<Rightarrow> deep C (fits E T)) cs"
    and "list_all (\<lambda>(n, T). n \<in> fst ` set cs \<or> flat E T) fs" and "distinct (map fst fs)"
  shows "deep (copy_struct cs) (fits E (StructT fs))"
proof -
  let ?Ps = "map (\<lambda>(n, T). (n, fits E T)) fs"
  have uniq: "(n, P) \<in> set ?Ps \<longleftrightarrow> (\<exists>T. map_of fs n = Some T \<and> P = fits E T)" for n P
    using assms(3) by (auto simp: map_of_eq_Some_iff)
  have "deep (copy_struct cs) (\<lambda>t. \<exists>ts. t = TStruct ts \<and> list_all2 (\<lambda>p g. fst p = fst g \<and> snd p (snd g)) ?Ps ts)"
  proof (rule deep_struct)
    show "list_all (\<lambda>(n, C). n \<in> fst ` set ?Ps \<and> deep C (\<lambda>t. \<exists>P. (n, P) \<in> set ?Ps \<and> P t)) cs"
      unfolding list_all_iff
    proof (clarify, intro conjI)
      fix n C assume "(n, C) \<in> set cs"
      with assms(1) obtain T where T: "map_of fs n = Some T" "deep C (fits E T)"
        by (auto simp: list_all_iff split: option.splits)
      have "(n, fits E T) \<in> set ?Ps" using T(1) uniq by blast
      then show "n \<in> fst ` set ?Ps" by (metis fst_conv imageI)
      show "deep C (\<lambda>t. \<exists>P. (n, P) \<in> set ?Ps \<and> P t)"
        unfolding uniq using T by simp
    qed
    show "list_all (\<lambda>(n, P). n \<in> fst ` set cs \<or> (\<forall>t. P t \<longrightarrow> leafy t)) ?Ps"
      using assms(2) by (auto simp: list_all_iff flat_def)
    show "distinct (map fst ?Ps)" using assms(3) by (simp add: comp_def split_def)
  qed
  then show ?thesis
    by (auto simp: deep_def list_all2_map1 split_def split: tree.splits)
qed

section \<open>Independence\<close>

text \<open>
  A deep copy and its original share no cell, so that a write through the one is not seen through the other.
\<close>

lemma denotes_store: "denotes h v t \<Longrightarrow> a \<notin> cells h v t \<Longrightarrow> denotes (store a c h) v t"
  by (rule denotes_agree [THEN conjunct1]) (auto simp: store_def)

lemma new_copy_independent:
  assumes "deep C P" and "wf_heap h" and "denotes h p (TPtr t)" and "P t" and "new_copy C h p = (q, h')"
  shows "denotes h' p (TPtr t) \<and> denotes h' q (TPtr t) \<and> cells h' p (TPtr t) \<inter> cells h' q (TPtr t) = {}"
proof -
  have "p \<noteq> NilRef" using assms(3) by auto
  with assms(5) have "copy_ptr C h p = (q, h')" by (simp add: new_copy_def)
  from deepD [OF deep_ptr [OF assms(1)] assms(2,3) _ this] assms(4)
  have copy: "copied h h' q (TPtr t)" by blast
  then have ext: "extends h h'" by (simp add: copied_def)
  note old = denotes_extends [OF assms(2,3) ext]
  have "a < hp_next h" if "a \<in> cells h' p (TPtr t)" for a
    using cells_below [OF assms(2,3), of a] that by (simp only: old(2))
  with copy old(1) show ?thesis by (fastforce simp only: copied_def disjoint_iff not_le [symmetric])
qed

end
