(* ===== verification/Deep_Copies.thy ===== *)
theory Deep_Copies
  imports Go_Memory
begin

text \<open>
  The copying functions of the API objects, \<open>zz_generated.deepcopy.go\<close>. For each struct there is its type as
  \<open>types_rollout.go\<close>, \<open>types_analysis.go\<close> and \<open>types_experiment.go\<close> declare it, and its \<open>DeepCopyInto\<close> and \<open>DeepCopy\<close> as the
  generated file has them, statement by statement. A lemma for each struct shows that its copy is deep: no field
  with a reference is left out. The copiers of types of other modules are the parameter \<open>X\<close>.
\<close>

text \<open>The types of other modules that are copied by assignment.\<close>

definition by_value :: "string list" where
  "by_value = [''v1.TypeMeta'', ''v1.Duration'', ''intstr.IntOrString'']"

abbreviation externs :: "(string \<Rightarrow> tree \<Rightarrow> bool) \<Rightarrow> (string \<Rightarrow> copier) \<Rightarrow> bool" where
  "externs E X \<equiv> externals by_value E X"

lemma flat_by_value [deep_intros]:
  "externs E X \<Longrightarrow> flat E (ExternalT ''v1.TypeMeta'')" "externs E X \<Longrightarrow> flat E (ExternalT ''v1.Duration'')"
  "externs E X \<Longrightarrow> flat E (ExternalT ''intstr.IntOrString'')"
  by (simp_all add: externals_def by_value_def)

lemmas deep_rules = deep_structT flat_struct

definition ALBStickiness_ty :: ty where
  "ALBStickiness_ty = StructT [(''Enabled'', ScalarT), (''DurationSeconds'', ScalarT), (''Type'', ScalarT)]"

definition ALBStickiness_DeepCopyInto :: "(string \<Rightarrow> copier) \<Rightarrow> copier" where
  "ALBStickiness_DeepCopyInto X = copy_struct []"

definition ALBStickiness_DeepCopy :: "(string \<Rightarrow> copier) \<Rightarrow> copier" where
  "ALBStickiness_DeepCopy X = new_copy (ALBStickiness_DeepCopyInto X)"

lemma ALBStickiness_flat [deep_intros]: "externs E X \<Longrightarrow> flat E ALBStickiness_ty"
  by (simp add: ALBStickiness_ty_def deep_rules deep_intros)

lemma ALBStickiness_deep [deep_intros]: "externs E X \<Longrightarrow> deep (ALBStickiness_DeepCopyInto X) (fits E ALBStickiness_ty)"
  by (simp add: ALBStickiness_ty_def ALBStickiness_DeepCopyInto_def deep_rules deep_intros)

definition ALBConfig_ty :: ty where
  "ALBConfig_ty = StructT [(''Ingresses'', SliceT ScalarT), (''ServicePort'', ScalarT), (''AnnotationPrefix'', ScalarT),
     (''Stickiness'', PointerT ALBStickiness_ty)]"

definition ALBConfig_DeepCopyInto :: "(string \<Rightarrow> copier) \<Rightarrow> copier" where
  "ALBConfig_DeepCopyInto X = copy_struct [(''Ingresses'', copy_slice plain_copy), (''Stickiness'', copy_ptr plain_copy)]"

definition ALBConfig_DeepCopy :: "(string \<Rightarrow> copier) \<Rightarrow> copier" where
  "ALBConfig_DeepCopy X = new_copy (ALBConfig_DeepCopyInto X)"

lemma ALBConfig_deep [deep_intros]: "externs E X \<Longrightarrow> deep (ALBConfig_DeepCopyInto X) (fits E ALBConfig_ty)"
  by (simp add: ALBConfig_ty_def ALBConfig_DeepCopyInto_def deep_rules deep_intros)

definition APISIXRoute_ty :: ty where
  "APISIXRoute_ty = StructT [(''Name'', ScalarT), (''Rules'', SliceT ScalarT)]"

definition APISIXRoute_DeepCopyInto :: "(string \<Rightarrow> copier) \<Rightarrow> copier" where
  "APISIXRoute_DeepCopyInto X = copy_struct [(''Rules'', copy_slice plain_copy)]"

definition APISIXRoute_DeepCopy :: "(string \<Rightarrow> copier) \<Rightarrow> copier" where
  "APISIXRoute_DeepCopy X = new_copy (APISIXRoute_DeepCopyInto X)"

lemma APISIXRoute_deep [deep_intros]: "externs E X \<Longrightarrow> deep (APISIXRoute_DeepCopyInto X) (fits E APISIXRoute_ty)"
  by (simp add: APISIXRoute_ty_def APISIXRoute_DeepCopyInto_def deep_rules deep_intros)

definition APISIXConfig_ty :: ty where
  "APISIXConfig_ty = StructT [(''Routes'', SliceT APISIXRoute_ty)]"

definition APISIXConfig_DeepCopyInto :: "(string \<Rightarrow> copier) \<Rightarrow> copier" where
  "APISIXConfig_DeepCopyInto X = copy_struct [(''Routes'', copy_slice (APISIXRoute_DeepCopyInto X))]"

definition APISIXConfig_DeepCopy :: "(string \<Rightarrow> copier) \<Rightarrow> copier" where
  "APISIXConfig_DeepCopy X = new_copy (APISIXConfig_DeepCopyInto X)"

lemma APISIXConfig_deep [deep_intros]: "externs E X \<Longrightarrow> deep (APISIXConfig_DeepCopyInto X) (fits E APISIXConfig_ty)"
  by (simp add: APISIXConfig_ty_def APISIXConfig_DeepCopyInto_def deep_rules deep_intros)

definition FieldRef_ty :: ty where
  "FieldRef_ty = StructT [(''FieldPath'', ScalarT)]"

definition FieldRef_DeepCopyInto :: "(string \<Rightarrow> copier) \<Rightarrow> copier" where
  "FieldRef_DeepCopyInto X = copy_struct []"

definition FieldRef_DeepCopy :: "(string \<Rightarrow> copier) \<Rightarrow> copier" where
  "FieldRef_DeepCopy X = new_copy (FieldRef_DeepCopyInto X)"

lemma FieldRef_flat [deep_intros]: "externs E X \<Longrightarrow> flat E FieldRef_ty"
  by (simp add: FieldRef_ty_def deep_rules deep_intros)

lemma FieldRef_deep [deep_intros]: "externs E X \<Longrightarrow> deep (FieldRef_DeepCopyInto X) (fits E FieldRef_ty)"
  by (simp add: FieldRef_ty_def FieldRef_DeepCopyInto_def deep_rules deep_intros)

definition ArgSource_ty :: ty where
  "ArgSource_ty = StructT [(''FieldRef'', PointerT FieldRef_ty), (''SecretKeyRef'', PointerT (ExternalT ''corev1.SecretKeySelector''))]"

definition ArgSource_DeepCopyInto :: "(string \<Rightarrow> copier) \<Rightarrow> copier" where
  "ArgSource_DeepCopyInto X = copy_struct [(''FieldRef'', copy_ptr plain_copy), (''SecretKeyRef'', copy_ptr (X ''corev1.SecretKeySelector''))]"

definition ArgSource_DeepCopy :: "(string \<Rightarrow> copier) \<Rightarrow> copier" where
  "ArgSource_DeepCopy X = new_copy (ArgSource_DeepCopyInto X)"

lemma ArgSource_deep [deep_intros]: "externs E X \<Longrightarrow> deep (ArgSource_DeepCopyInto X) (fits E ArgSource_ty)"
  by (simp add: ArgSource_ty_def ArgSource_DeepCopyInto_def deep_rules deep_intros)

definition AnalysisArg_ty :: ty where
  "AnalysisArg_ty = StructT [(''Name'', ScalarT), (''Value'', ScalarT), (''ValueFrom'', PointerT ArgSource_ty)]"

definition AnalysisArg_DeepCopyInto :: "(string \<Rightarrow> copier) \<Rightarrow> copier" where
  "AnalysisArg_DeepCopyInto X = copy_struct [(''ValueFrom'', copy_ptr (ArgSource_DeepCopyInto X))]"

definition AnalysisArg_DeepCopy :: "(string \<Rightarrow> copier) \<Rightarrow> copier" where
  "AnalysisArg_DeepCopy X = new_copy (AnalysisArg_DeepCopyInto X)"

lemma AnalysisArg_deep [deep_intros]: "externs E X \<Longrightarrow> deep (AnalysisArg_DeepCopyInto X) (fits E AnalysisArg_ty)"
  by (simp add: AnalysisArg_ty_def AnalysisArg_DeepCopyInto_def deep_rules deep_intros)

definition TemplateRef_ty :: ty where
  "TemplateRef_ty = StructT [(''Name'', ScalarT), (''Kind'', ScalarT)]"

definition TemplateRef_DeepCopyInto :: "(string \<Rightarrow> copier) \<Rightarrow> copier" where
  "TemplateRef_DeepCopyInto X = copy_struct []"

definition TemplateRef_DeepCopy :: "(string \<Rightarrow> copier) \<Rightarrow> copier" where
  "TemplateRef_DeepCopy X = new_copy (TemplateRef_DeepCopyInto X)"

lemma TemplateRef_flat [deep_intros]: "externs E X \<Longrightarrow> flat E TemplateRef_ty"
  by (simp add: TemplateRef_ty_def deep_rules deep_intros)

lemma TemplateRef_deep [deep_intros]: "externs E X \<Longrightarrow> deep (TemplateRef_DeepCopyInto X) (fits E TemplateRef_ty)"
  by (simp add: TemplateRef_ty_def TemplateRef_DeepCopyInto_def deep_rules deep_intros)

definition DryRunMetric_ty :: ty where
  "DryRunMetric_ty = StructT [(''MetricName'', ScalarT)]"

definition DryRunMetric_DeepCopyInto :: "(string \<Rightarrow> copier) \<Rightarrow> copier" where
  "DryRunMetric_DeepCopyInto X = copy_struct []"

definition DryRunMetric_DeepCopy :: "(string \<Rightarrow> copier) \<Rightarrow> copier" where
  "DryRunMetric_DeepCopy X = new_copy (DryRunMetric_DeepCopyInto X)"

lemma DryRunMetric_flat [deep_intros]: "externs E X \<Longrightarrow> flat E DryRunMetric_ty"
  by (simp add: DryRunMetric_ty_def deep_rules deep_intros)

lemma DryRunMetric_deep [deep_intros]: "externs E X \<Longrightarrow> deep (DryRunMetric_DeepCopyInto X) (fits E DryRunMetric_ty)"
  by (simp add: DryRunMetric_ty_def DryRunMetric_DeepCopyInto_def deep_rules deep_intros)

definition AnalysisHook_ty :: ty where
  "AnalysisHook_ty = StructT [(''When'', ScalarT), (''AtStep'', ScalarT), (''TemplateRefs'', SliceT TemplateRef_ty),
     (''Args'', SliceT AnalysisArg_ty), (''DryRun'', SliceT DryRunMetric_ty), (''InconclusivePolicy'', ScalarT)]"

definition AnalysisHook_DeepCopyInto :: "(string \<Rightarrow> copier) \<Rightarrow> copier" where
  "AnalysisHook_DeepCopyInto X = copy_struct [(''TemplateRefs'', copy_slice plain_copy), (''Args'', copy_slice (AnalysisArg_DeepCopyInto X)),
     (''DryRun'', copy_slice plain_copy)]"

definition AnalysisHook_DeepCopy :: "(string \<Rightarrow> copier) \<Rightarrow> copier" where
  "AnalysisHook_DeepCopy X = new_copy (AnalysisHook_DeepCopyInto X)"

lemma AnalysisHook_deep [deep_intros]: "externs E X \<Longrightarrow> deep (AnalysisHook_DeepCopyInto X) (fits E AnalysisHook_ty)"
  by (simp add: AnalysisHook_ty_def AnalysisHook_DeepCopyInto_def deep_rules deep_intros)

definition PrometheusRange_ty :: ty where
  "PrometheusRange_ty = StructT [(''Start'', ExternalT ''v1.Duration''), (''End'', ExternalT ''v1.Duration''),
     (''Step'', ExternalT ''v1.Duration'')]"

definition PrometheusRange_DeepCopyInto :: "(string \<Rightarrow> copier) \<Rightarrow> copier" where
  "PrometheusRange_DeepCopyInto X = copy_struct [(''Start'', plain_copy), (''End'', plain_copy), (''Step'', plain_copy)]"

definition PrometheusRange_DeepCopy :: "(string \<Rightarrow> copier) \<Rightarrow> copier" where
  "PrometheusRange_DeepCopy X = new_copy (PrometheusRange_DeepCopyInto X)"

lemma PrometheusRange_flat [deep_intros]: "externs E X \<Longrightarrow> flat E PrometheusRange_ty"
  by (simp add: PrometheusRange_ty_def deep_rules deep_intros)

lemma PrometheusRange_deep [deep_intros]: "externs E X \<Longrightarrow> deep (PrometheusRange_DeepCopyInto X) (fits E PrometheusRange_ty)"
  by (simp add: PrometheusRange_ty_def PrometheusRange_DeepCopyInto_def deep_rules deep_intros)

definition PrometheusProvider_ty :: ty where
  "PrometheusProvider_ty = StructT [(''Address'', ScalarT), (''Query'', ScalarT), (''Timeout'', PointerT (ExternalT ''v1.Duration'')),
     (''Headers'', SliceT (ExternalT ''corev1.EnvVar'')), (''Range'', PointerT PrometheusRange_ty)]"

definition PrometheusProvider_DeepCopyInto :: "(string \<Rightarrow> copier) \<Rightarrow> copier" where
  "PrometheusProvider_DeepCopyInto X = copy_struct [(''Timeout'', copy_ptr plain_copy), (''Headers'', copy_slice (X ''corev1.EnvVar'')),
     (''Range'', copy_ptr plain_copy)]"

definition PrometheusProvider_DeepCopy :: "(string \<Rightarrow> copier) \<Rightarrow> copier" where
  "PrometheusProvider_DeepCopy X = new_copy (PrometheusProvider_DeepCopyInto X)"

lemma PrometheusProvider_deep [deep_intros]: "externs E X \<Longrightarrow> deep (PrometheusProvider_DeepCopyInto X) (fits E PrometheusProvider_ty)"
  by (simp add: PrometheusProvider_ty_def PrometheusProvider_DeepCopyInto_def deep_rules deep_intros)

definition DatadogProvider_ty :: ty where
  "DatadogProvider_ty = StructT [(''APIVersion'', ScalarT), (''Interval'', PointerT (ExternalT ''v1.Duration'')), (''Query'', ScalarT),
     (''Queries'', MapT), (''Formula'', ScalarT)]"

definition DatadogProvider_DeepCopyInto :: "(string \<Rightarrow> copier) \<Rightarrow> copier" where
  "DatadogProvider_DeepCopyInto X = copy_struct [(''Interval'', copy_ptr plain_copy), (''Queries'', copy_map)]"

definition DatadogProvider_DeepCopy :: "(string \<Rightarrow> copier) \<Rightarrow> copier" where
  "DatadogProvider_DeepCopy X = new_copy (DatadogProvider_DeepCopyInto X)"

lemma DatadogProvider_deep [deep_intros]: "externs E X \<Longrightarrow> deep (DatadogProvider_DeepCopyInto X) (fits E DatadogProvider_ty)"
  by (simp add: DatadogProvider_ty_def DatadogProvider_DeepCopyInto_def deep_rules deep_intros)

definition NewRelicProvider_ty :: ty where
  "NewRelicProvider_ty = StructT [(''Profile'', ScalarT), (''Query'', ScalarT)]"

definition NewRelicProvider_DeepCopyInto :: "(string \<Rightarrow> copier) \<Rightarrow> copier" where
  "NewRelicProvider_DeepCopyInto X = copy_struct []"

definition NewRelicProvider_DeepCopy :: "(string \<Rightarrow> copier) \<Rightarrow> copier" where
  "NewRelicProvider_DeepCopy X = new_copy (NewRelicProvider_DeepCopyInto X)"

lemma NewRelicProvider_flat [deep_intros]: "externs E X \<Longrightarrow> flat E NewRelicProvider_ty"
  by (simp add: NewRelicProvider_ty_def deep_rules deep_intros)

lemma NewRelicProvider_deep [deep_intros]: "externs E X \<Longrightarrow> deep (NewRelicProvider_DeepCopyInto X) (fits E NewRelicProvider_ty)"
  by (simp add: NewRelicProvider_ty_def NewRelicProvider_DeepCopyInto_def deep_rules deep_intros)

definition WavefrontProvider_ty :: ty where
  "WavefrontProvider_ty = StructT [(''Address'', ScalarT), (''Query'', ScalarT)]"

definition WavefrontProvider_DeepCopyInto :: "(string \<Rightarrow> copier) \<Rightarrow> copier" where
  "WavefrontProvider_DeepCopyInto X = copy_struct []"

definition WavefrontProvider_DeepCopy :: "(string \<Rightarrow> copier) \<Rightarrow> copier" where
  "WavefrontProvider_DeepCopy X = new_copy (WavefrontProvider_DeepCopyInto X)"

lemma WavefrontProvider_flat [deep_intros]: "externs E X \<Longrightarrow> flat E WavefrontProvider_ty"
  by (simp add: WavefrontProvider_ty_def deep_rules deep_intros)

lemma WavefrontProvider_deep [deep_intros]: "externs E X \<Longrightarrow> deep (WavefrontProvider_DeepCopyInto X) (fits E WavefrontProvider_ty)"
  by (simp add: WavefrontProvider_ty_def WavefrontProvider_DeepCopyInto_def deep_rules deep_intros)

definition CloudWatchMetricDimension_ty :: ty where
  "CloudWatchMetricDimension_ty = StructT [(''Name'', ScalarT), (''Value'', ScalarT)]"

definition CloudWatchMetricDimension_DeepCopyInto :: "(string \<Rightarrow> copier) \<Rightarrow> copier" where
  "CloudWatchMetricDimension_DeepCopyInto X = copy_struct []"

definition CloudWatchMetricDimension_DeepCopy :: "(string \<Rightarrow> copier) \<Rightarrow> copier" where
  "CloudWatchMetricDimension_DeepCopy X = new_copy (CloudWatchMetricDimension_DeepCopyInto X)"

lemma CloudWatchMetricDimension_flat [deep_intros]: "externs E X \<Longrightarrow> flat E CloudWatchMetricDimension_ty"
  by (simp add: CloudWatchMetricDimension_ty_def deep_rules deep_intros)

lemma CloudWatchMetricDimension_deep [deep_intros]: "externs E X \<Longrightarrow> deep (CloudWatchMetricDimension_DeepCopyInto X) (fits E CloudWatchMetricDimension_ty)"
  by (simp add: CloudWatchMetricDimension_ty_def CloudWatchMetricDimension_DeepCopyInto_def deep_rules deep_intros)

definition CloudWatchMetric_ty :: ty where
  "CloudWatchMetric_ty = StructT [(''Namespace'', ScalarT), (''MetricName'', ScalarT), (''Dimensions'', SliceT CloudWatchMetricDimension_ty)]"

definition CloudWatchMetric_DeepCopyInto :: "(string \<Rightarrow> copier) \<Rightarrow> copier" where
  "CloudWatchMetric_DeepCopyInto X = copy_struct [(''Dimensions'', copy_slice plain_copy)]"

definition CloudWatchMetric_DeepCopy :: "(string \<Rightarrow> copier) \<Rightarrow> copier" where
  "CloudWatchMetric_DeepCopy X = new_copy (CloudWatchMetric_DeepCopyInto X)"

lemma CloudWatchMetric_deep [deep_intros]: "externs E X \<Longrightarrow> deep (CloudWatchMetric_DeepCopyInto X) (fits E CloudWatchMetric_ty)"
  by (simp add: CloudWatchMetric_ty_def CloudWatchMetric_DeepCopyInto_def deep_rules deep_intros)

definition CloudWatchMetricStat_ty :: ty where
  "CloudWatchMetricStat_ty = StructT [(''Metric'', CloudWatchMetric_ty), (''Period'', ScalarT), (''Stat'', ScalarT), (''Unit'', ScalarT)]"

definition CloudWatchMetricStat_DeepCopyInto :: "(string \<Rightarrow> copier) \<Rightarrow> copier" where
  "CloudWatchMetricStat_DeepCopyInto X = copy_struct [(''Metric'', CloudWatchMetric_DeepCopyInto X)]"

definition CloudWatchMetricStat_DeepCopy :: "(string \<Rightarrow> copier) \<Rightarrow> copier" where
  "CloudWatchMetricStat_DeepCopy X = new_copy (CloudWatchMetricStat_DeepCopyInto X)"

lemma CloudWatchMetricStat_deep [deep_intros]: "externs E X \<Longrightarrow> deep (CloudWatchMetricStat_DeepCopyInto X) (fits E CloudWatchMetricStat_ty)"
  by (simp add: CloudWatchMetricStat_ty_def CloudWatchMetricStat_DeepCopyInto_def deep_rules deep_intros)

definition CloudWatchMetricQuery_ty :: ty where
  "CloudWatchMetricQuery_ty = StructT [(''ID'', ScalarT), (''Expression'', ScalarT), (''Label'', ScalarT),
     (''MetricStat'', PointerT CloudWatchMetricStat_ty), (''Period'', PointerT ScalarT),
     (''ReturnData'', PointerT ScalarT)]"

definition CloudWatchMetricQuery_DeepCopyInto :: "(string \<Rightarrow> copier) \<Rightarrow> copier" where
  "CloudWatchMetricQuery_DeepCopyInto X = copy_struct [(''MetricStat'', copy_ptr (CloudWatchMetricStat_DeepCopyInto X)), (''Period'', copy_ptr plain_copy),
     (''ReturnData'', copy_ptr plain_copy)]"

definition CloudWatchMetricQuery_DeepCopy :: "(string \<Rightarrow> copier) \<Rightarrow> copier" where
  "CloudWatchMetricQuery_DeepCopy X = new_copy (CloudWatchMetricQuery_DeepCopyInto X)"

lemma CloudWatchMetricQuery_deep [deep_intros]: "externs E X \<Longrightarrow> deep (CloudWatchMetricQuery_DeepCopyInto X) (fits E CloudWatchMetricQuery_ty)"
  by (simp add: CloudWatchMetricQuery_ty_def CloudWatchMetricQuery_DeepCopyInto_def deep_rules deep_intros)

definition CloudWatchProvider_ty :: ty where
  "CloudWatchProvider_ty = StructT [(''Interval'', PointerT (ExternalT ''v1.Duration'')), (''MetricDataQueries'', SliceT CloudWatchMetricQuery_ty)]"

definition CloudWatchProvider_DeepCopyInto :: "(string \<Rightarrow> copier) \<Rightarrow> copier" where
  "CloudWatchProvider_DeepCopyInto X = copy_struct [(''Interval'', copy_ptr plain_copy), (''MetricDataQueries'', copy_slice (CloudWatchMetricQuery_DeepCopyInto X))]"

definition CloudWatchProvider_DeepCopy :: "(string \<Rightarrow> copier) \<Rightarrow> copier" where
  "CloudWatchProvider_DeepCopy X = new_copy (CloudWatchProvider_DeepCopyInto X)"

lemma CloudWatchProvider_deep [deep_intros]: "externs E X \<Longrightarrow> deep (CloudWatchProvider_DeepCopyInto X) (fits E CloudWatchProvider_ty)"
  by (simp add: CloudWatchProvider_ty_def CloudWatchProvider_DeepCopyInto_def deep_rules deep_intros)

definition KayentaThreshold_ty :: ty where
  "KayentaThreshold_ty = StructT [(''Pass'', ScalarT), (''Marginal'', ScalarT)]"

definition KayentaThreshold_DeepCopyInto :: "(string \<Rightarrow> copier) \<Rightarrow> copier" where
  "KayentaThreshold_DeepCopyInto X = copy_struct []"

definition KayentaThreshold_DeepCopy :: "(string \<Rightarrow> copier) \<Rightarrow> copier" where
  "KayentaThreshold_DeepCopy X = new_copy (KayentaThreshold_DeepCopyInto X)"

lemma KayentaThreshold_flat [deep_intros]: "externs E X \<Longrightarrow> flat E KayentaThreshold_ty"
  by (simp add: KayentaThreshold_ty_def deep_rules deep_intros)

lemma KayentaThreshold_deep [deep_intros]: "externs E X \<Longrightarrow> deep (KayentaThreshold_DeepCopyInto X) (fits E KayentaThreshold_ty)"
  by (simp add: KayentaThreshold_ty_def KayentaThreshold_DeepCopyInto_def deep_rules deep_intros)

definition KayentaScopeDetail_ty :: ty where
  "KayentaScopeDetail_ty = StructT [(''Scope'', ScalarT), (''Region'', ScalarT), (''Step'', ScalarT), (''Start'', ScalarT), (''End'', ScalarT)]"

definition KayentaScopeDetail_DeepCopyInto :: "(string \<Rightarrow> copier) \<Rightarrow> copier" where
  "KayentaScopeDetail_DeepCopyInto X = copy_struct []"

definition KayentaScopeDetail_DeepCopy :: "(string \<Rightarrow> copier) \<Rightarrow> copier" where
  "KayentaScopeDetail_DeepCopy X = new_copy (KayentaScopeDetail_DeepCopyInto X)"

lemma KayentaScopeDetail_flat [deep_intros]: "externs E X \<Longrightarrow> flat E KayentaScopeDetail_ty"
  by (simp add: KayentaScopeDetail_ty_def deep_rules deep_intros)

lemma KayentaScopeDetail_deep [deep_intros]: "externs E X \<Longrightarrow> deep (KayentaScopeDetail_DeepCopyInto X) (fits E KayentaScopeDetail_ty)"
  by (simp add: KayentaScopeDetail_ty_def KayentaScopeDetail_DeepCopyInto_def deep_rules deep_intros)

definition KayentaScope_ty :: ty where
  "KayentaScope_ty = StructT [(''Name'', ScalarT), (''ControlScope'', KayentaScopeDetail_ty), (''ExperimentScope'', KayentaScopeDetail_ty)]"

definition KayentaScope_DeepCopyInto :: "(string \<Rightarrow> copier) \<Rightarrow> copier" where
  "KayentaScope_DeepCopyInto X = copy_struct [(''ControlScope'', plain_copy), (''ExperimentScope'', plain_copy)]"

definition KayentaScope_DeepCopy :: "(string \<Rightarrow> copier) \<Rightarrow> copier" where
  "KayentaScope_DeepCopy X = new_copy (KayentaScope_DeepCopyInto X)"

lemma KayentaScope_flat [deep_intros]: "externs E X \<Longrightarrow> flat E KayentaScope_ty"
  by (simp add: KayentaScope_ty_def deep_rules deep_intros)

lemma KayentaScope_deep [deep_intros]: "externs E X \<Longrightarrow> deep (KayentaScope_DeepCopyInto X) (fits E KayentaScope_ty)"
  by (simp add: KayentaScope_ty_def KayentaScope_DeepCopyInto_def deep_rules deep_intros)

definition KayentaProvider_ty :: ty where
  "KayentaProvider_ty = StructT [(''Address'', ScalarT), (''Application'', ScalarT), (''CanaryConfigName'', ScalarT),
     (''MetricsAccountName'', ScalarT), (''ConfigurationAccountName'', ScalarT), (''StorageAccountName'', ScalarT),
     (''Threshold'', KayentaThreshold_ty), (''Scopes'', SliceT KayentaScope_ty)]"

definition KayentaProvider_DeepCopyInto :: "(string \<Rightarrow> copier) \<Rightarrow> copier" where
  "KayentaProvider_DeepCopyInto X = copy_struct [(''Threshold'', plain_copy), (''Scopes'', copy_slice plain_copy)]"

definition KayentaProvider_DeepCopy :: "(string \<Rightarrow> copier) \<Rightarrow> copier" where
  "KayentaProvider_DeepCopy X = new_copy (KayentaProvider_DeepCopyInto X)"

lemma KayentaProvider_deep [deep_intros]: "externs E X \<Longrightarrow> deep (KayentaProvider_DeepCopyInto X) (fits E KayentaProvider_ty)"
  by (simp add: KayentaProvider_ty_def KayentaProvider_DeepCopyInto_def deep_rules deep_intros)

definition WebProvider_ty :: ty where
  "WebProvider_ty = StructT [(''URL'', ScalarT), (''Method'', ScalarT), (''Headers'', SliceT (ExternalT ''corev1.EnvVar'')),
     (''Body'', ScalarT), (''JSONPath'', ScalarT), (''Timeout'', PointerT (ExternalT ''v1.Duration'')),
     (''InsecureSkipTLSVerify'', ScalarT)]"

definition WebProvider_DeepCopyInto :: "(string \<Rightarrow> copier) \<Rightarrow> copier" where
  "WebProvider_DeepCopyInto X = copy_struct [(''Headers'', copy_slice (X ''corev1.EnvVar'')), (''Timeout'', copy_ptr plain_copy)]"

definition WebProvider_DeepCopy :: "(string \<Rightarrow> copier) \<Rightarrow> copier" where
  "WebProvider_DeepCopy X = new_copy (WebProvider_DeepCopyInto X)"

lemma WebProvider_deep [deep_intros]: "externs E X \<Longrightarrow> deep (WebProvider_DeepCopyInto X) (fits E WebProvider_ty)"
  by (simp add: WebProvider_ty_def WebProvider_DeepCopyInto_def deep_rules deep_intros)

definition JobSpec_ty :: ty where
  "JobSpec_ty = StructT [(''BackoffLimit'', PointerT ScalarT), (''Template'', ExternalT ''corev1.PodTemplateSpec'')]"

definition JobSpec_DeepCopyInto :: "(string \<Rightarrow> copier) \<Rightarrow> copier" where
  "JobSpec_DeepCopyInto X = copy_struct [(''BackoffLimit'', copy_ptr plain_copy), (''Template'', X ''corev1.PodTemplateSpec'')]"

definition JobSpec_DeepCopy :: "(string \<Rightarrow> copier) \<Rightarrow> copier" where
  "JobSpec_DeepCopy X = new_copy (JobSpec_DeepCopyInto X)"

lemma JobSpec_deep [deep_intros]: "externs E X \<Longrightarrow> deep (JobSpec_DeepCopyInto X) (fits E JobSpec_ty)"
  by (simp add: JobSpec_ty_def JobSpec_DeepCopyInto_def deep_rules deep_intros)

definition JobProvider_ty :: ty where
  "JobProvider_ty = StructT [(''Metadata'', PointerT (ExternalT ''v1.ObjectMeta'')), (''Spec'', JobSpec_ty)]"

definition JobProvider_DeepCopyInto :: "(string \<Rightarrow> copier) \<Rightarrow> copier" where
  "JobProvider_DeepCopyInto X = copy_struct [(''Metadata'', copy_ptr (X ''v1.ObjectMeta'')), (''Spec'', JobSpec_DeepCopyInto X)]"

definition JobProvider_DeepCopy :: "(string \<Rightarrow> copier) \<Rightarrow> copier" where
  "JobProvider_DeepCopy X = new_copy (JobProvider_DeepCopyInto X)"

lemma JobProvider_deep [deep_intros]: "externs E X \<Longrightarrow> deep (JobProvider_DeepCopyInto X) (fits E JobProvider_ty)"
  by (simp add: JobProvider_ty_def JobProvider_DeepCopyInto_def deep_rules deep_intros)

definition MetricProvider_ty :: ty where
  "MetricProvider_ty = StructT [(''Type'', ScalarT), (''Prometheus'', PointerT PrometheusProvider_ty),
     (''Datadog'', PointerT DatadogProvider_ty), (''NewRelic'', PointerT NewRelicProvider_ty),
     (''Wavefront'', PointerT WavefrontProvider_ty), (''CloudWatch'', PointerT CloudWatchProvider_ty),
     (''Kayenta'', PointerT KayentaProvider_ty), (''Web'', PointerT WebProvider_ty),
     (''Job'', PointerT JobProvider_ty)]"

definition MetricProvider_DeepCopyInto :: "(string \<Rightarrow> copier) \<Rightarrow> copier" where
  "MetricProvider_DeepCopyInto X = copy_struct [(''Prometheus'', copy_ptr (PrometheusProvider_DeepCopyInto X)),
     (''Datadog'', copy_ptr (DatadogProvider_DeepCopyInto X)), (''NewRelic'', copy_ptr plain_copy),
     (''Wavefront'', copy_ptr plain_copy), (''CloudWatch'', copy_ptr (CloudWatchProvider_DeepCopyInto X)),
     (''Kayenta'', copy_ptr (KayentaProvider_DeepCopyInto X)), (''Web'', copy_ptr (WebProvider_DeepCopyInto X)),
     (''Job'', copy_ptr (JobProvider_DeepCopyInto X))]"

definition MetricProvider_DeepCopy :: "(string \<Rightarrow> copier) \<Rightarrow> copier" where
  "MetricProvider_DeepCopy X = new_copy (MetricProvider_DeepCopyInto X)"

lemma MetricProvider_deep [deep_intros]: "externs E X \<Longrightarrow> deep (MetricProvider_DeepCopyInto X) (fits E MetricProvider_ty)"
  by (simp add: MetricProvider_ty_def MetricProvider_DeepCopyInto_def deep_rules deep_intros)

definition Metric_ty :: ty where
  "Metric_ty = StructT [(''Name'', ScalarT), (''Interval'', PointerT (ExternalT ''v1.Duration'')),
     (''InitialDelay'', PointerT (ExternalT ''v1.Duration'')),
     (''Count'', PointerT (ExternalT ''intstr.IntOrString'')),
     (''ConsecutiveErrorLimit'', PointerT (ExternalT ''intstr.IntOrString'')), (''SuccessCondition'', ScalarT),
     (''FailureCondition'', ScalarT), (''FailureLimit'', PointerT (ExternalT ''intstr.IntOrString'')),
     (''Provider'', MetricProvider_ty)]"

definition Metric_DeepCopyInto :: "(string \<Rightarrow> copier) \<Rightarrow> copier" where
  "Metric_DeepCopyInto X = copy_struct [(''Interval'', copy_ptr plain_copy), (''InitialDelay'', copy_ptr plain_copy), (''Count'', copy_ptr plain_copy),
     (''ConsecutiveErrorLimit'', copy_ptr plain_copy), (''FailureLimit'', copy_ptr plain_copy),
     (''Provider'', MetricProvider_DeepCopyInto X)]"

definition Metric_DeepCopy :: "(string \<Rightarrow> copier) \<Rightarrow> copier" where
  "Metric_DeepCopy X = new_copy (Metric_DeepCopyInto X)"

lemma Metric_deep [deep_intros]: "externs E X \<Longrightarrow> deep (Metric_DeepCopyInto X) (fits E Metric_ty)"
  by (simp add: Metric_ty_def Metric_DeepCopyInto_def deep_rules deep_intros)

definition AnalysisRunSpec_ty :: ty where
  "AnalysisRunSpec_ty = StructT [(''Metrics'', SliceT Metric_ty), (''Args'', SliceT AnalysisArg_ty), (''DryRun'', SliceT DryRunMetric_ty),
     (''Terminate'', ScalarT)]"

definition AnalysisRunSpec_DeepCopyInto :: "(string \<Rightarrow> copier) \<Rightarrow> copier" where
  "AnalysisRunSpec_DeepCopyInto X = copy_struct [(''Metrics'', copy_slice (Metric_DeepCopyInto X)), (''Args'', copy_slice (AnalysisArg_DeepCopyInto X)),
     (''DryRun'', copy_slice plain_copy)]"

definition AnalysisRunSpec_DeepCopy :: "(string \<Rightarrow> copier) \<Rightarrow> copier" where
  "AnalysisRunSpec_DeepCopy X = new_copy (AnalysisRunSpec_DeepCopyInto X)"

lemma AnalysisRunSpec_deep [deep_intros]: "externs E X \<Longrightarrow> deep (AnalysisRunSpec_DeepCopyInto X) (fits E AnalysisRunSpec_ty)"
  by (simp add: AnalysisRunSpec_ty_def AnalysisRunSpec_DeepCopyInto_def deep_rules deep_intros)

definition Measurement_ty :: ty where
  "Measurement_ty = StructT [(''StartedAt'', ExternalT ''v1.Time''), (''FinishedAt'', ExternalT ''v1.Time''), (''Phase'', ScalarT),
     (''Value'', ScalarT), (''Message'', ScalarT)]"

definition Measurement_DeepCopyInto :: "(string \<Rightarrow> copier) \<Rightarrow> copier" where
  "Measurement_DeepCopyInto X = copy_struct [(''StartedAt'', X ''v1.Time''), (''FinishedAt'', X ''v1.Time'')]"

definition Measurement_DeepCopy :: "(string \<Rightarrow> copier) \<Rightarrow> copier" where
  "Measurement_DeepCopy X = new_copy (Measurement_DeepCopyInto X)"

lemma Measurement_deep [deep_intros]: "externs E X \<Longrightarrow> deep (Measurement_DeepCopyInto X) (fits E Measurement_ty)"
  by (simp add: Measurement_ty_def Measurement_DeepCopyInto_def deep_rules deep_intros)

definition MetricResult_ty :: ty where
  "MetricResult_ty = StructT [(''Name'', ScalarT), (''Phase'', ScalarT), (''Measurements'', SliceT Measurement_ty), (''Count'', ScalarT),
     (''Successful'', ScalarT), (''Failed'', ScalarT), (''Inconclusive'', ScalarT), (''Error'', ScalarT),
     (''Message'', ScalarT)]"

definition MetricResult_DeepCopyInto :: "(string \<Rightarrow> copier) \<Rightarrow> copier" where
  "MetricResult_DeepCopyInto X = copy_struct [(''Measurements'', copy_slice (Measurement_DeepCopyInto X))]"

definition MetricResult_DeepCopy :: "(string \<Rightarrow> copier) \<Rightarrow> copier" where
  "MetricResult_DeepCopy X = new_copy (MetricResult_DeepCopyInto X)"

lemma MetricResult_deep [deep_intros]: "externs E X \<Longrightarrow> deep (MetricResult_DeepCopyInto X) (fits E MetricResult_ty)"
  by (simp add: MetricResult_ty_def MetricResult_DeepCopyInto_def deep_rules deep_intros)

definition AnalysisRunStatus_ty :: ty where
  "AnalysisRunStatus_ty = StructT [(''Phase'', ScalarT), (''Message'', ScalarT), (''StartedAt'', PointerT (ExternalT ''v1.Time'')),
     (''CompletedAt'', PointerT (ExternalT ''v1.Time'')), (''MetricResults'', SliceT MetricResult_ty)]"

definition AnalysisRunStatus_DeepCopyInto :: "(string \<Rightarrow> copier) \<Rightarrow> copier" where
  "AnalysisRunStatus_DeepCopyInto X = copy_struct [(''StartedAt'', copy_ptr (X ''v1.Time'')), (''CompletedAt'', copy_ptr (X ''v1.Time'')),
     (''MetricResults'', copy_slice (MetricResult_DeepCopyInto X))]"

definition AnalysisRunStatus_DeepCopy :: "(string \<Rightarrow> copier) \<Rightarrow> copier" where
  "AnalysisRunStatus_DeepCopy X = new_copy (AnalysisRunStatus_DeepCopyInto X)"

lemma AnalysisRunStatus_deep [deep_intros]: "externs E X \<Longrightarrow> deep (AnalysisRunStatus_DeepCopyInto X) (fits E AnalysisRunStatus_ty)"
  by (simp add: AnalysisRunStatus_ty_def AnalysisRunStatus_DeepCopyInto_def deep_rules deep_intros)

definition AnalysisRun_ty :: ty where
  "AnalysisRun_ty = StructT [(''TypeMeta'', ExternalT ''v1.TypeMeta''), (''ObjectMeta'', ExternalT ''v1.ObjectMeta''),
     (''Spec'', AnalysisRunSpec_ty), (''Status'', AnalysisRunStatus_ty)]"

definition AnalysisRun_DeepCopyInto :: "(string \<Rightarrow> copier) \<Rightarrow> copier" where
  "AnalysisRun_DeepCopyInto X = copy_struct [(''TypeMeta'', plain_copy), (''ObjectMeta'', X ''v1.ObjectMeta''), (''Spec'', AnalysisRunSpec_DeepCopyInto X),
     (''Status'', AnalysisRunStatus_DeepCopyInto X)]"

definition AnalysisRun_DeepCopy :: "(string \<Rightarrow> copier) \<Rightarrow> copier" where
  "AnalysisRun_DeepCopy X = new_copy (AnalysisRun_DeepCopyInto X)"

lemma AnalysisRun_deep [deep_intros]: "externs E X \<Longrightarrow> deep (AnalysisRun_DeepCopyInto X) (fits E AnalysisRun_ty)"
  by (simp add: AnalysisRun_ty_def AnalysisRun_DeepCopyInto_def deep_rules deep_intros)

definition AnalysisRunList_ty :: ty where
  "AnalysisRunList_ty = StructT [(''TypeMeta'', ExternalT ''v1.TypeMeta''), (''ListMeta'', ExternalT ''v1.ListMeta''),
     (''Items'', SliceT AnalysisRun_ty)]"

definition AnalysisRunList_DeepCopyInto :: "(string \<Rightarrow> copier) \<Rightarrow> copier" where
  "AnalysisRunList_DeepCopyInto X = copy_struct [(''TypeMeta'', plain_copy), (''ListMeta'', X ''v1.ListMeta''),
     (''Items'', copy_slice (AnalysisRun_DeepCopyInto X))]"

definition AnalysisRunList_DeepCopy :: "(string \<Rightarrow> copier) \<Rightarrow> copier" where
  "AnalysisRunList_DeepCopy X = new_copy (AnalysisRunList_DeepCopyInto X)"

lemma AnalysisRunList_deep [deep_intros]: "externs E X \<Longrightarrow> deep (AnalysisRunList_DeepCopyInto X) (fits E AnalysisRunList_ty)"
  by (simp add: AnalysisRunList_ty_def AnalysisRunList_DeepCopyInto_def deep_rules deep_intros)

definition AnalysisRunSummary_ty :: ty where
  "AnalysisRunSummary_ty = StructT [(''Name'', ScalarT), (''AtStep'', ScalarT), (''Phase'', ScalarT), (''Message'', ScalarT)]"

definition AnalysisRunSummary_DeepCopyInto :: "(string \<Rightarrow> copier) \<Rightarrow> copier" where
  "AnalysisRunSummary_DeepCopyInto X = copy_struct []"

definition AnalysisRunSummary_DeepCopy :: "(string \<Rightarrow> copier) \<Rightarrow> copier" where
  "AnalysisRunSummary_DeepCopy X = new_copy (AnalysisRunSummary_DeepCopyInto X)"

lemma AnalysisRunSummary_flat [deep_intros]: "externs E X \<Longrightarrow> flat E AnalysisRunSummary_ty"
  by (simp add: AnalysisRunSummary_ty_def deep_rules deep_intros)

lemma AnalysisRunSummary_deep [deep_intros]: "externs E X \<Longrightarrow> deep (AnalysisRunSummary_DeepCopyInto X) (fits E AnalysisRunSummary_ty)"
  by (simp add: AnalysisRunSummary_ty_def AnalysisRunSummary_DeepCopyInto_def deep_rules deep_intros)

definition AnalysisStep_ty :: ty where
  "AnalysisStep_ty = StructT [(''TemplateRefs'', SliceT TemplateRef_ty), (''Args'', SliceT AnalysisArg_ty),
     (''DryRun'', SliceT DryRunMetric_ty), (''FailurePolicy'', ScalarT)]"

definition AnalysisStep_DeepCopyInto :: "(string \<Rightarrow> copier) \<Rightarrow> copier" where
  "AnalysisStep_DeepCopyInto X = copy_struct [(''TemplateRefs'', copy_slice plain_copy), (''Args'', copy_slice (AnalysisArg_DeepCopyInto X)),
     (''DryRun'', copy_slice plain_copy)]"

definition AnalysisStep_DeepCopy :: "(string \<Rightarrow> copier) \<Rightarrow> copier" where
  "AnalysisStep_DeepCopy X = new_copy (AnalysisStep_DeepCopyInto X)"

lemma AnalysisStep_deep [deep_intros]: "externs E X \<Longrightarrow> deep (AnalysisStep_DeepCopyInto X) (fits E AnalysisStep_ty)"
  by (simp add: AnalysisStep_ty_def AnalysisStep_DeepCopyInto_def deep_rules deep_intros)

definition AnalysisTemplateSpec_ty :: ty where
  "AnalysisTemplateSpec_ty = StructT [(''Metrics'', SliceT Metric_ty), (''Args'', SliceT AnalysisArg_ty), (''DryRun'', SliceT DryRunMetric_ty),
     (''InconclusivePolicy'', ScalarT)]"

definition AnalysisTemplateSpec_DeepCopyInto :: "(string \<Rightarrow> copier) \<Rightarrow> copier" where
  "AnalysisTemplateSpec_DeepCopyInto X = copy_struct [(''Metrics'', copy_slice (Metric_DeepCopyInto X)), (''Args'', copy_slice (AnalysisArg_DeepCopyInto X)),
     (''DryRun'', copy_slice plain_copy)]"

definition AnalysisTemplateSpec_DeepCopy :: "(string \<Rightarrow> copier) \<Rightarrow> copier" where
  "AnalysisTemplateSpec_DeepCopy X = new_copy (AnalysisTemplateSpec_DeepCopyInto X)"

lemma AnalysisTemplateSpec_deep [deep_intros]: "externs E X \<Longrightarrow> deep (AnalysisTemplateSpec_DeepCopyInto X) (fits E AnalysisTemplateSpec_ty)"
  by (simp add: AnalysisTemplateSpec_ty_def AnalysisTemplateSpec_DeepCopyInto_def deep_rules deep_intros)

definition AnalysisTemplate_ty :: ty where
  "AnalysisTemplate_ty = StructT [(''TypeMeta'', ExternalT ''v1.TypeMeta''), (''ObjectMeta'', ExternalT ''v1.ObjectMeta''),
     (''Spec'', AnalysisTemplateSpec_ty)]"

definition AnalysisTemplate_DeepCopyInto :: "(string \<Rightarrow> copier) \<Rightarrow> copier" where
  "AnalysisTemplate_DeepCopyInto X = copy_struct [(''TypeMeta'', plain_copy), (''ObjectMeta'', X ''v1.ObjectMeta''),
     (''Spec'', AnalysisTemplateSpec_DeepCopyInto X)]"

definition AnalysisTemplate_DeepCopy :: "(string \<Rightarrow> copier) \<Rightarrow> copier" where
  "AnalysisTemplate_DeepCopy X = new_copy (AnalysisTemplate_DeepCopyInto X)"

lemma AnalysisTemplate_deep [deep_intros]: "externs E X \<Longrightarrow> deep (AnalysisTemplate_DeepCopyInto X) (fits E AnalysisTemplate_ty)"
  by (simp add: AnalysisTemplate_ty_def AnalysisTemplate_DeepCopyInto_def deep_rules deep_intros)

definition AnalysisTemplateList_ty :: ty where
  "AnalysisTemplateList_ty = StructT [(''TypeMeta'', ExternalT ''v1.TypeMeta''), (''ListMeta'', ExternalT ''v1.ListMeta''),
     (''Items'', SliceT AnalysisTemplate_ty)]"

definition AnalysisTemplateList_DeepCopyInto :: "(string \<Rightarrow> copier) \<Rightarrow> copier" where
  "AnalysisTemplateList_DeepCopyInto X = copy_struct [(''TypeMeta'', plain_copy), (''ListMeta'', X ''v1.ListMeta''),
     (''Items'', copy_slice (AnalysisTemplate_DeepCopyInto X))]"

definition AnalysisTemplateList_DeepCopy :: "(string \<Rightarrow> copier) \<Rightarrow> copier" where
  "AnalysisTemplateList_DeepCopy X = new_copy (AnalysisTemplateList_DeepCopyInto X)"

lemma AnalysisTemplateList_deep [deep_intros]: "externs E X \<Longrightarrow> deep (AnalysisTemplateList_DeepCopyInto X) (fits E AnalysisTemplateList_ty)"
  by (simp add: AnalysisTemplateList_ty_def AnalysisTemplateList_DeepCopyInto_def deep_rules deep_intros)

definition ClusterAnalysisTemplate_ty :: ty where
  "ClusterAnalysisTemplate_ty = StructT [(''TypeMeta'', ExternalT ''v1.TypeMeta''), (''ObjectMeta'', ExternalT ''v1.ObjectMeta''),
     (''Spec'', AnalysisTemplateSpec_ty)]"

definition ClusterAnalysisTemplate_DeepCopyInto :: "(string \<Rightarrow> copier) \<Rightarrow> copier" where
  "ClusterAnalysisTemplate_DeepCopyInto X = copy_struct [(''TypeMeta'', plain_copy), (''ObjectMeta'', X ''v1.ObjectMeta''),
     (''Spec'', AnalysisTemplateSpec_DeepCopyInto X)]"

definition ClusterAnalysisTemplate_DeepCopy :: "(string \<Rightarrow> copier) \<Rightarrow> copier" where
  "ClusterAnalysisTemplate_DeepCopy X = new_copy (ClusterAnalysisTemplate_DeepCopyInto X)"

lemma ClusterAnalysisTemplate_deep [deep_intros]: "externs E X \<Longrightarrow> deep (ClusterAnalysisTemplate_DeepCopyInto X) (fits E ClusterAnalysisTemplate_ty)"
  by (simp add: ClusterAnalysisTemplate_ty_def ClusterAnalysisTemplate_DeepCopyInto_def deep_rules deep_intros)

definition ClusterAnalysisTemplateList_ty :: ty where
  "ClusterAnalysisTemplateList_ty = StructT [(''TypeMeta'', ExternalT ''v1.TypeMeta''), (''ListMeta'', ExternalT ''v1.ListMeta''),
     (''Items'', SliceT ClusterAnalysisTemplate_ty)]"

definition ClusterAnalysisTemplateList_DeepCopyInto :: "(string \<Rightarrow> copier) \<Rightarrow> copier" where
  "ClusterAnalysisTemplateList_DeepCopyInto X = copy_struct [(''TypeMeta'', plain_copy), (''ListMeta'', X ''v1.ListMeta''),
     (''Items'', copy_slice (ClusterAnalysisTemplate_DeepCopyInto X))]"

definition ClusterAnalysisTemplateList_DeepCopy :: "(string \<Rightarrow> copier) \<Rightarrow> copier" where
  "ClusterAnalysisTemplateList_DeepCopy X = new_copy (ClusterAnalysisTemplateList_DeepCopyInto X)"

lemma ClusterAnalysisTemplateList_deep [deep_intros]: "externs E X \<Longrightarrow> deep (ClusterAnalysisTemplateList_DeepCopyInto X) (fits E ClusterAnalysisTemplateList_ty)"
  by (simp add: ClusterAnalysisTemplateList_ty_def ClusterAnalysisTemplateList_DeepCopyInto_def deep_rules deep_intros)

definition EphemeralMetadata_ty :: ty where
  "EphemeralMetadata_ty = StructT [(''Role'', ScalarT), (''Labels'', MapT), (''Annotations'', MapT)]"

definition EphemeralMetadata_DeepCopyInto :: "(string \<Rightarrow> copier) \<Rightarrow> copier" where
  "EphemeralMetadata_DeepCopyInto X = copy_struct [(''Labels'', copy_map), (''Annotations'', copy_map)]"

definition EphemeralMetadata_DeepCopy :: "(string \<Rightarrow> copier) \<Rightarrow> copier" where
  "EphemeralMetadata_DeepCopy X = new_copy (EphemeralMetadata_DeepCopyInto X)"

lemma EphemeralMetadata_deep [deep_intros]: "externs E X \<Longrightarrow> deep (EphemeralMetadata_DeepCopyInto X) (fits E EphemeralMetadata_ty)"
  by (simp add: EphemeralMetadata_ty_def EphemeralMetadata_DeepCopyInto_def deep_rules deep_intros)

definition ExperimentVariant_ty :: ty where
  "ExperimentVariant_ty = StructT [(''Name'', ScalarT), (''Replicas'', ScalarT), (''Template'', PointerT (ExternalT ''corev1.PodTemplateSpec'')),
     (''Weight'', PointerT ScalarT)]"

definition ExperimentVariant_DeepCopyInto :: "(string \<Rightarrow> copier) \<Rightarrow> copier" where
  "ExperimentVariant_DeepCopyInto X = copy_struct [(''Template'', copy_ptr (X ''corev1.PodTemplateSpec'')), (''Weight'', copy_ptr plain_copy)]"

definition ExperimentVariant_DeepCopy :: "(string \<Rightarrow> copier) \<Rightarrow> copier" where
  "ExperimentVariant_DeepCopy X = new_copy (ExperimentVariant_DeepCopyInto X)"

lemma ExperimentVariant_deep [deep_intros]: "externs E X \<Longrightarrow> deep (ExperimentVariant_DeepCopyInto X) (fits E ExperimentVariant_ty)"
  by (simp add: ExperimentVariant_ty_def ExperimentVariant_DeepCopyInto_def deep_rules deep_intros)

definition ExperimentSpec_ty :: ty where
  "ExperimentSpec_ty = StructT [(''Duration'', PointerT (ExternalT ''v1.Duration'')), (''Variants'', SliceT ExperimentVariant_ty),
     (''Analysis'', SliceT AnalysisHook_ty), (''TerminationPolicy'', ScalarT)]"

definition ExperimentSpec_DeepCopyInto :: "(string \<Rightarrow> copier) \<Rightarrow> copier" where
  "ExperimentSpec_DeepCopyInto X = copy_struct [(''Duration'', copy_ptr plain_copy), (''Variants'', copy_slice (ExperimentVariant_DeepCopyInto X)),
     (''Analysis'', copy_slice (AnalysisHook_DeepCopyInto X))]"

definition ExperimentSpec_DeepCopy :: "(string \<Rightarrow> copier) \<Rightarrow> copier" where
  "ExperimentSpec_DeepCopy X = new_copy (ExperimentSpec_DeepCopyInto X)"

lemma ExperimentSpec_deep [deep_intros]: "externs E X \<Longrightarrow> deep (ExperimentSpec_DeepCopyInto X) (fits E ExperimentSpec_ty)"
  by (simp add: ExperimentSpec_ty_def ExperimentSpec_DeepCopyInto_def deep_rules deep_intros)

definition ExperimentVariantStatus_ty :: ty where
  "ExperimentVariantStatus_ty = StructT [(''Name'', ScalarT), (''ReplicaSetName'', ScalarT), (''ReadyReplicas'', ScalarT),
     (''AvailableReplicas'', ScalarT), (''Phase'', ScalarT), (''Message'', ScalarT)]"

definition ExperimentVariantStatus_DeepCopyInto :: "(string \<Rightarrow> copier) \<Rightarrow> copier" where
  "ExperimentVariantStatus_DeepCopyInto X = copy_struct []"

definition ExperimentVariantStatus_DeepCopy :: "(string \<Rightarrow> copier) \<Rightarrow> copier" where
  "ExperimentVariantStatus_DeepCopy X = new_copy (ExperimentVariantStatus_DeepCopyInto X)"

lemma ExperimentVariantStatus_flat [deep_intros]: "externs E X \<Longrightarrow> flat E ExperimentVariantStatus_ty"
  by (simp add: ExperimentVariantStatus_ty_def deep_rules deep_intros)

lemma ExperimentVariantStatus_deep [deep_intros]: "externs E X \<Longrightarrow> deep (ExperimentVariantStatus_DeepCopyInto X) (fits E ExperimentVariantStatus_ty)"
  by (simp add: ExperimentVariantStatus_ty_def ExperimentVariantStatus_DeepCopyInto_def deep_rules deep_intros)

definition ExperimentStatus_ty :: ty where
  "ExperimentStatus_ty = StructT [(''Phase'', ScalarT), (''Message'', ScalarT), (''VariantStatuses'', SliceT ExperimentVariantStatus_ty),
     (''Conditions'', SliceT (ExternalT ''v1.Condition'')), (''StartedAt'', PointerT (ExternalT ''v1.Time'')),
     (''CompletedAt'', PointerT (ExternalT ''v1.Time''))]"

definition ExperimentStatus_DeepCopyInto :: "(string \<Rightarrow> copier) \<Rightarrow> copier" where
  "ExperimentStatus_DeepCopyInto X = copy_struct [(''VariantStatuses'', copy_slice plain_copy), (''Conditions'', copy_slice (X ''v1.Condition'')),
     (''StartedAt'', copy_ptr (X ''v1.Time'')), (''CompletedAt'', copy_ptr (X ''v1.Time''))]"

definition ExperimentStatus_DeepCopy :: "(string \<Rightarrow> copier) \<Rightarrow> copier" where
  "ExperimentStatus_DeepCopy X = new_copy (ExperimentStatus_DeepCopyInto X)"

lemma ExperimentStatus_deep [deep_intros]: "externs E X \<Longrightarrow> deep (ExperimentStatus_DeepCopyInto X) (fits E ExperimentStatus_ty)"
  by (simp add: ExperimentStatus_ty_def ExperimentStatus_DeepCopyInto_def deep_rules deep_intros)

definition Experiment_ty :: ty where
  "Experiment_ty = StructT [(''TypeMeta'', ExternalT ''v1.TypeMeta''), (''ObjectMeta'', ExternalT ''v1.ObjectMeta''),
     (''Spec'', ExperimentSpec_ty), (''Status'', ExperimentStatus_ty)]"

definition Experiment_DeepCopyInto :: "(string \<Rightarrow> copier) \<Rightarrow> copier" where
  "Experiment_DeepCopyInto X = copy_struct [(''TypeMeta'', plain_copy), (''ObjectMeta'', X ''v1.ObjectMeta''), (''Spec'', ExperimentSpec_DeepCopyInto X),
     (''Status'', ExperimentStatus_DeepCopyInto X)]"

definition Experiment_DeepCopy :: "(string \<Rightarrow> copier) \<Rightarrow> copier" where
  "Experiment_DeepCopy X = new_copy (Experiment_DeepCopyInto X)"

lemma Experiment_deep [deep_intros]: "externs E X \<Longrightarrow> deep (Experiment_DeepCopyInto X) (fits E Experiment_ty)"
  by (simp add: Experiment_ty_def Experiment_DeepCopyInto_def deep_rules deep_intros)

definition ExperimentList_ty :: ty where
  "ExperimentList_ty = StructT [(''TypeMeta'', ExternalT ''v1.TypeMeta''), (''ListMeta'', ExternalT ''v1.ListMeta''),
     (''Items'', SliceT Experiment_ty)]"

definition ExperimentList_DeepCopyInto :: "(string \<Rightarrow> copier) \<Rightarrow> copier" where
  "ExperimentList_DeepCopyInto X = copy_struct [(''TypeMeta'', plain_copy), (''ListMeta'', X ''v1.ListMeta''),
     (''Items'', copy_slice (Experiment_DeepCopyInto X))]"

definition ExperimentList_DeepCopy :: "(string \<Rightarrow> copier) \<Rightarrow> copier" where
  "ExperimentList_DeepCopy X = new_copy (ExperimentList_DeepCopyInto X)"

lemma ExperimentList_deep [deep_intros]: "externs E X \<Longrightarrow> deep (ExperimentList_DeepCopyInto X) (fits E ExperimentList_ty)"
  by (simp add: ExperimentList_ty_def ExperimentList_DeepCopyInto_def deep_rules deep_intros)

definition ExperimentStep_ty :: ty where
  "ExperimentStep_ty = StructT [(''Duration'', PointerT (ExternalT ''v1.Duration'')), (''Variants'', SliceT ExperimentVariant_ty),
     (''Analysis'', SliceT AnalysisHook_ty)]"

definition ExperimentStep_DeepCopyInto :: "(string \<Rightarrow> copier) \<Rightarrow> copier" where
  "ExperimentStep_DeepCopyInto X = copy_struct [(''Duration'', copy_ptr plain_copy), (''Variants'', copy_slice (ExperimentVariant_DeepCopyInto X)),
     (''Analysis'', copy_slice (AnalysisHook_DeepCopyInto X))]"

definition ExperimentStep_DeepCopy :: "(string \<Rightarrow> copier) \<Rightarrow> copier" where
  "ExperimentStep_DeepCopy X = new_copy (ExperimentStep_DeepCopyInto X)"

lemma ExperimentStep_deep [deep_intros]: "externs E X \<Longrightarrow> deep (ExperimentStep_DeepCopyInto X) (fits E ExperimentStep_ty)"
  by (simp add: ExperimentStep_ty_def ExperimentStep_DeepCopyInto_def deep_rules deep_intros)

definition IstioVirtualServiceRef_ty :: ty where
  "IstioVirtualServiceRef_ty = StructT [(''Name'', ScalarT), (''Routes'', SliceT ScalarT), (''TLSRoutes'', SliceT ScalarT),
     (''TCPRoutes'', SliceT ScalarT)]"

definition IstioVirtualServiceRef_DeepCopyInto :: "(string \<Rightarrow> copier) \<Rightarrow> copier" where
  "IstioVirtualServiceRef_DeepCopyInto X = copy_struct [(''Routes'', copy_slice plain_copy), (''TLSRoutes'', copy_slice plain_copy),
     (''TCPRoutes'', copy_slice plain_copy)]"

definition IstioVirtualServiceRef_DeepCopy :: "(string \<Rightarrow> copier) \<Rightarrow> copier" where
  "IstioVirtualServiceRef_DeepCopy X = new_copy (IstioVirtualServiceRef_DeepCopyInto X)"

lemma IstioVirtualServiceRef_deep [deep_intros]: "externs E X \<Longrightarrow> deep (IstioVirtualServiceRef_DeepCopyInto X) (fits E IstioVirtualServiceRef_ty)"
  by (simp add: IstioVirtualServiceRef_ty_def IstioVirtualServiceRef_DeepCopyInto_def deep_rules deep_intros)

definition IstioDestinationRuleRef_ty :: ty where
  "IstioDestinationRuleRef_ty = StructT [(''Name'', ScalarT), (''CanarySubset'', ScalarT), (''StableSubset'', ScalarT)]"

definition IstioDestinationRuleRef_DeepCopyInto :: "(string \<Rightarrow> copier) \<Rightarrow> copier" where
  "IstioDestinationRuleRef_DeepCopyInto X = copy_struct []"

definition IstioDestinationRuleRef_DeepCopy :: "(string \<Rightarrow> copier) \<Rightarrow> copier" where
  "IstioDestinationRuleRef_DeepCopy X = new_copy (IstioDestinationRuleRef_DeepCopyInto X)"

lemma IstioDestinationRuleRef_flat [deep_intros]: "externs E X \<Longrightarrow> flat E IstioDestinationRuleRef_ty"
  by (simp add: IstioDestinationRuleRef_ty_def deep_rules deep_intros)

lemma IstioDestinationRuleRef_deep [deep_intros]: "externs E X \<Longrightarrow> deep (IstioDestinationRuleRef_DeepCopyInto X) (fits E IstioDestinationRuleRef_ty)"
  by (simp add: IstioDestinationRuleRef_ty_def IstioDestinationRuleRef_DeepCopyInto_def deep_rules deep_intros)

definition IstioConfig_ty :: ty where
  "IstioConfig_ty = StructT [(''VirtualServices'', SliceT IstioVirtualServiceRef_ty),
     (''DestinationRules'', SliceT IstioDestinationRuleRef_ty)]"

definition IstioConfig_DeepCopyInto :: "(string \<Rightarrow> copier) \<Rightarrow> copier" where
  "IstioConfig_DeepCopyInto X = copy_struct [(''VirtualServices'', copy_slice (IstioVirtualServiceRef_DeepCopyInto X)),
     (''DestinationRules'', copy_slice plain_copy)]"

definition IstioConfig_DeepCopy :: "(string \<Rightarrow> copier) \<Rightarrow> copier" where
  "IstioConfig_DeepCopy X = new_copy (IstioConfig_DeepCopyInto X)"

lemma IstioConfig_deep [deep_intros]: "externs E X \<Longrightarrow> deep (IstioConfig_DeepCopyInto X) (fits E IstioConfig_ty)"
  by (simp add: IstioConfig_ty_def IstioConfig_DeepCopyInto_def deep_rules deep_intros)

definition StringMatch_ty :: ty where
  "StringMatch_ty = StructT [(''Name'', ScalarT), (''MatchType'', ScalarT), (''Value'', ScalarT)]"

definition StringMatch_DeepCopyInto :: "(string \<Rightarrow> copier) \<Rightarrow> copier" where
  "StringMatch_DeepCopyInto X = copy_struct []"

definition StringMatch_DeepCopy :: "(string \<Rightarrow> copier) \<Rightarrow> copier" where
  "StringMatch_DeepCopy X = new_copy (StringMatch_DeepCopyInto X)"

lemma StringMatch_flat [deep_intros]: "externs E X \<Longrightarrow> flat E StringMatch_ty"
  by (simp add: StringMatch_ty_def deep_rules deep_intros)

lemma StringMatch_deep [deep_intros]: "externs E X \<Longrightarrow> deep (StringMatch_DeepCopyInto X) (fits E StringMatch_ty)"
  by (simp add: StringMatch_ty_def StringMatch_DeepCopyInto_def deep_rules deep_intros)

definition RouteMatch_ty :: ty where
  "RouteMatch_ty = StructT [(''Headers'', SliceT StringMatch_ty), (''Cookies'', SliceT StringMatch_ty),
     (''QueryParams'', SliceT StringMatch_ty)]"

definition RouteMatch_DeepCopyInto :: "(string \<Rightarrow> copier) \<Rightarrow> copier" where
  "RouteMatch_DeepCopyInto X = copy_struct [(''Headers'', copy_slice plain_copy), (''Cookies'', copy_slice plain_copy),
     (''QueryParams'', copy_slice plain_copy)]"

definition RouteMatch_DeepCopy :: "(string \<Rightarrow> copier) \<Rightarrow> copier" where
  "RouteMatch_DeepCopy X = new_copy (RouteMatch_DeepCopyInto X)"

lemma RouteMatch_deep [deep_intros]: "externs E X \<Longrightarrow> deep (RouteMatch_DeepCopyInto X) (fits E RouteMatch_ty)"
  by (simp add: RouteMatch_ty_def RouteMatch_DeepCopyInto_def deep_rules deep_intros)

definition ManagedRoute_ty :: ty where
  "ManagedRoute_ty = StructT [(''Name'', ScalarT), (''Matches'', SliceT RouteMatch_ty)]"

definition ManagedRoute_DeepCopyInto :: "(string \<Rightarrow> copier) \<Rightarrow> copier" where
  "ManagedRoute_DeepCopyInto X = copy_struct [(''Matches'', copy_slice (RouteMatch_DeepCopyInto X))]"

definition ManagedRoute_DeepCopy :: "(string \<Rightarrow> copier) \<Rightarrow> copier" where
  "ManagedRoute_DeepCopy X = new_copy (ManagedRoute_DeepCopyInto X)"

lemma ManagedRoute_deep [deep_intros]: "externs E X \<Longrightarrow> deep (ManagedRoute_DeepCopyInto X) (fits E ManagedRoute_ty)"
  by (simp add: ManagedRoute_ty_def ManagedRoute_DeepCopyInto_def deep_rules deep_intros)

definition NginxConfig_ty :: ty where
  "NginxConfig_ty = StructT [(''Ingresses'', SliceT ScalarT), (''AnnotationPrefix'', ScalarT), (''AdditionalAnnotations'', MapT)]"

definition NginxConfig_DeepCopyInto :: "(string \<Rightarrow> copier) \<Rightarrow> copier" where
  "NginxConfig_DeepCopyInto X = copy_struct [(''Ingresses'', copy_slice plain_copy), (''AdditionalAnnotations'', copy_map)]"

definition NginxConfig_DeepCopy :: "(string \<Rightarrow> copier) \<Rightarrow> copier" where
  "NginxConfig_DeepCopy X = new_copy (NginxConfig_DeepCopyInto X)"

lemma NginxConfig_deep [deep_intros]: "externs E X \<Longrightarrow> deep (NginxConfig_DeepCopyInto X) (fits E NginxConfig_ty)"
  by (simp add: NginxConfig_ty_def NginxConfig_DeepCopyInto_def deep_rules deep_intros)

definition PauseCondition_ty :: ty where
  "PauseCondition_ty = StructT [(''Reason'', ScalarT), (''StartTime'', ExternalT ''v1.Time''), (''Until'', PointerT (ExternalT ''v1.Time'')),
     (''Message'', ScalarT)]"

definition PauseCondition_DeepCopyInto :: "(string \<Rightarrow> copier) \<Rightarrow> copier" where
  "PauseCondition_DeepCopyInto X = copy_struct [(''StartTime'', X ''v1.Time''), (''Until'', copy_ptr (X ''v1.Time''))]"

definition PauseCondition_DeepCopy :: "(string \<Rightarrow> copier) \<Rightarrow> copier" where
  "PauseCondition_DeepCopy X = new_copy (PauseCondition_DeepCopyInto X)"

lemma PauseCondition_deep [deep_intros]: "externs E X \<Longrightarrow> deep (PauseCondition_DeepCopyInto X) (fits E PauseCondition_ty)"
  by (simp add: PauseCondition_ty_def PauseCondition_DeepCopyInto_def deep_rules deep_intros)

definition PauseStep_ty :: ty where
  "PauseStep_ty = StructT [(''Duration'', PointerT (ExternalT ''v1.Duration''))]"

definition PauseStep_DeepCopyInto :: "(string \<Rightarrow> copier) \<Rightarrow> copier" where
  "PauseStep_DeepCopyInto X = copy_struct [(''Duration'', copy_ptr plain_copy)]"

definition PauseStep_DeepCopy :: "(string \<Rightarrow> copier) \<Rightarrow> copier" where
  "PauseStep_DeepCopy X = new_copy (PauseStep_DeepCopyInto X)"

lemma PauseStep_deep [deep_intros]: "externs E X \<Longrightarrow> deep (PauseStep_DeepCopyInto X) (fits E PauseStep_ty)"
  by (simp add: PauseStep_ty_def PauseStep_DeepCopyInto_def deep_rules deep_intros)

definition SetWeightStep_ty :: ty where
  "SetWeightStep_ty = StructT [(''Weight'', ScalarT), (''Matches'', SliceT RouteMatch_ty)]"

definition SetWeightStep_DeepCopyInto :: "(string \<Rightarrow> copier) \<Rightarrow> copier" where
  "SetWeightStep_DeepCopyInto X = copy_struct [(''Matches'', copy_slice (RouteMatch_DeepCopyInto X))]"

definition SetWeightStep_DeepCopy :: "(string \<Rightarrow> copier) \<Rightarrow> copier" where
  "SetWeightStep_DeepCopy X = new_copy (SetWeightStep_DeepCopyInto X)"

lemma SetWeightStep_deep [deep_intros]: "externs E X \<Longrightarrow> deep (SetWeightStep_DeepCopyInto X) (fits E SetWeightStep_ty)"
  by (simp add: SetWeightStep_ty_def SetWeightStep_DeepCopyInto_def deep_rules deep_intros)

definition SetCanaryScaleStep_ty :: ty where
  "SetCanaryScaleStep_ty = StructT [(''Replicas'', PointerT ScalarT), (''Percent'', PointerT (ExternalT ''intstr.IntOrString'')),
     (''MatchTrafficWeight'', ScalarT)]"

definition SetCanaryScaleStep_DeepCopyInto :: "(string \<Rightarrow> copier) \<Rightarrow> copier" where
  "SetCanaryScaleStep_DeepCopyInto X = copy_struct [(''Replicas'', copy_ptr plain_copy), (''Percent'', copy_ptr plain_copy)]"

definition SetCanaryScaleStep_DeepCopy :: "(string \<Rightarrow> copier) \<Rightarrow> copier" where
  "SetCanaryScaleStep_DeepCopy X = new_copy (SetCanaryScaleStep_DeepCopyInto X)"

lemma SetCanaryScaleStep_deep [deep_intros]: "externs E X \<Longrightarrow> deep (SetCanaryScaleStep_DeepCopyInto X) (fits E SetCanaryScaleStep_ty)"
  by (simp add: SetCanaryScaleStep_ty_def SetCanaryScaleStep_DeepCopyInto_def deep_rules deep_intros)

definition PromoteStep_ty :: ty where
  "PromoteStep_ty = StructT []"

definition PromoteStep_DeepCopyInto :: "(string \<Rightarrow> copier) \<Rightarrow> copier" where
  "PromoteStep_DeepCopyInto X = copy_struct []"

definition PromoteStep_DeepCopy :: "(string \<Rightarrow> copier) \<Rightarrow> copier" where
  "PromoteStep_DeepCopy X = new_copy (PromoteStep_DeepCopyInto X)"

lemma PromoteStep_flat [deep_intros]: "externs E X \<Longrightarrow> flat E PromoteStep_ty"
  by (simp add: PromoteStep_ty_def deep_rules deep_intros)

lemma PromoteStep_deep [deep_intros]: "externs E X \<Longrightarrow> deep (PromoteStep_DeepCopyInto X) (fits E PromoteStep_ty)"
  by (simp add: PromoteStep_ty_def PromoteStep_DeepCopyInto_def deep_rules deep_intros)

definition Step_ty :: ty where
  "Step_ty = StructT [(''Name'', ScalarT), (''SetWeight'', PointerT SetWeightStep_ty),
     (''SetCanaryScale'', PointerT SetCanaryScaleStep_ty), (''Pause'', PointerT PauseStep_ty),
     (''Analysis'', PointerT AnalysisStep_ty), (''Experiment'', PointerT ExperimentStep_ty),
     (''Promote'', PointerT PromoteStep_ty)]"

definition Step_DeepCopyInto :: "(string \<Rightarrow> copier) \<Rightarrow> copier" where
  "Step_DeepCopyInto X = copy_struct [(''SetWeight'', copy_ptr (SetWeightStep_DeepCopyInto X)),
     (''SetCanaryScale'', copy_ptr (SetCanaryScaleStep_DeepCopyInto X)),
     (''Pause'', copy_ptr (PauseStep_DeepCopyInto X)), (''Analysis'', copy_ptr (AnalysisStep_DeepCopyInto X)),
     (''Experiment'', copy_ptr (ExperimentStep_DeepCopyInto X)), (''Promote'', copy_ptr plain_copy)]"

definition Step_DeepCopy :: "(string \<Rightarrow> copier) \<Rightarrow> copier" where
  "Step_DeepCopy X = new_copy (Step_DeepCopyInto X)"

lemma Step_deep [deep_intros]: "externs E X \<Longrightarrow> deep (Step_DeepCopyInto X) (fits E Step_ty)"
  by (simp add: Step_ty_def Step_DeepCopyInto_def deep_rules deep_intros)

definition ProgressionSpec_ty :: ty where
  "ProgressionSpec_ty = StructT [(''Steps'', SliceT Step_ty), (''MaxUnavailable'', PointerT (ExternalT ''intstr.IntOrString'')),
     (''MaxSurge'', PointerT (ExternalT ''intstr.IntOrString'')), (''ScaleDownDelaySeconds'', PointerT ScalarT)]"

definition ProgressionSpec_DeepCopyInto :: "(string \<Rightarrow> copier) \<Rightarrow> copier" where
  "ProgressionSpec_DeepCopyInto X = copy_struct [(''Steps'', copy_slice (Step_DeepCopyInto X)), (''MaxUnavailable'', copy_ptr plain_copy),
     (''MaxSurge'', copy_ptr plain_copy), (''ScaleDownDelaySeconds'', copy_ptr plain_copy)]"

definition ProgressionSpec_DeepCopy :: "(string \<Rightarrow> copier) \<Rightarrow> copier" where
  "ProgressionSpec_DeepCopy X = new_copy (ProgressionSpec_DeepCopyInto X)"

lemma ProgressionSpec_deep [deep_intros]: "externs E X \<Longrightarrow> deep (ProgressionSpec_DeepCopyInto X) (fits E ProgressionSpec_ty)"
  by (simp add: ProgressionSpec_ty_def ProgressionSpec_DeepCopyInto_def deep_rules deep_intros)

definition RollbackWindow_ty :: ty where
  "RollbackWindow_ty = StructT [(''Revisions'', ScalarT)]"

definition RollbackWindow_DeepCopyInto :: "(string \<Rightarrow> copier) \<Rightarrow> copier" where
  "RollbackWindow_DeepCopyInto X = copy_struct []"

definition RollbackWindow_DeepCopy :: "(string \<Rightarrow> copier) \<Rightarrow> copier" where
  "RollbackWindow_DeepCopy X = new_copy (RollbackWindow_DeepCopyInto X)"

lemma RollbackWindow_flat [deep_intros]: "externs E X \<Longrightarrow> flat E RollbackWindow_ty"
  by (simp add: RollbackWindow_ty_def deep_rules deep_intros)

lemma RollbackWindow_deep [deep_intros]: "externs E X \<Longrightarrow> deep (RollbackWindow_DeepCopyInto X) (fits E RollbackWindow_ty)"
  by (simp add: RollbackWindow_ty_def RollbackWindow_DeepCopyInto_def deep_rules deep_intros)

definition ServiceRef_ty :: ty where
  "ServiceRef_ty = StructT [(''Name'', ScalarT)]"

definition ServiceRef_DeepCopyInto :: "(string \<Rightarrow> copier) \<Rightarrow> copier" where
  "ServiceRef_DeepCopyInto X = copy_struct []"

definition ServiceRef_DeepCopy :: "(string \<Rightarrow> copier) \<Rightarrow> copier" where
  "ServiceRef_DeepCopy X = new_copy (ServiceRef_DeepCopyInto X)"

lemma ServiceRef_flat [deep_intros]: "externs E X \<Longrightarrow> flat E ServiceRef_ty"
  by (simp add: ServiceRef_ty_def deep_rules deep_intros)

lemma ServiceRef_deep [deep_intros]: "externs E X \<Longrightarrow> deep (ServiceRef_DeepCopyInto X) (fits E ServiceRef_ty)"
  by (simp add: ServiceRef_ty_def ServiceRef_DeepCopyInto_def deep_rules deep_intros)

definition WorkloadRef_ty :: ty where
  "WorkloadRef_ty = StructT [(''APIVersion'', ScalarT), (''Kind'', ScalarT), (''Name'', ScalarT), (''ScaleDown'', ScalarT)]"

definition WorkloadRef_DeepCopyInto :: "(string \<Rightarrow> copier) \<Rightarrow> copier" where
  "WorkloadRef_DeepCopyInto X = copy_struct []"

definition WorkloadRef_DeepCopy :: "(string \<Rightarrow> copier) \<Rightarrow> copier" where
  "WorkloadRef_DeepCopy X = new_copy (WorkloadRef_DeepCopyInto X)"

lemma WorkloadRef_flat [deep_intros]: "externs E X \<Longrightarrow> flat E WorkloadRef_ty"
  by (simp add: WorkloadRef_ty_def deep_rules deep_intros)

lemma WorkloadRef_deep [deep_intros]: "externs E X \<Longrightarrow> deep (WorkloadRef_DeepCopyInto X) (fits E WorkloadRef_ty)"
  by (simp add: WorkloadRef_ty_def WorkloadRef_DeepCopyInto_def deep_rules deep_intros)

definition SMIConfig_ty :: ty where
  "SMIConfig_ty = StructT [(''TrafficSplits'', SliceT ScalarT), (''RootService'', ScalarT)]"

definition SMIConfig_DeepCopyInto :: "(string \<Rightarrow> copier) \<Rightarrow> copier" where
  "SMIConfig_DeepCopyInto X = copy_struct [(''TrafficSplits'', copy_slice plain_copy)]"

definition SMIConfig_DeepCopy :: "(string \<Rightarrow> copier) \<Rightarrow> copier" where
  "SMIConfig_DeepCopy X = new_copy (SMIConfig_DeepCopyInto X)"

lemma SMIConfig_deep [deep_intros]: "externs E X \<Longrightarrow> deep (SMIConfig_DeepCopyInto X) (fits E SMIConfig_ty)"
  by (simp add: SMIConfig_ty_def SMIConfig_DeepCopyInto_def deep_rules deep_intros)

definition TraefikConfig_ty :: ty where
  "TraefikConfig_ty = StructT [(''WeightedTraefikServices'', SliceT ScalarT)]"

definition TraefikConfig_DeepCopyInto :: "(string \<Rightarrow> copier) \<Rightarrow> copier" where
  "TraefikConfig_DeepCopyInto X = copy_struct [(''WeightedTraefikServices'', copy_slice plain_copy)]"

definition TraefikConfig_DeepCopy :: "(string \<Rightarrow> copier) \<Rightarrow> copier" where
  "TraefikConfig_DeepCopy X = new_copy (TraefikConfig_DeepCopyInto X)"

lemma TraefikConfig_deep [deep_intros]: "externs E X \<Longrightarrow> deep (TraefikConfig_DeepCopyInto X) (fits E TraefikConfig_ty)"
  by (simp add: TraefikConfig_ty_def TraefikConfig_DeepCopyInto_def deep_rules deep_intros)

definition TrafficRoutingSpec_ty :: ty where
  "TrafficRoutingSpec_ty = StructT [(''Provider'', ScalarT), (''VerifyWeight'', ScalarT), (''ManagedRoutes'', SliceT ManagedRoute_ty),
     (''Istio'', PointerT IstioConfig_ty), (''Nginx'', PointerT NginxConfig_ty), (''ALB'', PointerT ALBConfig_ty),
     (''SMI'', PointerT SMIConfig_ty), (''Traefik'', PointerT TraefikConfig_ty),
     (''APISIX'', PointerT APISIXConfig_ty)]"

definition TrafficRoutingSpec_DeepCopyInto :: "(string \<Rightarrow> copier) \<Rightarrow> copier" where
  "TrafficRoutingSpec_DeepCopyInto X = copy_struct [(''ManagedRoutes'', copy_slice (ManagedRoute_DeepCopyInto X)),
     (''Istio'', copy_ptr (IstioConfig_DeepCopyInto X)), (''Nginx'', copy_ptr (NginxConfig_DeepCopyInto X)),
     (''ALB'', copy_ptr (ALBConfig_DeepCopyInto X)), (''SMI'', copy_ptr (SMIConfig_DeepCopyInto X)),
     (''Traefik'', copy_ptr (TraefikConfig_DeepCopyInto X)), (''APISIX'', copy_ptr (APISIXConfig_DeepCopyInto X))]"

definition TrafficRoutingSpec_DeepCopy :: "(string \<Rightarrow> copier) \<Rightarrow> copier" where
  "TrafficRoutingSpec_DeepCopy X = new_copy (TrafficRoutingSpec_DeepCopyInto X)"

lemma TrafficRoutingSpec_deep [deep_intros]: "externs E X \<Longrightarrow> deep (TrafficRoutingSpec_DeepCopyInto X) (fits E TrafficRoutingSpec_ty)"
  by (simp add: TrafficRoutingSpec_ty_def TrafficRoutingSpec_DeepCopyInto_def deep_rules deep_intros)

definition RolloutSpec_ty :: ty where
  "RolloutSpec_ty = StructT [(''Replicas'', PointerT ScalarT), (''Selector'', PointerT (ExternalT ''v1.LabelSelector'')),
     (''Template'', PointerT (ExternalT ''corev1.PodTemplateSpec'')), (''WorkloadRef'', PointerT WorkloadRef_ty),
     (''StableServices'', SliceT ServiceRef_ty), (''CanaryServices'', SliceT ServiceRef_ty),
     (''Progression'', ProgressionSpec_ty), (''TrafficRouting'', PointerT TrafficRoutingSpec_ty),
     (''AutoPromotion'', ScalarT), (''DynamicStableScale'', ScalarT), (''HPAStrategy'', ScalarT),
     (''Analysis'', SliceT AnalysisHook_ty), (''EphemeralMetadata'', SliceT EphemeralMetadata_ty),
     (''RestartAt'', PointerT (ExternalT ''v1.Time'')), (''RollbackWindow'', PointerT RollbackWindow_ty),
     (''ProgressDeadlineSeconds'', PointerT ScalarT), (''RevisionHistoryLimit'', PointerT ScalarT),
     (''MinReadySeconds'', ScalarT), (''Paused'', ScalarT), (''Abort'', ScalarT)]"

definition RolloutSpec_DeepCopyInto :: "(string \<Rightarrow> copier) \<Rightarrow> copier" where
  "RolloutSpec_DeepCopyInto X = copy_struct [(''Replicas'', copy_ptr plain_copy), (''Selector'', copy_ptr (X ''v1.LabelSelector'')),
     (''Template'', copy_ptr (X ''corev1.PodTemplateSpec'')), (''WorkloadRef'', copy_ptr plain_copy),
     (''StableServices'', copy_slice plain_copy), (''CanaryServices'', copy_slice plain_copy),
     (''Progression'', ProgressionSpec_DeepCopyInto X),
     (''TrafficRouting'', copy_ptr (TrafficRoutingSpec_DeepCopyInto X)),
     (''Analysis'', copy_slice (AnalysisHook_DeepCopyInto X)),
     (''EphemeralMetadata'', copy_slice (EphemeralMetadata_DeepCopyInto X)),
     (''RestartAt'', copy_ptr (X ''v1.Time'')), (''RollbackWindow'', copy_ptr plain_copy),
     (''ProgressDeadlineSeconds'', copy_ptr plain_copy), (''RevisionHistoryLimit'', copy_ptr plain_copy)]"

definition RolloutSpec_DeepCopy :: "(string \<Rightarrow> copier) \<Rightarrow> copier" where
  "RolloutSpec_DeepCopy X = new_copy (RolloutSpec_DeepCopyInto X)"

lemma RolloutSpec_deep [deep_intros]: "externs E X \<Longrightarrow> deep (RolloutSpec_DeepCopyInto X) (fits E RolloutSpec_ty)"
  by (simp add: RolloutSpec_ty_def RolloutSpec_DeepCopyInto_def deep_rules deep_intros)

definition RolloutStatus_ty :: ty where
  "RolloutStatus_ty = StructT [(''ObservedGeneration'', ScalarT), (''Replicas'', ScalarT), (''UpdatedReplicas'', ScalarT),
     (''ReadyReplicas'', ScalarT), (''AvailableReplicas'', ScalarT), (''Selector'', ScalarT),
     (''CurrentStep'', ScalarT), (''CurrentStepHash'', ScalarT), (''CurrentPodHash'', ScalarT),
     (''StableRevision'', ScalarT), (''CurrentRevision'', ScalarT),
     (''StepStartedAt'', PointerT (ExternalT ''v1.Time'')), (''Phase'', ScalarT), (''Message'', ScalarT),
     (''PauseConditions'', SliceT PauseCondition_ty), (''Conditions'', SliceT (ExternalT ''v1.Condition'')),
     (''AnalysisRunSummaries'', SliceT AnalysisRunSummary_ty), (''RestartedAt'', PointerT (ExternalT ''v1.Time'')),
     (''CollisionCount'', PointerT ScalarT), (''CurrentWeight'', ScalarT), (''DesiredReplicas'', ScalarT)]"

definition RolloutStatus_DeepCopyInto :: "(string \<Rightarrow> copier) \<Rightarrow> copier" where
  "RolloutStatus_DeepCopyInto X = copy_struct [(''StepStartedAt'', copy_ptr (X ''v1.Time'')),
     (''PauseConditions'', copy_slice (PauseCondition_DeepCopyInto X)),
     (''Conditions'', copy_slice (X ''v1.Condition'')), (''AnalysisRunSummaries'', copy_slice plain_copy),
     (''RestartedAt'', copy_ptr (X ''v1.Time'')), (''CollisionCount'', copy_ptr plain_copy)]"

definition RolloutStatus_DeepCopy :: "(string \<Rightarrow> copier) \<Rightarrow> copier" where
  "RolloutStatus_DeepCopy X = new_copy (RolloutStatus_DeepCopyInto X)"

lemma RolloutStatus_deep [deep_intros]: "externs E X \<Longrightarrow> deep (RolloutStatus_DeepCopyInto X) (fits E RolloutStatus_ty)"
  by (simp add: RolloutStatus_ty_def RolloutStatus_DeepCopyInto_def deep_rules deep_intros)

definition Rollout_ty :: ty where
  "Rollout_ty = StructT [(''TypeMeta'', ExternalT ''v1.TypeMeta''), (''ObjectMeta'', ExternalT ''v1.ObjectMeta''),
     (''Spec'', RolloutSpec_ty), (''Status'', RolloutStatus_ty)]"

definition Rollout_DeepCopyInto :: "(string \<Rightarrow> copier) \<Rightarrow> copier" where
  "Rollout_DeepCopyInto X = copy_struct [(''TypeMeta'', plain_copy), (''ObjectMeta'', X ''v1.ObjectMeta''), (''Spec'', RolloutSpec_DeepCopyInto X),
     (''Status'', RolloutStatus_DeepCopyInto X)]"

definition Rollout_DeepCopy :: "(string \<Rightarrow> copier) \<Rightarrow> copier" where
  "Rollout_DeepCopy X = new_copy (Rollout_DeepCopyInto X)"

lemma Rollout_deep [deep_intros]: "externs E X \<Longrightarrow> deep (Rollout_DeepCopyInto X) (fits E Rollout_ty)"
  by (simp add: Rollout_ty_def Rollout_DeepCopyInto_def deep_rules deep_intros)

definition RolloutList_ty :: ty where
  "RolloutList_ty = StructT [(''TypeMeta'', ExternalT ''v1.TypeMeta''), (''ListMeta'', ExternalT ''v1.ListMeta''),
     (''Items'', SliceT Rollout_ty)]"

definition RolloutList_DeepCopyInto :: "(string \<Rightarrow> copier) \<Rightarrow> copier" where
  "RolloutList_DeepCopyInto X = copy_struct [(''TypeMeta'', plain_copy), (''ListMeta'', X ''v1.ListMeta''), (''Items'', copy_slice (Rollout_DeepCopyInto X))]"

definition RolloutList_DeepCopy :: "(string \<Rightarrow> copier) \<Rightarrow> copier" where
  "RolloutList_DeepCopy X = new_copy (RolloutList_DeepCopyInto X)"

lemma RolloutList_deep [deep_intros]: "externs E X \<Longrightarrow> deep (RolloutList_DeepCopyInto X) (fits E RolloutList_ty)"
  by (simp add: RolloutList_ty_def RolloutList_DeepCopyInto_def deep_rules deep_intros)

section \<open>Objects\<close>

text \<open>
  The types that are objects of the API copy themselves behind an interface: \<open>DeepCopyObject\<close> gives the copy, and the nil of the
  interface for a nil pointer.
\<close>

definition object_copy :: "copier \<Rightarrow> copier" where
  "object_copy C h p = (case C h p of (c, h') \<Rightarrow> if c \<noteq> NilRef then (c, h') else (NilRef, h'))"

lemma object_copy_eq [simp]: "object_copy C = C"
  by (intro ext) (simp add: object_copy_def split: prod.split)

definition AnalysisRun_DeepCopyObject :: "(string \<Rightarrow> copier) \<Rightarrow> copier" where
  "AnalysisRun_DeepCopyObject X = object_copy (AnalysisRun_DeepCopy X)"

definition AnalysisRunList_DeepCopyObject :: "(string \<Rightarrow> copier) \<Rightarrow> copier" where
  "AnalysisRunList_DeepCopyObject X = object_copy (AnalysisRunList_DeepCopy X)"

definition AnalysisTemplate_DeepCopyObject :: "(string \<Rightarrow> copier) \<Rightarrow> copier" where
  "AnalysisTemplate_DeepCopyObject X = object_copy (AnalysisTemplate_DeepCopy X)"

definition AnalysisTemplateList_DeepCopyObject :: "(string \<Rightarrow> copier) \<Rightarrow> copier" where
  "AnalysisTemplateList_DeepCopyObject X = object_copy (AnalysisTemplateList_DeepCopy X)"

definition ClusterAnalysisTemplate_DeepCopyObject :: "(string \<Rightarrow> copier) \<Rightarrow> copier" where
  "ClusterAnalysisTemplate_DeepCopyObject X = object_copy (ClusterAnalysisTemplate_DeepCopy X)"

definition ClusterAnalysisTemplateList_DeepCopyObject :: "(string \<Rightarrow> copier) \<Rightarrow> copier" where
  "ClusterAnalysisTemplateList_DeepCopyObject X = object_copy (ClusterAnalysisTemplateList_DeepCopy X)"

definition Experiment_DeepCopyObject :: "(string \<Rightarrow> copier) \<Rightarrow> copier" where
  "Experiment_DeepCopyObject X = object_copy (Experiment_DeepCopy X)"

definition ExperimentList_DeepCopyObject :: "(string \<Rightarrow> copier) \<Rightarrow> copier" where
  "ExperimentList_DeepCopyObject X = object_copy (ExperimentList_DeepCopy X)"

definition Rollout_DeepCopyObject :: "(string \<Rightarrow> copier) \<Rightarrow> copier" where
  "Rollout_DeepCopyObject X = object_copy (Rollout_DeepCopy X)"

definition RolloutList_DeepCopyObject :: "(string \<Rightarrow> copier) \<Rightarrow> copier" where
  "RolloutList_DeepCopyObject X = object_copy (RolloutList_DeepCopy X)"

text \<open>The call of \<open>DeepCopyObject\<close> goes by the type of the object.\<close>

datatype objectKind = AnalysisRunKind | AnalysisRunListKind | AnalysisTemplateKind | AnalysisTemplateListKind
  | ClusterAnalysisTemplateKind | ClusterAnalysisTemplateListKind | ExperimentKind
  | ExperimentListKind | RolloutKind | RolloutListKind

fun kind_ty :: "objectKind \<Rightarrow> ty" where
  "kind_ty AnalysisRunKind = AnalysisRun_ty"
| "kind_ty AnalysisRunListKind = AnalysisRunList_ty"
| "kind_ty AnalysisTemplateKind = AnalysisTemplate_ty"
| "kind_ty AnalysisTemplateListKind = AnalysisTemplateList_ty"
| "kind_ty ClusterAnalysisTemplateKind = ClusterAnalysisTemplate_ty"
| "kind_ty ClusterAnalysisTemplateListKind = ClusterAnalysisTemplateList_ty"
| "kind_ty ExperimentKind = Experiment_ty"
| "kind_ty ExperimentListKind = ExperimentList_ty"
| "kind_ty RolloutKind = Rollout_ty"
| "kind_ty RolloutListKind = RolloutList_ty"

fun DeepCopyObject :: "(string \<Rightarrow> copier) \<Rightarrow> objectKind \<Rightarrow> copier" where
  "DeepCopyObject X AnalysisRunKind = AnalysisRun_DeepCopyObject X"
| "DeepCopyObject X AnalysisRunListKind = AnalysisRunList_DeepCopyObject X"
| "DeepCopyObject X AnalysisTemplateKind = AnalysisTemplate_DeepCopyObject X"
| "DeepCopyObject X AnalysisTemplateListKind = AnalysisTemplateList_DeepCopyObject X"
| "DeepCopyObject X ClusterAnalysisTemplateKind = ClusterAnalysisTemplate_DeepCopyObject X"
| "DeepCopyObject X ClusterAnalysisTemplateListKind = ClusterAnalysisTemplateList_DeepCopyObject X"
| "DeepCopyObject X ExperimentKind = Experiment_DeepCopyObject X"
| "DeepCopyObject X ExperimentListKind = ExperimentList_DeepCopyObject X"
| "DeepCopyObject X RolloutKind = Rollout_DeepCopyObject X"
| "DeepCopyObject X RolloutListKind = RolloutList_DeepCopyObject X"

lemmas DeepCopyObject_defs =
  AnalysisRun_DeepCopyObject_def AnalysisRun_DeepCopy_def AnalysisRunList_DeepCopyObject_def
  AnalysisRunList_DeepCopy_def AnalysisTemplate_DeepCopyObject_def AnalysisTemplate_DeepCopy_def
  AnalysisTemplateList_DeepCopyObject_def AnalysisTemplateList_DeepCopy_def ClusterAnalysisTemplate_DeepCopyObject_def
  ClusterAnalysisTemplate_DeepCopy_def ClusterAnalysisTemplateList_DeepCopyObject_def
  ClusterAnalysisTemplateList_DeepCopy_def Experiment_DeepCopyObject_def Experiment_DeepCopy_def
  ExperimentList_DeepCopyObject_def ExperimentList_DeepCopy_def Rollout_DeepCopyObject_def Rollout_DeepCopy_def
  RolloutList_DeepCopyObject_def RolloutList_DeepCopy_def

lemma DeepCopyObject_new:
  assumes "externs E X"
  obtains C where "DeepCopyObject X k = new_copy C" and "deep C (fits E (kind_ty k))"
  using assms by (cases k) (auto simp: DeepCopyObject_defs intro: deep_intros)

text \<open>
  C38. A copy that \<open>DeepCopyObject\<close> makes of an object of any of the ten kinds stands for the same data as the object, and the two
  are independent: after a write to any cell behind the copy the object still stands for what it did, and after a write to
  any cell behind the object the copy does. Hypotheses: the copying functions of types of other modules are deep.
\<close>

theorem DeepCopyObject_independent:
  assumes "externs E X" and "wf_heap h" and "denotes h p (TPtr t)" and "fits E (kind_ty k) t"
    and "DeepCopyObject X k h p = (q, h')"
  shows "denotes h' p (TPtr t) \<and> denotes h' q (TPtr t) \<and>
    (a \<in> cells h' q (TPtr t) \<longrightarrow> denotes (store a c h') p (TPtr t)) \<and>
    (a \<in> cells h' p (TPtr t) \<longrightarrow> denotes (store a c h') q (TPtr t))"
proof -
  obtain C where C: "DeepCopyObject X k = new_copy C" "deep C (fits E (kind_ty k))"
    by (rule DeepCopyObject_new [OF assms(1)])
  have "new_copy C h p = (q, h')" using assms(5) by (simp only: C(1))
  from new_copy_independent [OF C(2) assms(2-4) this] show ?thesis
    by (blast intro: denotes_store)
qed

text \<open>A rollout with labels and a number of replicas, for which the metadata's copying function copies the labels.\<close>

definition metaT :: ty where
  "metaT = StructT [(''Name'', ScalarT), (''Labels'', MapT)]"

definition moduleData :: "string \<Rightarrow> tree \<Rightarrow> bool" where
  "moduleData n t = (if n = ''v1.ObjectMeta'' then fits (\<lambda>_ _. False) metaT t else leafy t)"

definition moduleCopy :: "string \<Rightarrow> copier" where
  "moduleCopy n = (if n = ''v1.ObjectMeta'' then copy_struct [(''Labels'', copy_map)] else plain_copy)"

lemma externs_module: "externs moduleData moduleCopy"
proof -
  have "deep (copy_struct [(''Labels'', copy_map)]) (fits (\<lambda>_ _. False) metaT)"
    unfolding metaT_def by (rule deep_structT) (simp_all add: deep_mapT)
  then have "deep (moduleCopy n) (moduleData n)" for n
    unfolding moduleCopy_def moduleData_def by (auto intro: deep_plain)
  then show ?thesis by (auto simp: externals_def flat_def by_value_def moduleData_def)
qed

fun zero_value :: "ty \<Rightarrow> gv" where
  "zero_value ScalarT = Scalar ''''"
| "zero_value (StructT fs) = Struct (map (\<lambda>f. (fst f, zero_value (snd f))) fs)"
| "zero_value (ExternalT n) = Scalar ''''"
| "zero_value _ = NilRef"

fun zero_data :: "ty \<Rightarrow> tree" where
  "zero_data ScalarT = TScalar ''''"
| "zero_data (StructT fs) = TStruct (map (\<lambda>f. (fst f, zero_data (snd f))) fs)"
| "zero_data (ExternalT n) = TScalar ''''"
| "zero_data _ = TNil"

definition labelled_heap :: heap where
  "labelled_heap = \<lparr>hp_next = 2, hp_mem = [0 \<mapsto> One (Struct [(''TypeMeta'', Scalar ''Rollout''),
     (''ObjectMeta'', Struct [(''Name'', Scalar ''web''), (''Labels'', MapRef 1)]),
     (''Spec'', zero_value RolloutSpec_ty), (''Status'', zero_value RolloutStatus_ty)]), 1 \<mapsto> Dict [(''app'', ''web'')]]\<rparr>"

definition labelled_rollout :: tree where
  "labelled_rollout = TStruct [(''TypeMeta'', TScalar ''Rollout''),
     (''ObjectMeta'', TStruct [(''Name'', TScalar ''web''), (''Labels'', TMap [(''app'', ''web'')])]),
     (''Spec'', zero_data RolloutSpec_ty), (''Status'', zero_data RolloutStatus_ty)]"

lemma labelled_denotes: "denotes labelled_heap (Ptr 0) (TPtr labelled_rollout)"
  by (simp add: labelled_heap_def labelled_rollout_def RolloutSpec_ty_def RolloutStatus_ty_def ProgressionSpec_ty_def)

lemma labelled_fits: "fits moduleData Rollout_ty labelled_rollout"
  by (simp add: labelled_rollout_def Rollout_ty_def RolloutSpec_ty_def RolloutStatus_ty_def ProgressionSpec_ty_def moduleData_def metaT_def)

theorem DeepCopyObject_independent_witness:
  "case DeepCopyObject moduleCopy RolloutKind labelled_heap (Ptr 0) of (q, h') \<Rightarrow>
     denotes h' q (TPtr labelled_rollout) \<and> denotes (store 0 (One NilRef) h') q (TPtr labelled_rollout)"
proof -
  obtain q h' where run: "DeepCopyObject moduleCopy RolloutKind labelled_heap (Ptr 0) = (q, h')" by fastforce
  have wf: "wf_heap labelled_heap" by (auto simp: wf_heap_def labelled_heap_def)
  have fit: "fits moduleData (kind_ty RolloutKind) labelled_rollout" by (simp add: labelled_fits)
  note copy = DeepCopyObject_independent [where a = 0 and c = "One NilRef", OF externs_module wf labelled_denotes fit run]
  then have "0 \<in> cells h' (Ptr 0) (TPtr labelled_rollout)" by (auto split: option.splits cell.splits)
  with copy show ?thesis unfolding run prod.case by blast
qed

end
