(* ===== verification/Spec2Isabelle.thy ===== *)
theory Spec2Isabelle
  imports Rollout_Progress Deployment_Controller Prometheus_Provider Deep_Copies
begin

text \<open>
  A verification library for the rollouts controller under \<open>src/\<close>, a Kubernetes controller in Go that moves traffic and
  pods step by step from one version of a workload to the next.

  \<^bold>\<open>The program.\<close> A Rollout names a pod template and a list of steps (set a traffic weight, scale the canary, pause,
  run an analysis, promote). \<open>pkg/controller/rollout\<close> reconciles it: it lists the ReplicaSets, lets code forked from
  the Kubernetes Deployment controller (\<open>_forkedfrom_k8s\<close>) create the new one on a synthetic Deployment, splits the
  replicas by the current weight, pushes counters to the status and executes the current step. Weights go to a traffic
  router chosen from the registry of \<open>pkg/trafficrouting\<close>, of which Istio is the only provider that is implemented.
  Analysis steps create AnalysisRuns, which \<open>pkg/controller/analysis\<close> samples and judges.
  \<open>pkg/controller/experiment\<close> only stamps a status. The forked code also holds the whole Deployment controller, which
  no Rollout reaches; it is modelled too, because its functions share the primitives.

  \<^bold>\<open>Style of the model.\<close> Go's \<open>int32\<close> and \<open>int64\<close> are \<open>int\<close> with the wrap-around written out, \<open>float64\<close> is exact
  binary64 on rationals, \<open>string\<close> is a list of characters, a pointer is an \<open>option\<close>, a nil map is \<open>None\<close> and a
  \<open>map[string]string\<close> an association list of which only what does not depend on its order is used. A function that
  talks to the cluster is an \<open>io\<close>: it takes a world (the state of the server and the requests sent so far, each with
  whether it succeeded) and returns an error or a value and the next world. The server, the clock, the router and the
  informers are records of operations over an arbitrary server state, so a theorem about a run holds for every answer
  they may give, refusals included. A panic is an error that \<open>tryE\<close> does not catch. Libraries outside the repository
  (scaled values of percentages, label selectors, deep equality, work queue keys, error aggregates, unstructured
  objects, the expression language) are fields of the record \<open>lib\<close> and its like; a property that relies on one names
  what it relies on (\<open>scaled_value_spec\<close>, \<open>semantic_equal_spec\<close>, \<open>key_spec\<close>, \<open>aggregate_spec\<close>,
  \<open>unstructured_spec\<close>), and \<open>ref_lib\<close> shows that these can hold.

  \<^bold>\<open>Theories.\<close>
  \<^item> \<open>Go_Prelude\<close>, \<open>Go_Library\<close>, \<open>Float64\<close>: wrapping integers, times, errors and formatting, the combinators of
    \<open>io\<close>; maps of strings behind the locale \<open>string_map\<close>, decimal text with its round trip, splitting and joining,
    \<open>sort.Sort\<close> behind the locale \<open>strict_weak_order\<close>; rounding of binary64 and the error bounds the replica split needs.
  \<^item> \<open>Go_ParseFloat\<close>, \<open>Go_Json\<close>, \<open>Go_Url\<close>: what the analysis uses of \<open>strconv\<close>, \<open>encoding/json\<close> and \<open>net/url\<close>; the
    reading of floats, the JSON scanner as a state machine, query strings, each with its round trip.
  \<^item> \<open>K8s_Objects\<close>, \<open>Rollout_Types\<close>, \<open>Analysis_Types\<close>: the API objects, one record per struct of
    \<open>types_rollout.go\<close>, \<open>types_analysis.go\<close> and \<open>types_experiment.go\<close>.
  \<^item> \<open>Cluster\<close>: the operations of the server, the requests they leave in the history, and the three ways the
    components are reasoned about: \<open>emits\<close> (every request of a run satisfies a predicate), \<open>runs_at\<close> (a relation of
    result and requests) and \<open>returns\<close> (every value returned does).
  \<^item> \<open>K8s_Controller\<close>: \<open>controller_utils.go\<close> and \<open>labels.go\<close> under \<open>pkg/internal\<close>; its three orders interpret
    \<open>strict_weak_order\<close>.
  \<^item> \<open>Controller_Refs\<close>: \<open>controller_ref_manager.go\<close>, adoption and release of ReplicaSets; the locale
    \<open>adoption_check\<close> states what the check before an adoption promises, and \<open>Deployment_Controller\<close> interprets it.
  \<^item> \<open>Deployment_Util\<close>, \<open>Deployment_Sync\<close>, \<open>Deployment_Rollout\<close>, \<open>Deployment_Controller\<close>: the forked code,
    \<open>deployment_util.go\<close>; \<open>sync.go\<close>; \<open>rolling.go\<close>, \<open>recreate.go\<close>, \<open>progress.go\<close> and \<open>rollback.go\<close>;
    \<open>deployment_controller.go\<close>.
  \<^item> \<open>Rollout_Scaling\<close>: \<open>scaling.go\<close>, \<open>helpers.go\<close>, \<open>adapter.go\<close> and \<open>status.go\<close>.
  \<^item> \<open>Rollout_Steps\<close>: \<open>progression.go\<close> and \<open>steps.go\<close>, every step handler.
  \<^item> \<open>Traffic_Routing\<close>: \<open>plugin.go\<close>, the provider stubs and \<open>istio.go\<close>.
  \<^item> \<open>Rollout_Controller\<close>: \<open>controller.go\<close> and \<open>clientsetrslister.go\<close>.
  \<^item> \<open>Rollout_Progress\<close>: no code of its own; the step machine that the reconciler refines.
  \<^item> \<open>Analysis_Run\<close>: \<open>evaluator.go\<close> and \<open>controller.go\<close> of the analysis, and the experiment reconciler.
  \<^item> \<open>Prometheus_Provider\<close>: \<open>providers/prometheus.go\<close>, the request of an instant query and the decoding of its answer, and
    the analysis on top of it.
  \<^item> \<open>Go_Memory\<close>, \<open>Deep_Copies\<close>: \<open>zz_generated.deepcopy.go\<close>. The other theories take objects as values; here pointers, slices
    and maps refer to cells of a memory, \<open>deep\<close> is the contract of a copying function, and each of the 74 structs has its
    type, its \<open>DeepCopyInto\<close> and \<open>DeepCopy\<close> and a lemma that they meet the contract, by one rule per statement form.

  \<^bold>\<open>What is shown.\<close>
  \<^item> Progression. A reconcile refines a machine on the position among the steps (stay, go on, start over), for every
    cluster; along every sequence of reconciles the Rollout stays at a step of its spec; on a cluster that
    accepts everything a progression of weights completes after one execution per step.
  \<^item> Replicas. The floating-point split is the exact ceiling, the parts add up, reconciling touches only the two
    ReplicaSets concerned and leaves them at their sizes.
  \<^item> Order of effects. Traffic moves before the status records it, services and ReplicaSets change only after the
    router took all traffic, an abort takes the traffic away first, an analysis gates its step.
  \<^item> Waiting. Timed pauses, the delay before the old version goes, the requeue of a stuck Deployment end exactly when
    they should.
  \<^item> Forked code. Partition into new and old ReplicaSets, conditions, surge and revision numbers; pruning
    deletes only what it may; a rolling update keeps the pods it must; Recreate never overlaps versions; a rollback
    restores the revision; claims are careful; a Deployment being deleted is left alone; a work item is always settled, and a
    key whose sync keeps failing is dropped by its sixteenth attempt.
  \<^item> Analysis. Every status written for a run is sound: counters agree with the measurements and a run is Successful only
    on enough successful samples of each metric that counts; one reconcile writes one status. At the end of this theory
    the two controllers are put together: an analysis step is left only on such evidence.
  \<^item> Prometheus. A query returns numbers or an error that names its origin, the server finds the query in the URL
    whatever characters it has, and the answer to an instant query is read back.
  \<^item> Deep copies. A copy of an API object stands for the same data and shares no memory with it. This is what allows the
    other theories to take \<open>patched := ro.DeepCopy()\<close> and the writes to \<open>patched\<close> for an update of a value.
  \<^item> Istio. A rewritten route verifies at its weight, and nothing else of it changes.
  Some properties record behaviour that differs from what the comments intend: a completed rollout starts over, a
  pause without a duration cannot be left, an aborted canary is scaled up again, the router wired in by default
  panics for Istio, and pods of created ReplicaSets are mapped to no Rollout. Lemmas record that metrics of one name
  share a result and that the range of a Prometheus metric is not read.

  \<^bold>\<open>Bounds and fuel.\<close> Every definition is total. Loops over slices are recursions on lists. Only \<open>worker\<close>, which runs
  until the queue shuts down, takes a bound on its rounds; its result says whether the queue was shut down, and no
  property rests on it. Integers keep their width wherever the code computes with them.

  \<^bold>\<open>Not modelled.\<close> The wiring that hands the modelled functions to libraries which cannot be read here: the registration
  with the runtime scheme (\<open>register.go\<close>), flags and start-up (\<open>main.go\<close> but for the registered providers),
  \<open>SetupWithManager\<close> but for the router, \<open>NewDeploymentController\<close> but for the handlers it registers, and \<open>Run\<close>, which starts
  the workers as goroutines; \<open>WaitForObservedDeployment\<close>, a polling helper that nothing calls. Log lines; the transport of
  HTTP, the grammar of whole URLs and the texts of JSON errors, of which the provider relies on nothing. Updates of a
  status are recorded with the object they carry; optimistic locking is one of the refusals the server may answer with.
\<close>

section \<open>What a promotion rests on\<close>

text \<open>The runs that the analysis reconciler writes, one reconcile after the other, from one that was created.\<close>

inductive analysed :: "'w analysisReconciler \<Rightarrow> analysisRun \<Rightarrow> analysisRun \<Rightarrow> bool" for A created where
  created: "analysed A created created"
| reconciled: "analysed A created run \<Longrightarrow> list_all short_result (arst_MetricResults (run_Status run)) \<Longrightarrow>
    reconcileRun A run s = (r, s') \<Longrightarrow> (UpdateAnalysisRunStatus run', True) \<in> set (new_requests s s') \<Longrightarrow>
    analysed A created run'"

lemma analysed_sound:
  assumes "analysed A created run" and "sound (an_lib A) created" and "distinct (map met_Name (arspec_Metrics (run_Spec created)))"
  shows "sound (an_lib A) run \<and> run_Spec run = run_Spec created"
  using assms(1)
proof induction
  case (reconciled run s r s' run')
  with assms(3) have "distinct (map met_Name (arspec_Metrics (run_Spec run)))" by simp
  with reconciled show ?case
    using runs_atD [OF runs_at_reconcileRun_sound reconciled.hyps(3), of] by (auto simp: writes_def)
qed (use assms in simp)


definition passingExecutor0 :: "unit executor" where
  "passingExecutor0 = E0\<lparr>ex_env := env0\<lparr>api_GetAnalysisRun := (\<lambda>_ _. returnE passedRun0)\<rparr>\<rparr>"

abbreviation gatedRollout0 :: rollout where
  "gatedRollout0 \<equiv> rollout0 [step0 ''a'', step0 ''b'']"

abbreviation gotRun0 :: "(unit, request) world" where
  "gotRun0 \<equiv> snd (getOrCreateAnalysisRun passingExecutor0 gatedRollout0 (step0 ''a'') analysisStep0
     (analysisRunName gatedRollout0 (step0 ''a'')) world0)"

abbreviation ranAnalysis0 :: "(unit, request) world" where
  "ranAnalysis0 \<equiv> snd (runAnalysis passingExecutor0 gatedRollout0 (step0 ''a'') analysisStep0 0 world0)"

lemma passedRun0_got:
  "getOrCreateAnalysisRun passingExecutor0 gatedRollout0 (step0 ''a'') analysisStep0
     (analysisRunName gatedRollout0 (step0 ''a'')) world0 = (Inr passedRun0, gotRun0)"
  by (simp add: getOrCreateAnalysisRun_def passingExecutor0_def E0_def eff_eval)

lemma ranAnalysis0_leaves:
  "\<exists>q ok. (q, ok) \<in> set (new_requests gotRun0 ranAnalysis0) \<and> \<not> keepsStep gatedRollout0 q"
proof -
  have "list_ex (\<lambda>(q, ok). \<not> keepsStep gatedRollout0 q) (new_requests gotRun0 ranAnalysis0)" by code_simp
  then show ?thesis by (auto simp: list_ex_iff)
qed


end
